(* ===== verification/Prelude.thy ===== *)
theory Prelude
  imports Complex_Main "HOL-Library.AList"
begin

text \<open>
  Shared vocabulary of the development: Python exceptions, results of code that may raise,
  Python dictionaries as association lists in insertion order, the truthiness of strings,
  and the theorem collections the component theories add their hints to.
\<close>

named_theorems run_simps \<open>unfolding rules for handlers and actions\<close>
named_theorems inv_intros \<open>preservation rules for invariants\<close>

subsection \<open>Exceptions\<close>

text \<open>
  The exceptions the modelled code raises or receives. \<open>JSONDecodeError\<close> is a subclass of
  \<open>ValueError\<close>; \<open>CancelledError\<close> and \<open>KeyboardInterrupt\<close> are \<open>BaseException\<close>s, which
  \<open>except Exception\<close> does not catch. \<open>BadAnswer\<close> marks an answer of an external call whose shape the client library
  never produces.
\<close>

datatype exn =
    ValueError string
  | JSONDecodeError
  | TypeError string
  | KeyError string
  | AttributeError string
  | IndexError
  | AssertionError
  | ZeroDivisionError
  | OverflowError
  | RuntimeError string
  | MT5UnavailableError string
  | ArtifactIntegrityError string
  | ResponseError string
  | RedisError string
  | PsycopgError string
  | HttpTimeout
  | HttpError string
  | JwtError
  | HTTPException int string
  | OSError string
  | KeyboardInterrupt
  | CancelledError
  | BadAnswer
  | Diverged  \<comment> \<open>not an exception: the outcome of a call that never returns\<close>

fun is_value_error :: "exn \<Rightarrow> bool" where
  "is_value_error (ValueError m) = True"
| "is_value_error JSONDecodeError = True"
| "is_value_error e = False"

fun is_exception :: "exn \<Rightarrow> bool" where
  \<comment> \<open>what \<open>except Exception\<close> catches\<close>
  "is_exception CancelledError = False"
| "is_exception KeyboardInterrupt = False"
| "is_exception Diverged = False"
| "is_exception e = True"

fun is_response_error :: "exn \<Rightarrow> bool" where
  "is_response_error (ResponseError m) = True"
| "is_response_error e = False"

fun is_psycopg_error :: "exn \<Rightarrow> bool" where
  "is_psycopg_error (PsycopgError m) = True"
| "is_psycopg_error e = False"

type_synonym 'a res = "exn + 'a"

definition res_bind :: "'a res \<Rightarrow> ('a \<Rightarrow> 'b res) \<Rightarrow> 'b res" where
  "res_bind m f = (case m of Inl e \<Rightarrow> Inl e | Inr x \<Rightarrow> f x)"

lemma res_bind_simps [simp, run_simps]:
  "res_bind (Inl e) f = Inl e"
  "res_bind (Inr x) f = f x"
  by (simp_all add: res_bind_def)

lemma res_bind_Inr_iff: "res_bind m f = Inr y \<longleftrightarrow> (\<exists>x. m = Inr x \<and> f x = Inr y)"
  by (cases m) auto

lemma res_bind_Inl_iff:
  "res_bind m f = Inl e \<longleftrightarrow> m = Inl e \<or> (\<exists>x. m = Inr x \<and> f x = Inl e)"
  by (cases m) auto

lemma res_bind_cong [fundef_cong]:
  "m = m' \<Longrightarrow> (\<And>x. m' = Inr x \<Longrightarrow> f x = f' x) \<Longrightarrow> res_bind m f = res_bind m' f'"
  by (cases m') auto

text \<open>\<open>[f(x) for x in xs]\<close> where \<open>f\<close> may raise: the first exception ends it.\<close>

fun res_map :: "('a \<Rightarrow> 'b res) \<Rightarrow> 'a list \<Rightarrow> 'b list res" where
  "res_map f [] = Inr []"
| "res_map f (x # xs) =
     res_bind (f x) (\<lambda>y. res_bind (res_map f xs) (\<lambda>ys. Inr (y # ys)))"

lemma res_map_Inr_length: "res_map f xs = Inr ys \<Longrightarrow> length ys = length xs"
  by (induction xs arbitrary: ys) (auto simp: res_bind_Inr_iff)

lemma res_map_Inr_nth:
  "res_map f xs = Inr ys \<Longrightarrow> i < length xs \<Longrightarrow> f (xs ! i) = Inr (ys ! i)"
  by (induction xs arbitrary: ys i) (auto simp: res_bind_Inr_iff nth_Cons split: nat.splits)

lemma res_map_pure [simp]: "res_map (\<lambda>x. Inr (g x)) xs = Inr (map g xs)"
  by (induction xs) auto

subsection \<open>Dictionaries in insertion order\<close>

text \<open>
  A Python \<open>dict\<close> keeps insertion order; storing to a present key overwrites in place.
  \<open>AList.update\<close> does exactly that.
\<close>

type_synonym 'v dict = "(string \<times> 'v) list"

definition dget :: "('k \<times> 'v) list \<Rightarrow> 'k \<Rightarrow> 'v option" where
  "dget d k = map_of d k"

definition dset :: "('k \<times> 'v) list \<Rightarrow> 'k \<Rightarrow> 'v \<Rightarrow> ('k \<times> 'v) list" where
  "dset d k v = AList.update k v d"

definition ddel :: "('k \<times> 'v) list \<Rightarrow> 'k \<Rightarrow> ('k \<times> 'v) list" where
  "ddel d k = AList.delete k d"

definition dhas :: "('k \<times> 'v) list \<Rightarrow> 'k \<Rightarrow> bool" where
  "dhas d k = (k \<in> fst ` set d)"

definition getitem :: "'v dict \<Rightarrow> string \<Rightarrow> 'v res" where
  \<comment> \<open>\<open>d[k]\<close>\<close>
  "getitem d k = (case dget d k of None \<Rightarrow> Inl (KeyError k) | Some v \<Rightarrow> Inr v)"

lemma dget_Nil [simp]: "dget [] k = None"
  by (simp add: dget_def)

lemma dget_Cons [simp]: "dget ((k', v) # d) k = (if k' = k then Some v else dget d k)"
  by (simp add: dget_def)

lemma dget_append: "dget (a @ b) k = (case dget a k of None \<Rightarrow> dget b k | Some v \<Rightarrow> Some v)"
  by (induction a) auto

lemma dget_dset [simp]: "dget (dset d k v) k' = (if k' = k then Some v else dget d k')"
  by (simp add: dget_def dset_def update_conv')

lemma dget_ddel [simp]: "dget (ddel d k) k' = (if k' = k then None else dget d k')"
  by (simp add: dget_def ddel_def delete_conv')

lemma dset_simps [simp]:
  "dset [] k v = [(k, v)]"
  "dset ((k', v') # d) k v = (if k' = k then (k, v) # d else (k', v') # dset d k v)"
  by (simp_all add: dset_def)

lemma ddel_simps [simp]:
  "ddel [] k = []"
  "ddel ((k', v') # d) k = (if k' = k then ddel d k else (k', v') # ddel d k)"
  by (simp_all add: ddel_def AList.delete_eq)

lemma dhas_dget: "dhas d k \<longleftrightarrow> dget d k \<noteq> None"
  by (induction d) (auto simp: dhas_def)

lemma distinct_dset: "distinct (map fst d) \<Longrightarrow> distinct (map fst (dset d k v))"
  by (simp add: dset_def distinct_update)

lemma distinct_ddel: "distinct (map fst d) \<Longrightarrow> distinct (map fst (ddel d k))"
  by (simp add: ddel_def distinct_delete)

lemma length_dset:
  "length (dset d k v) = (if dget d k = None then Suc (length d) else length d)"
  by (induction d) (auto split: if_splits)

lemma length_ddel_le: "length (ddel d k) \<le> length d"
  by (induction d) auto

lemma set_dset_subset: "set (dset d k v) \<subseteq> insert (k, v) (set d)"
  by (induction d) (auto split: if_splits)

subsection \<open>Decimal numerals\<close>

fun nat_str :: "nat \<Rightarrow> string" where
  "nat_str n = (if n < 10 then [char_of (48 + n)] else nat_str (n div 10) @ [char_of (48 + n mod 10)])"

declare nat_str.simps [simp del]

definition int_str :: "int \<Rightarrow> string" where
  \<comment> \<open>\<open>str(n)\<close> of an int\<close>
  "int_str n = (if n < 0 then CHR ''-'' # nat_str (nat (- n)) else nat_str (nat n))"

subsection \<open>Lists\<close>

text \<open>\<open>xs[-n:]\<close> for \<open>n > 0\<close>; \<open>xs[-0:]\<close> is the whole list.\<close>

definition tail_slice :: "nat \<Rightarrow> 'a list \<Rightarrow> 'a list" where
  "tail_slice n xs = (if n = 0 then xs else drop (length xs - n) xs)"

lemma length_tail_slice: "0 < n \<Longrightarrow> length (tail_slice n xs) = min n (length xs)"
  by (auto simp: tail_slice_def)

lemma set_tail_slice: "set (tail_slice n xs) \<subseteq> set xs"
  by (auto simp: tail_slice_def dest: in_set_dropD)

fun find_first :: "('a \<Rightarrow> bool) \<Rightarrow> 'a list \<Rightarrow> 'a option" where
  "find_first P [] = None"
| "find_first P (x # xs) = (if P x then Some x else find_first P xs)"

lemma find_first_Some: "find_first P xs = Some x \<Longrightarrow> x \<in> set xs \<and> P x"
  by (induction xs) (auto split: if_splits)

lemma find_first_None: "find_first P xs = None \<longleftrightarrow> (\<forall>x \<in> set xs. \<not> P x)"
  by (induction xs) auto

definition last_opt :: "'a list \<Rightarrow> 'a option" where
  "last_opt xs = (if xs = [] then None else Some (last xs))"

end
