(* ===== verification/Float64.thy ===== *)
theory Float64
  imports Prelude
begin

text \<open>
  IEEE-754 binary64 arithmetic, the \<open>float\<close> of Python and the \<open>float64\<close> of numpy: finite
  values as rationals, the two infinities and NaN, every operation rounded to nearest with
  ties to even (53-bit significands, smallest exponent -1074, overflow at \<open>2 ^ 1024\<close>).
  Positive and negative zero are identified. The second half proves what the component
  theories need of the rounding: it is monotone, odd, exact on representable numbers.
\<close>

subsection \<open>Floors of numeral fractions\<close>

lemma floor_rat_numeral [simp]:
  "\<lfloor>numeral a / numeral b :: rat\<rfloor> = numeral a div numeral b"
  "\<lfloor>1 / numeral b :: rat\<rfloor> = 1 div numeral b"
  "\<lfloor>- (numeral a / numeral b) :: rat\<rfloor> = - numeral a div numeral b"
  "\<lfloor>- (1 / numeral b) :: rat\<rfloor> = - 1 div numeral b"
  using floor_divide_of_int_eq [of "numeral a" "numeral b", where ?'a = rat]
    floor_divide_of_int_eq [of 1 "numeral b", where ?'a = rat]
    floor_divide_of_int_eq [of "- numeral a" "numeral b", where ?'a = rat]
    floor_divide_of_int_eq [of "- 1" "numeral b", where ?'a = rat]
  by simp_all

lemma ceiling_rat_numeral [simp]:
  "\<lceil>numeral a / numeral b :: rat\<rceil> = - (- numeral a div numeral b)"
  "\<lceil>1 / numeral b :: rat\<rceil> = - (- 1 div numeral b)"
  "\<lceil>- (numeral a / numeral b) :: rat\<rceil> = - (numeral a div numeral b)"
  "\<lceil>- (1 / numeral b) :: rat\<rceil> = - (1 div numeral b)"
  by (simp_all add: ceiling_def)

subsection \<open>Powers of two and the binary exponent\<close>

definition p2 :: "int \<Rightarrow> rat" where
  "p2 k = (if 0 \<le> k then 2 ^ nat k else 1 / 2 ^ nat (- k))"

lemma p2_powi: "p2 k = 2 powi k"
  by (simp add: p2_def power_int_def field_simps)

lemma p2_numeral [simp]: "p2 0 = 1" "p2 1 = 2" "p2 (- 1) = 1 / 2"
  "p2 (numeral n) = 2 ^ numeral n" "p2 (- numeral n) = 1 / 2 ^ numeral n"
  by (simp_all add: p2_def)

lemma p2_pos [simp]: "0 < p2 k"
  by (simp add: p2_def)

lemma p2_nonneg [simp]: "0 \<le> p2 k"
  by (simp add: p2_def)

lemma p2_nz [simp]: "p2 k \<noteq> 0"
  by (metis less_irrefl p2_pos)

lemma p2_add: "p2 (a + b) = p2 a * p2 b"
  by (simp add: p2_powi power_int_add)

lemma p2_diff: "p2 (a - b) = p2 a / p2 b"
  by (simp add: p2_powi power_int_diff)

lemma p2_mono: "a \<le> b \<Longrightarrow> p2 a \<le> p2 b"
  by (simp add: p2_powi power_int_increasing)

lemma p2_less: "a < b \<Longrightarrow> p2 a < p2 b"
  by (simp add: p2_powi power_int_strict_increasing)

lemma p2_less_iff: "p2 a < p2 b \<longleftrightarrow> a < b"
  by (meson leD leI p2_less p2_mono)

lemma p2_nat: "p2 (int n) = of_int (2 ^ n)"
  by (simp add: p2_def)

fun bitlen :: "nat \<Rightarrow> nat" where
  "bitlen n = (if n = 0 then 0 else Suc (bitlen (n div 2)))"

declare bitlen.simps [simp del]

lemma bitlen_0 [simp]: "bitlen 0 = 0"
  by (simp add: bitlen.simps [of 0])

lemma bitlen_1 [simp]: "bitlen (Suc 0) = Suc 0"
  by (simp add: bitlen.simps [of "Suc 0"])

lemma bitlen_numeral [simp]:
  "bitlen (numeral (num.Bit0 n)) = Suc (bitlen (numeral n))"
  "bitlen (numeral (num.Bit1 n)) = Suc (bitlen (numeral n))"
  "bitlen (numeral num.One) = Suc 0"
proof -
  have "bitlen (2 * k) = Suc (bitlen k)" "bitlen (2 * k + 1) = Suc (bitlen k)" if "0 < k" for k
    using that by (simp_all add: bitlen.simps [of "2 * k"] bitlen.simps [of "Suc (2 * k)"])
  from this(1) [of "numeral n"] this(2) [of "numeral n"]
  show "bitlen (numeral (num.Bit0 n)) = Suc (bitlen (numeral n))"
    "bitlen (numeral (num.Bit1 n)) = Suc (bitlen (numeral n))"
    unfolding numeral_Bit0 numeral_Bit1 by (simp_all add: mult_2)
qed simp

lemma bitlen_bounds: "0 < n \<Longrightarrow> 2 ^ (bitlen n - 1) \<le> n \<and> n < 2 ^ bitlen n"
proof (induction n rule: bitlen.induct)
  case (1 n)
  show ?case
  proof (cases "n div 2 = 0")
    case True
    with 1 have "n = 1" by simp
    then show ?thesis by simp
  next
    case False
    with 1 have ih: "2 ^ (bitlen (n div 2) - 1) \<le> n div 2 \<and> n div 2 < 2 ^ bitlen (n div 2)"
      by simp
    have pos: "0 < bitlen (n div 2)"
      using False by (simp add: bitlen.simps [of "n div 2"])
    then obtain k where k: "bitlen (n div 2) = Suc k"
      by (cases "bitlen (n div 2)") auto
    have b: "bitlen n = Suc (Suc k)"
      using 1 k by (simp add: bitlen.simps [of n])
    from ih k have "2 ^ k \<le> n div 2" and "n div 2 < 2 ^ Suc k" by simp_all
    then have "2 * 2 ^ k \<le> n" and "n < 2 * 2 ^ Suc k" by linarith+
    then show ?thesis using b by simp
  qed
qed

definition ilog2 :: "rat \<Rightarrow> int" where
  \<comment> \<open>\<open>\<lfloor>log\<^sub>2 x\<rfloor>\<close> for \<open>x > 0\<close>\<close>
  "ilog2 x = (if 1 \<le> x then int (bitlen (nat \<lfloor>x\<rfloor>)) - 1
              else - int (bitlen (nat (\<lceil>1 / x\<rceil> - 1))))"

lemma ilog2_ge1:
  assumes "1 \<le> x"
  shows "p2 (ilog2 x) \<le> x \<and> x < p2 (ilog2 x + 1)"
proof -
  define n where "n = nat \<lfloor>x\<rfloor>"
  have n0: "0 < n" using assms by (simp add: n_def)
  have nx: "of_nat n \<le> x" "x < of_nat n + 1"
    using assms by (simp_all add: n_def) linarith+
  have bp: "0 < bitlen n" using n0 by (simp add: bitlen.simps [of n])
  have e: "ilog2 x = int (bitlen n - 1)" "ilog2 x + 1 = int (bitlen n)"
    using assms bp by (simp_all add: ilog2_def n_def)
  have lo: "(2::nat) ^ (bitlen n - 1) \<le> n" and hi: "n + 1 \<le> (2::nat) ^ bitlen n"
    using bitlen_bounds [OF n0] by auto
  have "(2::rat) ^ (bitlen n - 1) \<le> of_nat n"
    using lo by (metis of_nat_le_iff of_nat_numeral of_nat_power)
  then have "(2::rat) ^ (bitlen n - 1) \<le> x" using nx by linarith
  moreover have "(of_nat (n + 1) :: rat) \<le> of_nat (2 ^ bitlen n)"
    using hi by (simp only: of_nat_le_iff)
  ultimately show ?thesis
    unfolding e(2) unfolding e(1) p2_nat using nx by simp
qed

lemma ilog2_lt1:
  assumes "0 < x" "x < 1"
  shows "p2 (ilog2 x) \<le> x \<and> x < p2 (ilog2 x + 1)"
proof -
  define y where "y = 1 / x"
  define c where "c = nat (\<lceil>y\<rceil> - 1)"
  have y1: "1 < y" using assms by (simp add: y_def)
  then have c0: "0 < c" by (simp add: c_def)
  have cy: "of_nat c < y" "y \<le> of_nat c + 1"
    using y1 ceiling_correct [of y] by (simp_all add: c_def of_nat_nat)
  have bp: "0 < bitlen c" using c0 by (simp add: bitlen.simps [of c])
  have e: "ilog2 x = - int (bitlen c)" "ilog2 x + 1 = - int (bitlen c - 1)"
    using assms bp by (simp_all add: ilog2_def c_def y_def)
  have lo: "(2::nat) ^ (bitlen c - 1) \<le> c" and hi: "c + 1 \<le> (2::nat) ^ bitlen c"
    using bitlen_bounds [OF c0] by auto
  have "(2::rat) ^ (bitlen c - 1) \<le> of_nat c"
    using lo by (metis of_nat_le_iff of_nat_numeral of_nat_power)
  then have l: "(2::rat) ^ (bitlen c - 1) < y" using cy by linarith
  have "(of_nat (c + 1) :: rat) \<le> of_nat (2 ^ bitlen c)"
    using hi by (simp only: of_nat_le_iff)
  then have h: "y \<le> (2::rat) ^ bitlen c" using cy by simp
  have pe: "p2 (- int k) = 1 / 2 ^ k" for k
    by (simp add: p2_def)
  show ?thesis
    using l h assms unfolding e(2) unfolding e(1) pe y_def
    by (simp add: field_simps)
qed

lemma ilog2_bounds: "0 < x \<Longrightarrow> p2 (ilog2 x) \<le> x \<and> x < p2 (ilog2 x + 1)"
  by (cases "1 \<le> x") (auto simp: ilog2_ge1 ilog2_lt1)

lemma ilog2_mono: "0 < x \<Longrightarrow> x \<le> y \<Longrightarrow> ilog2 x \<le> ilog2 y"
proof -
  assume "0 < x" "x \<le> y"
  then have "p2 (ilog2 x) < p2 (ilog2 y + 1)"
    using ilog2_bounds [of x] ilog2_bounds [of y] by linarith
  then show ?thesis by (simp add: p2_less_iff)
qed

subsection \<open>Rounding half to even\<close>

definition rhe :: "rat \<Rightarrow> int" where
  "rhe x = (let f = \<lfloor>x\<rfloor>; d = x - of_int f in
     if d < 1 / 2 then f else if 1 / 2 < d then f + 1 else if even f then f else f + 1)"

lemma rhe_bounds: "\<lfloor>x\<rfloor> \<le> rhe x" "rhe x \<le> \<lfloor>x\<rfloor> + 1"
  by (auto simp: rhe_def Let_def)

lemma rhe_of_int [simp]: "rhe (of_int n) = n"
  by (simp add: rhe_def)

lemma rhe_0 [simp]: "rhe 0 = 0"
  by (simp add: rhe_def)

lemma rhe_mono: "x \<le> y \<Longrightarrow> rhe x \<le> rhe y"
proof (cases "\<lfloor>x\<rfloor> = \<lfloor>y\<rfloor>")
  case True
  assume "x \<le> y"
  with True show ?thesis by (auto simp: rhe_def Let_def)
next
  case False
  assume "x \<le> y"
  then have "\<lfloor>x\<rfloor> \<le> \<lfloor>y\<rfloor>" by (rule floor_mono)
  with False have "\<lfloor>x\<rfloor> + 1 \<le> \<lfloor>y\<rfloor>" by simp
  with rhe_bounds [of x] rhe_bounds [of y] show ?thesis by linarith
qed

lemma rhe_near: "\<bar>of_int (rhe x) - x\<bar> \<le> 1 / 2"
proof -
  define f where "f = \<lfloor>x\<rfloor>"
  have "of_int f \<le> x" "x < of_int f + 1" unfolding f_def by linarith+
  then show ?thesis unfolding rhe_def Let_def f_def [symmetric] by (auto simp: abs_le_iff)
qed

lemma rhe_minus: "rhe (- x) = - rhe x"
proof (cases "x = of_int \<lfloor>x\<rfloor>")
  case True
  then have "rhe (- x) = rhe (of_int (- \<lfloor>x\<rfloor>))" by simp
  also have "\<dots> = - rhe (of_int \<lfloor>x\<rfloor>)" unfolding rhe_of_int by simp
  finally show ?thesis using True by simp
next
  case False
  have f: "\<lfloor>- x\<rfloor> = - \<lfloor>x\<rfloor> - 1"
    using False by (intro floor_unique) linarith+
  show ?thesis unfolding rhe_def Let_def f by auto
qed

subsection \<open>Rounding to the 53-bit grid\<close>

definition quantum :: "rat \<Rightarrow> int" where
  \<comment> \<open>exponent of one unit in the last place at magnitude \<open>\<bar>x\<bar>\<close>\<close>
  "quantum x = max (ilog2 \<bar>x\<bar> - 52) (- 1074)"

definition rnd :: "rat \<Rightarrow> rat" where
  "rnd x = (if x = 0 then 0 else let q = p2 (quantum x) in of_int (rhe (x / q)) * q)"

definition representable :: "rat \<Rightarrow> bool" where
  "representable x \<longleftrightarrow> (\<exists>m q. x = of_int m * p2 q \<and> \<bar>m\<bar> < 2 ^ 53 \<and> - 1074 \<le> q)"

lemma rnd_0 [simp]: "rnd 0 = 0"
  by (simp add: rnd_def)

lemma rnd_minus [simp]: "rnd (- x) = - rnd x"
  by (simp add: rnd_def quantum_def Let_def rhe_minus)

lemma quantum_mono: "0 < x \<Longrightarrow> x \<le> y \<Longrightarrow> quantum x \<le> quantum y"
  using ilog2_mono [of x y] by (simp add: quantum_def)

lemma rnd_nonneg: "0 \<le> x \<Longrightarrow> 0 \<le> rnd x"
  using rhe_mono [of 0 "x / p2 (quantum x)"] by (auto simp: rnd_def Let_def)

lemma rnd_mono_pos:
  assumes "0 < x" "x \<le> y"
  shows "rnd x \<le> rnd y"
proof (cases "quantum x = quantum y")
  case True
  then have "rhe (x / p2 (quantum x)) \<le> rhe (y / p2 (quantum y))"
    using assms by (intro rhe_mono) (simp add: divide_right_mono)
  then show ?thesis
    using assms True by (simp add: rnd_def Let_def)
next
  case False
  define q where "q = quantum x"
  define e where "e = ilog2 y"
  have q: "q < quantum y" using False quantum_mono [OF assms] by (simp add: q_def)
  then have qy: "quantum y = e - 52"
    using assms by (auto simp: quantum_def q_def e_def)
  have y: "p2 e \<le> y" using ilog2_bounds [of y] assms by (simp add: e_def)
  have "p2 (int 52) \<le> y / p2 (e - 52)"
    using y by (simp add: p2_diff field_simps p2_nat)
  then have "rhe (of_int (2 ^ 52)) \<le> rhe (y / p2 (quantum y))"
    unfolding qy by (intro rhe_mono) (simp only: p2_nat)
  then have "of_int (2 ^ 52) * p2 (e - 52) \<le> rnd y"
    using assms unfolding rhe_of_int qy by (auto simp: rnd_def Let_def qy)
  then have hi: "p2 e \<le> rnd y"
    using p2_nat [of 52] p2_diff [of e 52] by simp
  have lx: "ilog2 x \<le> q + 52" by (simp add: q_def quantum_def assms abs_of_pos)
  have x: "x < p2 e"
  proof -
    have "x < p2 (ilog2 x + 1)" using ilog2_bounds [of x] assms by simp
    also have "\<dots> \<le> p2 e" using lx q qy by (intro p2_mono) linarith
    finally show ?thesis .
  qed
  have "- 1074 \<le> q" by (simp add: q_def quantum_def)
  have eq: "0 \<le> e - q" using q qy by linarith
  have "x / p2 q \<le> p2 (e - q)" using x by (simp add: p2_diff divide_right_mono)
  also have "\<dots> = of_int (2 ^ nat (e - q))" using eq p2_nat [of "nat (e - q)"] by simp
  finally have "rhe (x / p2 q) \<le> 2 ^ nat (e - q)"
    using rhe_mono [of "x / p2 q" "of_int (2 ^ nat (e - q))"] by (simp only: rhe_of_int)
  then have "of_int (rhe (x / p2 q)) \<le> (of_int (2 ^ nat (e - q)) :: rat)"
    by (simp only: of_int_le_iff)
  also have "\<dots> = p2 (e - q)" using eq p2_nat [of "nat (e - q)"] by simp
  finally have "rnd x \<le> p2 (e - q) * p2 q"
    using assms by (simp add: rnd_def Let_def q_def mult_right_mono)
  also have "\<dots> = p2 e" by (simp add: p2_diff)
  finally show ?thesis using hi by linarith
qed

lemma rnd_mono: "x \<le> y \<Longrightarrow> rnd x \<le> rnd y"
proof -
  assume xy: "x \<le> y"
  consider "0 < x" | "x \<le> 0" "0 \<le> y" | "y < 0" by linarith
  then show ?thesis
  proof cases
    case 1
    then show ?thesis using xy by (rule rnd_mono_pos)
  next
    case 2
    then have "rnd x \<le> 0" using rnd_nonneg [of "- x"] by simp
    moreover have "0 \<le> rnd y" using 2 by (intro rnd_nonneg)
    ultimately show ?thesis by linarith
  next
    case 3
    then have "rnd (- y) \<le> rnd (- x)" using xy by (intro rnd_mono_pos) simp_all
    then show ?thesis by simp
  qed
qed

lemma rnd_exact:
  assumes "representable x"
  shows "rnd x = x"
proof (cases "x = 0")
  case False
  from assms obtain m q where x: "x = of_int m * p2 q" and m: "\<bar>m\<bar> < 2 ^ 53" and q: "- 1074 \<le> q"
    unfolding representable_def by blast
  have "\<bar>x\<bar> < p2 (53 + q)"
  proof -
    have "\<bar>x\<bar> = of_int \<bar>m\<bar> * p2 q" by (simp add: x abs_mult)
    also have "\<dots> < of_int (2 ^ 53) * p2 q"
      using m by (intro mult_strict_right_mono) (simp_all only: of_int_less_iff p2_pos)
    also have "\<dots> = p2 (53 + q)" using p2_nat [of 53] by (simp add: p2_add)
    finally show ?thesis .
  qed
  then have "p2 (ilog2 \<bar>x\<bar>) < p2 (53 + q)"
    using ilog2_bounds [of "\<bar>x\<bar>"] False by linarith
  then have "quantum x \<le> q" using q by (simp add: p2_less_iff quantum_def)
  then have d: "0 \<le> q - quantum x" by simp
  have "x / p2 (quantum x) = of_int m * p2 (q - quantum x)" by (simp add: x p2_diff)
  also have "\<dots> = of_int (m * 2 ^ nat (q - quantum x))"
    using d p2_nat [of "nat (q - quantum x)"] by simp
  finally have "of_int (rhe (x / p2 (quantum x))) = x / p2 (quantum x)"
    by (simp only: rhe_of_int)
  then show ?thesis using False by (simp add: rnd_def Let_def)
qed simp

lemma representable_of_int: "\<bar>n\<bar> < 2 ^ 53 \<Longrightarrow> representable (of_int n)"
  unfolding representable_def by (intro exI [of _ n] exI [of _ 0]) (simp add: p2_def)

lemma rnd_of_int: "\<bar>n\<bar> < 2 ^ 53 \<Longrightarrow> rnd (of_int n) = of_int n"
  by (rule rnd_exact) (rule representable_of_int)

lemma representable_rnd: "representable (rnd x)"
proof (cases "x = 0")
  case True
  then show ?thesis
    unfolding representable_def by (intro exI [of _ 0] exI [of _ 0]) simp
next
  case False
  define q where "q = quantum x"
  define m where "m = rhe (x / p2 q)"
  have q: "- 1074 \<le> q" "ilog2 \<bar>x\<bar> \<le> q + 52" by (simp_all add: q_def quantum_def)
  have "\<bar>x\<bar> < p2 (ilog2 \<bar>x\<bar> + 1)" using ilog2_bounds [of "\<bar>x\<bar>"] False by simp
  also have "\<dots> \<le> p2 (53 + q)" using q by (intro p2_mono) linarith
  also have "\<dots> = of_int (2 ^ 53) * p2 q" using p2_nat [of 53] by (simp add: p2_add)
  finally have b: "\<bar>x / p2 q\<bar> \<le> of_int (2 ^ 53)" by (simp add: field_simps)
  then have "of_int (- (2 ^ 53)) \<le> x / p2 q" "x / p2 q \<le> of_int (2 ^ 53)"
    by (simp_all only: abs_le_iff of_int_minus) linarith+
  then have "- (2 ^ 53) \<le> m" "m \<le> 2 ^ 53"
    using rhe_mono [of "of_int (- (2 ^ 53))" "x / p2 q"] rhe_mono [of "x / p2 q" "of_int (2 ^ 53)"]
    by (simp_all only: m_def rhe_of_int)
  then consider "\<bar>m\<bar> < 2 ^ 53" | "m = 2 ^ 53" | "m = - (2 ^ 53)" by linarith
  then obtain m' q' where "of_int m * p2 q = of_int m' * p2 q'" "\<bar>m'\<bar> < 2 ^ 53" "- 1074 \<le> q'"
  proof cases
    case 1
    then show ?thesis using that q by blast
  next
    case 2
    then show ?thesis
      using that [of "2 ^ 52" "q + 1"] q by (simp add: p2_add)
  next
    case 3
    then show ?thesis
      using that [of "- (2 ^ 52)" "q + 1"] q by (simp add: p2_add)
  qed
  then show ?thesis
    using False by (auto simp: representable_def rnd_def Let_def q_def m_def)
qed

lemma rnd_idem [simp]: "rnd (rnd x) = rnd x"
  by (rule rnd_exact) (rule representable_rnd)

lemma rnd_err:
  assumes "\<bar>x\<bar> \<le> p2 k" "- 1022 \<le> k"
  shows "\<bar>rnd x - x\<bar> \<le> p2 (k - 53)"
proof (cases "x = 0")
  case False
  have "p2 (ilog2 \<bar>x\<bar>) \<le> p2 k" using ilog2_bounds [of "\<bar>x\<bar>"] assms False by simp
  then have "ilog2 \<bar>x\<bar> \<le> k" by (meson leI not_le p2_less)
  then have q: "quantum x \<le> k - 52" using assms(2) by (simp add: quantum_def)
  define u where "u = p2 (quantum x)"
  have "rnd x - x = (of_int (rhe (x / u)) - x / u) * u"
    using False by (simp add: rnd_def Let_def u_def field_simps)
  then have "\<bar>rnd x - x\<bar> = \<bar>of_int (rhe (x / u)) - x / u\<bar> * u"
    by (simp add: abs_mult u_def)
  also have "\<dots> \<le> 1 / 2 * u" by (intro mult_right_mono rhe_near) (simp add: u_def)
  also have "\<dots> \<le> 1 / 2 * p2 (k - 52)" using q by (simp add: u_def p2_mono)
  also have "\<dots> = p2 (k - 53)" using p2_diff [of "k - 52" 1] by simp
  finally show ?thesis .
qed simp

subsection \<open>The type of doubles\<close>

datatype f64 = Fin rat | PInf | NInf | NaN

definition f64_limit :: rat where
  "f64_limit = 2 ^ 1024"

definition mk :: "rat \<Rightarrow> f64" where
  \<comment> \<open>the double nearest to a rational\<close>
  "mk x = (let r = rnd x in
     if f64_limit \<le> r then PInf else if r \<le> - f64_limit then NInf else Fin r)"

fun fok :: "f64 \<Rightarrow> bool" where
  \<comment> \<open>the values a double can take\<close>
  "fok (Fin x) = (rnd x = x \<and> \<bar>x\<bar> < f64_limit)"
| "fok v = True"

fun is_fin :: "f64 \<Rightarrow> bool" where
  "is_fin (Fin x) = True"
| "is_fin v = False"

fun fval :: "f64 \<Rightarrow> rat" where
  "fval (Fin x) = x"
| "fval v = 0"

fun fneg :: "f64 \<Rightarrow> f64" where
  "fneg (Fin a) = Fin (- a)"
| "fneg PInf = NInf"
| "fneg NInf = PInf"
| "fneg NaN = NaN"

fun fabs :: "f64 \<Rightarrow> f64" where
  "fabs (Fin a) = Fin \<bar>a\<bar>"
| "fabs PInf = PInf"
| "fabs NInf = PInf"
| "fabs NaN = NaN"

fun fadd :: "f64 \<Rightarrow> f64 \<Rightarrow> f64" where
  "fadd NaN b = NaN"
| "fadd a NaN = NaN"
| "fadd (Fin a) (Fin b) = mk (a + b)"
| "fadd (Fin a) b = b"
| "fadd a (Fin b) = a"
| "fadd PInf NInf = NaN"
| "fadd NInf PInf = NaN"
| "fadd PInf PInf = PInf"
| "fadd NInf NInf = NInf"

definition inf_sign :: "rat \<Rightarrow> f64" where
  "inf_sign s = (if 0 < s then PInf else if s < 0 then NInf else NaN)"

fun fmul :: "f64 \<Rightarrow> f64 \<Rightarrow> f64" where
  "fmul NaN b = NaN"
| "fmul a NaN = NaN"
| "fmul (Fin a) (Fin b) = mk (a * b)"
| "fmul (Fin a) PInf = inf_sign a"
| "fmul (Fin a) NInf = inf_sign (- a)"
| "fmul PInf (Fin b) = inf_sign b"
| "fmul NInf (Fin b) = inf_sign (- b)"
| "fmul PInf PInf = PInf"
| "fmul PInf NInf = NInf"
| "fmul NInf PInf = NInf"
| "fmul NInf NInf = PInf"

fun fdiv :: "f64 \<Rightarrow> f64 \<Rightarrow> f64" where
  \<comment> \<open>numpy's division: a zero divisor gives an infinity or NaN\<close>
  "fdiv NaN b = NaN"
| "fdiv a NaN = NaN"
| "fdiv (Fin a) (Fin b) = (if b = 0 then inf_sign a else mk (a / b))"
| "fdiv (Fin a) b = Fin 0"
| "fdiv PInf (Fin b) = (if b < 0 then NInf else PInf)"
| "fdiv NInf (Fin b) = (if b < 0 then PInf else NInf)"
| "fdiv a b = NaN"

fun flt :: "f64 \<Rightarrow> f64 \<Rightarrow> bool" where
  "flt NaN b = False"
| "flt a NaN = False"
| "flt (Fin a) (Fin b) = (a < b)"
| "flt (Fin a) b = (b = PInf)"
| "flt NInf b = (b \<noteq> NInf)"
| "flt PInf b = False"

fun feq :: "f64 \<Rightarrow> f64 \<Rightarrow> bool" where
  \<comment> \<open>\<open>==\<close> on floats: NaN differs from itself\<close>
  "feq NaN b = False"
| "feq a b = (a = b)"

instantiation f64 :: "{zero, one, plus, uminus, minus, times, inverse, ord, abs}"
begin
definition zero_f64 :: f64 where "0 = Fin 0"
definition one_f64 :: f64 where "1 = Fin 1"
definition plus_f64 :: "f64 \<Rightarrow> f64 \<Rightarrow> f64" where "a + b = fadd a b"
definition uminus_f64 :: "f64 \<Rightarrow> f64" where "- a = fneg a"
definition minus_f64 :: "f64 \<Rightarrow> f64 \<Rightarrow> f64" where "a - b = fadd a (fneg b)"
definition times_f64 :: "f64 \<Rightarrow> f64 \<Rightarrow> f64" where "a * b = fmul a b"
definition divide_f64 :: "f64 \<Rightarrow> f64 \<Rightarrow> f64" where "a div b = fdiv a b"
definition inverse_f64 :: "f64 \<Rightarrow> f64" where "inverse b = fdiv (Fin 1) b"
definition less_f64 :: "f64 \<Rightarrow> f64 \<Rightarrow> bool" where "(a < b) = flt a b"
definition less_eq_f64 :: "f64 \<Rightarrow> f64 \<Rightarrow> bool" where "(a \<le> b) = (flt a b \<or> feq a b)"
definition abs_f64 :: "f64 \<Rightarrow> f64" where "\<bar>a\<bar> = fabs a"
instance ..
end

lemmas f64_ops = zero_f64_def one_f64_def plus_f64_def uminus_f64_def minus_f64_def
  times_f64_def divide_f64_def less_f64_def less_eq_f64_def abs_f64_def

lemma f64_fin_simps [simp]:
  "Fin a < Fin b \<longleftrightarrow> a < b"
  "Fin a \<le> Fin b \<longleftrightarrow> a \<le> b"
  "Fin a + Fin b = mk (a + b)"
  "Fin a - Fin b = mk (a - b)"
  "Fin a * Fin b = mk (a * b)"
  "- Fin a = Fin (- a)"
  "\<bar>Fin a\<bar> = Fin \<bar>a\<bar>"
  "b \<noteq> 0 \<Longrightarrow> Fin a / Fin b = mk (a / b)"
  "feq (Fin a) (Fin b) \<longleftrightarrow> a = b"
  by (auto simp: f64_ops)

lemma f64_nan_simps [simp]:
  "NaN < x \<longleftrightarrow> False" "x < NaN \<longleftrightarrow> False" "NaN \<le> x \<longleftrightarrow> False" "x \<le> NaN \<longleftrightarrow> False"
  "NaN + x = NaN" "x + NaN = NaN" "NaN - x = NaN" "x - NaN = NaN" "NaN * x = NaN" "x * NaN = NaN"
  "NaN / x = NaN" "x / NaN = NaN" "- NaN = NaN" "\<bar>NaN\<bar> = NaN" "feq NaN x = False" "feq x NaN = False"
  by (cases x; simp add: f64_ops)+

lemma f64_inf_order_simps [simp]:
  "PInf < x \<longleftrightarrow> False" "x < NInf \<longleftrightarrow> False"
  "Fin a < PInf" "NInf < Fin a" "NInf < PInf"
  "Fin a \<le> PInf" "NInf \<le> Fin a" "NInf \<le> PInf" "PInf \<le> PInf" "NInf \<le> NInf"
  "PInf \<le> Fin a \<longleftrightarrow> False" "Fin a \<le> NInf \<longleftrightarrow> False" "PInf \<le> NInf \<longleftrightarrow> False"
  by (cases x; simp add: f64_ops)+

lemma le_PInf [simp]: "x \<le> PInf \<longleftrightarrow> x \<noteq> NaN" and NInf_le [simp]: "NInf \<le> x \<longleftrightarrow> x \<noteq> NaN"
  by (cases x; simp)+

lemma zero_eq_Fin: "(0::f64) = Fin 0" and one_eq_Fin: "(1::f64) = Fin 1"
  by (simp_all add: f64_ops)

lemma f64_zero_simps [simp]:
  "0 < Fin a \<longleftrightarrow> 0 < a" "Fin a < 0 \<longleftrightarrow> a < 0" "0 \<le> Fin a \<longleftrightarrow> 0 \<le> a" "Fin a \<le> 0 \<longleftrightarrow> a \<le> 0"
  "feq (Fin a) 0 \<longleftrightarrow> a = 0" "0 < PInf" "0 \<le> PInf" "\<not> PInf < (0::f64)" "\<not> PInf \<le> 0"
  "NInf < 0" "NInf \<le> 0" "\<not> 0 < NInf" "\<not> 0 \<le> NInf" "fok 0" "fok 1"
  "(0::f64) \<noteq> NaN" "(1::f64) \<noteq> NaN" "is_fin 0" "is_fin 1" "fval 0 = 0" "fval 1 = 1"
  using rnd_of_int [of 1] by (simp_all add: zero_eq_Fin one_eq_Fin f64_limit_def)

lemma f64_le_less: "(a::f64) \<le> b \<longleftrightarrow> a < b \<or> (a = b \<and> a \<noteq> NaN)"
  by (cases a; cases b; auto)

lemma f64_le_refl: "(a::f64) \<noteq> NaN \<Longrightarrow> a \<le> a"
  by (cases a) auto

lemma f64_le_trans: "(a::f64) \<le> b \<Longrightarrow> b \<le> c \<Longrightarrow> a \<le> c"
  by (cases a; cases b; cases c; auto)

lemma f64_less_le_trans: "(a::f64) < b \<Longrightarrow> b \<le> c \<Longrightarrow> a < c"
  by (cases a; cases b; cases c; auto)

lemma f64_le_less_trans: "(a::f64) \<le> b \<Longrightarrow> b < c \<Longrightarrow> a < c"
  by (cases a; cases b; cases c; auto)

lemma f64_less_trans: "(a::f64) < b \<Longrightarrow> b < c \<Longrightarrow> a < c"
  by (cases a; cases b; cases c; auto)

lemma f64_less_imp_le: "(a::f64) < b \<Longrightarrow> a \<le> b"
  by (simp add: f64_le_less)

lemma f64_not_less: "a \<noteq> NaN \<Longrightarrow> b \<noteq> NaN \<Longrightarrow> \<not> (a::f64) < b \<longleftrightarrow> b \<le> a"
  by (cases a; cases b; auto)

lemma f64_not_le: "a \<noteq> NaN \<Longrightarrow> b \<noteq> NaN \<Longrightarrow> \<not> (a::f64) \<le> b \<longleftrightarrow> b < a"
  by (cases a; cases b; auto)

lemma f64_less_irrefl [simp]: "\<not> (a::f64) < a"
  by (cases a) auto

lemma f64_less_asym: "(a::f64) < b \<Longrightarrow> \<not> b < a" "(a::f64) < b \<Longrightarrow> \<not> b \<le> a"
  by (cases a; cases b; auto)+

lemma f64_less_not_NaN: "(a::f64) < b \<Longrightarrow> a \<noteq> NaN \<and> b \<noteq> NaN"
  "(a::f64) \<le> b \<Longrightarrow> a \<noteq> NaN \<and> b \<noteq> NaN"
  by (cases a; cases b; auto)+

subsection \<open>Rounded results\<close>

lemma f64_limit_pos [simp]: "0 < f64_limit"
  by (simp add: f64_limit_def)

lemma mk_0 [simp]: "mk 0 = Fin 0"
  using f64_limit_pos by (auto simp: mk_def Let_def simp del: f64_limit_pos)

lemma mk_not_NaN [simp]: "mk x \<noteq> NaN" "NaN \<noteq> mk x"
  by (auto simp: mk_def Let_def)

lemma fok_mk [simp]: "fok (mk x)"
  by (auto simp: mk_def Let_def)

lemma mk_Fin_iff: "mk x = Fin y \<longleftrightarrow> y = rnd x \<and> \<bar>y\<bar> < f64_limit"
  by (auto simp: mk_def Let_def)

lemma mk_fok: "fok (Fin x) \<Longrightarrow> mk x = Fin x"
  by (auto simp: mk_def Let_def)

lemma mk_mono: "x \<le> y \<Longrightarrow> mk x \<le> mk y"
  using rnd_mono [of x y] f64_limit_pos
  by (auto simp: mk_def Let_def simp del: f64_limit_pos)

lemma mk_nonneg: "0 \<le> x \<Longrightarrow> 0 \<le> mk x"
  using mk_mono [of 0 x] by (simp add: zero_eq_Fin)

lemma mk_nonpos: "x \<le> 0 \<Longrightarrow> mk x \<le> 0"
  using mk_mono [of x 0] by (simp add: zero_eq_Fin)

lemma mk_small:
  assumes "\<bar>x\<bar> \<le> p2 k" "- 1022 \<le> k" "k \<le> 1000"
  shows "mk x = Fin (rnd x) \<and> \<bar>rnd x - x\<bar> \<le> p2 (k - 53)"
proof -
  have e: "\<bar>rnd x - x\<bar> \<le> p2 (k - 53)" using assms by (intro rnd_err)
  have "\<bar>rnd x\<bar> \<le> p2 (k - 53) + p2 k" using e assms by linarith
  also have "\<dots> \<le> p2 1000 + p2 1000" using assms by (intro add_mono p2_mono) simp_all
  also have "\<dots> < f64_limit" by (simp add: f64_limit_def)
  finally show ?thesis using e by (auto simp: mk_def Let_def)
qed

lemma abs_near_le: "\<bar>a - b\<bar> \<le> e \<Longrightarrow> \<bar>b\<bar> \<le> m \<Longrightarrow> e + m \<le> k \<Longrightarrow> \<bar>a\<bar> \<le> (k::rat)"
  by linarith

lemma abs_near_upper: "\<bar>a - b\<bar> \<le> e \<Longrightarrow> a \<le> b + (e::rat)"
  and abs_near_lower: "\<bar>a - b\<bar> \<le> e \<Longrightarrow> b \<le> a + (e::rat)"
  by linarith+

lemmas abs_near = abs_near_upper abs_near_lower

lemma mk_of_int: "\<bar>n\<bar> < 2 ^ 53 \<Longrightarrow> mk (of_int n) = Fin (of_int n)"
proof -
  assume n: "\<bar>n\<bar> < 2 ^ 53"
  have "\<bar>of_int n\<bar> < (of_int (2 ^ 53) :: rat)"
    using n by (simp only: of_int_less_iff flip: of_int_abs)
  also have "\<dots> \<le> f64_limit"
    unfolding f64_limit_def by (simp add: power_increasing)
  finally show ?thesis using rnd_of_int [OF n] by (intro mk_fok) simp
qed

lemma f64_inf_add [simp]: "Fin a + PInf = PInf" "Fin a + NInf = NInf" "PInf + Fin a = PInf"
  "NInf + Fin a = NInf" "PInf + PInf = PInf" "NInf + NInf = NInf" "PInf + NInf = NaN" "NInf + PInf = NaN"
  "NInf - PInf = NInf" "PInf - NInf = PInf" "PInf - PInf = NaN" "NInf - NInf = NaN"
  "PInf - Fin a = PInf" "NInf - Fin a = NInf" "Fin a - PInf = NInf" "Fin a - NInf = PInf"
  "- PInf = NInf" "- NInf = PInf" "\<bar>PInf\<bar> = PInf" "\<bar>NInf\<bar> = PInf"
  by (simp_all add: f64_ops)

lemma f64_abs_nonneg: "x \<noteq> NaN \<Longrightarrow> 0 \<le> \<bar>x::f64\<bar>"
  by (cases x) (auto simp: f64_ops)

lemma f64_add_nonneg: "0 \<le> (a::f64) \<Longrightarrow> 0 \<le> b \<Longrightarrow> 0 \<le> a + b"
  by (cases a; cases b; simp add: mk_nonneg; simp add: f64_ops)

lemma f64_mult_nonneg: "0 \<le> (a::f64) \<Longrightarrow> 0 \<le> b \<Longrightarrow> is_fin a \<Longrightarrow> is_fin b \<Longrightarrow> 0 \<le> a * b"
  by (cases a; cases b; simp add: mk_nonneg)

lemma mk_not_neg: "0 \<le> x \<Longrightarrow> \<not> mk x < 0"
  using mk_nonneg [of x] f64_le_less_trans [of 0 "mk x" 0] by auto

lemma f64_not_neg_mult: "\<not> (a::f64) < 0 \<Longrightarrow> \<not> b < 0 \<Longrightarrow> \<not> a * b < 0"
  by (cases a; cases b; simp add: mk_not_neg; simp add: f64_ops inf_sign_def)

lemma f64_not_neg_div: "\<not> (a::f64) < 0 \<Longrightarrow> \<not> b < 0 \<Longrightarrow> \<not> a / b < 0"
  using mk_not_neg [unfolded zero_eq_Fin]
  by (cases a; cases b; auto simp: divide_f64_def inf_sign_def zero_eq_Fin)

lemma f64_not_neg_abs: "\<not> \<bar>a::f64\<bar> < 0"
  by (cases a) auto

lemma f64_pos_not_neg: "\<not> (a::f64) \<le> 0 \<Longrightarrow> \<not> a < 0"
  by (auto simp: f64_less_imp_le)

lemma f64_le_add_nonneg: "is_fin a \<Longrightarrow> fok a \<Longrightarrow> 0 \<le> b \<Longrightarrow> a \<le> a + b"
proof (cases a; cases b)
  fix x y
  assume "fok a" "0 \<le> b" and ab: "a = Fin x" "b = Fin y"
  then have "mk x \<le> mk (x + y)" by (intro mk_mono) simp
  with ab \<open>fok a\<close> show ?thesis using mk_fok [of x] by simp
qed (simp_all add: f64_ops)

lemma f64_sub_nonneg_le: "is_fin a \<Longrightarrow> fok a \<Longrightarrow> 0 \<le> b \<Longrightarrow> a - b \<le> a"
proof (cases a; cases b)
  fix x y
  assume "fok a" "0 \<le> b" and ab: "a = Fin x" "b = Fin y"
  then have "mk (x - y) \<le> mk x" by (intro mk_mono) simp
  with ab \<open>fok a\<close> show ?thesis using mk_fok [of x] by simp
qed (simp_all add: f64_ops)

lemma f64_diff_nonneg: "b \<le> a \<Longrightarrow> is_fin a \<or> is_fin b \<Longrightarrow> (0::f64) \<le> a - b"
  by (cases a; cases b; simp add: mk_nonneg; simp add: f64_ops)

lemma f64_le_antisym: "(a::f64) \<le> b \<Longrightarrow> b \<le> a \<Longrightarrow> a = b"
  by (cases a; cases b; auto)

lemma f64_mult_left_mono: "is_fin c \<Longrightarrow> 0 \<le> c \<Longrightarrow> is_fin a \<Longrightarrow> is_fin b \<Longrightarrow> a \<le> b \<Longrightarrow> c * a \<le> c * (b::f64)"
  by (cases a; cases b; cases c; simp add: mk_mono mult_left_mono)

lemma f64_add_left_mono: "is_fin c \<Longrightarrow> a \<le> b \<Longrightarrow> c + a \<le> c + (b::f64)"
  by (cases a; cases b; cases c; simp add: mk_mono f64_inf_add)

lemma f64_diff_left_mono: "is_fin c \<Longrightarrow> a \<le> b \<Longrightarrow> c - b \<le> c - (a::f64)"
  by (cases a; cases b; cases c; simp add: mk_mono)

lemma f64_scale_mono:
  "is_fin c \<Longrightarrow> is_fin d \<Longrightarrow> 0 < c \<Longrightarrow> c \<le> d \<Longrightarrow> 0 \<le> (x::f64) \<Longrightarrow> c * x \<le> d * x"
  by (cases c; cases d; cases x) (auto simp: mk_mono mult_right_mono times_f64_def inf_sign_def)

lemma f64_scale_nonneg: "is_fin c \<Longrightarrow> 0 < c \<Longrightarrow> 0 \<le> (x::f64) \<Longrightarrow> 0 \<le> c * x"
  by (cases c; cases x) (auto simp: mk_nonneg times_f64_def inf_sign_def)

text \<open>Evaluation of closed arithmetic by the simplifier.\<close>

lemmas f64_eval = mk_def rnd_def quantum_def ilog2_def rhe_def f64_limit_def Let_def

subsection \<open>Python's number functions\<close>

text \<open>Python floats raise on division by zero; numpy arrays do not (\<open>(/)\<close>).\<close>

definition py_div :: "f64 \<Rightarrow> f64 \<Rightarrow> f64 res" where
  "py_div a b = (if feq b 0 then Inl ZeroDivisionError else Inr (a / b))"

fun py_floor :: "f64 \<Rightarrow> int res" where
  "py_floor (Fin x) = Inr \<lfloor>x\<rfloor>"
| "py_floor NaN = Inl (ValueError ''cannot convert float NaN to integer'')"
| "py_floor v = Inl OverflowError"

fun py_ceil :: "f64 \<Rightarrow> int res" where
  "py_ceil (Fin x) = Inr \<lceil>x\<rceil>"
| "py_ceil NaN = Inl (ValueError ''cannot convert float NaN to integer'')"
| "py_ceil v = Inl OverflowError"

fun py_round :: "nat \<Rightarrow> f64 \<Rightarrow> f64" where
  \<comment> \<open>\<open>round(x, n)\<close>: the exact value rounded half-even to \<open>n\<close> decimals, then to a double\<close>
  "py_round n (Fin x) = mk (of_int (rhe (x * 10 ^ n)) / 10 ^ n)"
| "py_round n v = v"

definition float_of_int :: "int \<Rightarrow> f64 res" where
  "float_of_int n = (if is_fin (mk (of_int n)) then Inr (mk (of_int n)) else Inl OverflowError)"

definition py_min :: "f64 \<Rightarrow> f64 \<Rightarrow> f64" where
  "py_min a b = (if b < a then b else a)"

definition py_max :: "f64 \<Rightarrow> f64 \<Rightarrow> f64" where
  "py_max a b = (if a < b then b else a)"

definition np_maximum :: "f64 \<Rightarrow> f64 \<Rightarrow> f64" where
  "np_maximum a b = (if a = NaN \<or> b = NaN then NaN else if a < b then b else a)"

definition np_minimum :: "f64 \<Rightarrow> f64 \<Rightarrow> f64" where
  "np_minimum a b = (if a = NaN \<or> b = NaN then NaN else if b < a then b else a)"

definition np_isnan :: "f64 \<Rightarrow> bool" where
  "np_isnan a = (a = NaN)"

lemma py_round_mono: "a \<le> b \<Longrightarrow> py_round n a \<le> py_round n b"
proof (cases a; cases b)
  fix x y
  assume "a \<le> b" and ab: "a = Fin x" "b = Fin y"
  then have "rhe (x * 10 ^ n) \<le> rhe (y * 10 ^ n)"
    by (intro rhe_mono) (simp add: mult_right_mono)
  then have "of_int (rhe (x * 10 ^ n)) / 10 ^ n \<le> (of_int (rhe (y * 10 ^ n)) / 10 ^ n :: rat)"
    by (simp add: divide_right_mono)
  then show ?thesis using ab by (simp add: mk_mono)
qed (auto simp: le_PInf NInf_le)

lemma fok_py_round [simp]: "fok a \<Longrightarrow> fok (py_round n a)"
  by (cases a) auto

lemma py_round_0 [simp]: "py_round n 0 = 0"
  by (simp add: zero_eq_Fin)

lemma fok_inf_sign [simp]: "fok (inf_sign s)"
  by (simp add: inf_sign_def)

lemma fok_fadd [simp]: "fok (fadd a b)"
  by (cases "(a, b)" rule: fadd.cases) simp_all

lemma fok_fmul [simp]: "fok (fmul a b)"
  by (cases "(a, b)" rule: fmul.cases) simp_all

lemma fok_fdiv [simp]: "fok (fdiv a b)"
  by (cases "(a, b)" rule: fdiv.cases) simp_all

lemma fok_ops [simp]: "fok (a + b)" "fok (a - b)" "fok (a * b)" "fok (a / b)"
  by (simp_all add: plus_f64_def minus_f64_def times_f64_def divide_f64_def)

lemma fok_uminus [simp]: "fok a \<Longrightarrow> fok (- a)"
  by (cases a) simp_all

lemma fok_abs [simp]: "fok a \<Longrightarrow> fok \<bar>a\<bar>"
  by (cases a) (auto simp: abs_if)

lemma py_min_le: "a \<noteq> NaN \<Longrightarrow> b \<noteq> NaN \<Longrightarrow> py_min a b \<le> a \<and> py_min a b \<le> b"
  by (auto simp: py_min_def f64_not_less f64_le_refl f64_less_imp_le)

lemma py_max_ge: "a \<noteq> NaN \<Longrightarrow> b \<noteq> NaN \<Longrightarrow> a \<le> py_max a b \<and> b \<le> py_max a b"
  by (auto simp: py_max_def f64_not_less f64_le_refl f64_less_imp_le)

text \<open>\<open>sum\<close> of floats in CPython 3.12: Neumaier's compensated summation.\<close>

definition sum_step :: "f64 \<times> f64 \<Rightarrow> f64 \<Rightarrow> f64 \<times> f64" where
  "sum_step acc x = (case acc of (s, c) \<Rightarrow>
     let t = s + x in
     (t, c + (if \<bar>x\<bar> \<le> \<bar>s\<bar> then (s - t) + x else (x - t) + s)))"

definition py_sum :: "f64 list \<Rightarrow> f64" where
  "py_sum xs = (case foldl sum_step (0, 0) xs of (s, c) \<Rightarrow>
     if is_fin c \<and> \<not> feq c 0 then s + c else s)"

end
