(* ===== verification/Bus.thy ===== *)
theory Bus
  imports Schemas
begin

text \<open>
  The outside world of a service and the effects of its code. Everything a service reaches
  through a client library (Redis, Postgres, the MT5 terminal, HTTP, clocks, random ids) is a
  call of type \<open>ecall\<close>; the environment answers each call as an arbitrary function of the
  calls made so far. An action is a state transformer whose result may be an exception; the
  state carries the log of calls and the correlation id bound to the logging context.
  The second half is \<open>vix_core/correlation.py\<close> and the consumer skeleton the services share.
\<close>

subsection \<open>Calls and answers\<close>

record deal_request =
  q_symbol :: string
  q_volume :: f64
  q_type :: direction              \<comment> \<open>\<open>ORDER_TYPE_BUY\<close> or \<open>ORDER_TYPE_SELL\<close>\<close>
  q_position :: "int option"
  q_price :: f64
  q_sl :: "f64 option"
  q_tp :: "f64 option"
  q_deviation :: int
  q_magic :: int
  q_comment :: pytext

datatype ecall =
    XReadGroup string string                    \<comment> \<open>stream, group\<close>
  | XReadGroups "string list" string            \<comment> \<open>several streams, group\<close>
  | XGroupCreate string string
  | XAck string string string                   \<comment> \<open>stream, group, message id\<close>
  | XAdd string "(string \<times> pytext) list"
  | RedisGet string
  | RedisSet string pytext "int option"         \<comment> \<open>key, value, expiry in seconds\<close>
  | RedisHGetAll string
  | RedisHSet string string pytext
  | RedisHDel string string
  | RedisHSetMap string "(string \<times> pytext) list"
  | RedisXLen string
  | RedisCmd string "json list"                 \<comment> \<open>any other command, arguments\<close>
  | RedisZ string string                        \<comment> \<open>sorted-set command, key\<close>
  | SqlRun string "json list"                   \<comment> \<open>statement name, parameters\<close>
  | SqlRows string "json list"
  | Mt5Tick string
  | Mt5Send deal_request
  | Mt5LastError
  | Mt5Positions "int option"
  | Mt5Deals int
  | Mt5Call string "json list"
  | HttpCall string "json list"
  | OsCall string "json list"                   \<comment> \<open>a socket or a subprocess\<close>
  | SleepFor f64
  | ReadClock
  | NewId

datatype ans =
    AUnit
  | ANone
  | AInt int
  | AFlt f64
  | AText pytext
  | AFields "(string \<times> pytext) list"
  | AMsgs "(string \<times> (string \<times> pytext) list) list"
  | AStreams "(string \<times> (string \<times> (string \<times> pytext) list) list) list"
  | ARows "json list list"
  | ATick f64 f64                               \<comment> \<open>ask, bid\<close>
  | ADeal int int f64 pytext                    \<comment> \<open>retcode, order, price, comment\<close>
  | AJson json
  | AHttp int "(string \<times> string) list" string   \<comment> \<open>status, headers, content\<close>
  | ARaise exn

record env =
  reply :: "ecall list \<Rightarrow> ecall \<Rightarrow> ans"

record world =
  log :: "ecall list"
  ctx :: "pytext option"
  conn :: bool                     \<comment> \<open>\<open>self._conn is not None\<close> of the service's database object, if it has one\<close>

type_synonym ('x, 'a) act = "'x world_scheme \<Rightarrow> 'a res \<times> 'x world_scheme"

subsection \<open>Actions\<close>

definition ret :: "'a \<Rightarrow> ('x, 'a) act" where
  "ret x w = (Inr x, w)"

definition throw :: "exn \<Rightarrow> ('x, 'a) act" where
  "throw e w = (Inl e, w)"

definition lift_res :: "'a res \<Rightarrow> ('x, 'a) act" where
  "lift_res r w = (r, w)"

definition bnd :: "('x, 'a) act \<Rightarrow> ('a \<Rightarrow> ('x, 'b) act) \<Rightarrow> ('x, 'b) act" where
  "bnd m f w = (case m w of (Inl e, w') \<Rightarrow> (Inl e, w') | (Inr x, w') \<Rightarrow> f x w')"

definition update :: "('x world_scheme \<Rightarrow> 'x world_scheme) \<Rightarrow> ('x, unit) act" where
  "update f w = (Inr (), f w)"

definition look :: "('x world_scheme \<Rightarrow> 'a) \<Rightarrow> ('x, 'a) act" where
  "look f w = (Inr (f w), w)"

definition attempt :: "('x, 'a) act \<Rightarrow> (exn \<Rightarrow> ('x, 'a) act) \<Rightarrow> ('x, 'a) act" where
  \<comment> \<open>\<open>try: m except ...: h\<close>; \<open>h\<close> re-raises what the clauses do not name\<close>
  "attempt m h w = (case m w of (Inl e, w') \<Rightarrow> if e = Diverged then (Inl e, w') else h e w'
     | (Inr x, w') \<Rightarrow> (Inr x, w'))"

definition finally_do :: "('x, 'a) act \<Rightarrow> ('x, unit) act \<Rightarrow> ('x, 'a) act" where
  "finally_do m f w = (case m w of (r, w') \<Rightarrow>
     if r = Inl Diverged then (r, w')
     else case f w' of (Inl e, w'') \<Rightarrow> (Inl e, w'') | (Inr _, w'') \<Rightarrow> (r, w''))"

definition ask :: "env \<Rightarrow> ecall \<Rightarrow> ('x, ans) act" where
  "ask ev c w = (Inr (reply ev (log w) c), w\<lparr>log := log w @ [c]\<rparr>)"

fun each :: "('a \<Rightarrow> ('x, unit) act) \<Rightarrow> 'a list \<Rightarrow> ('x, unit) act" where
  \<comment> \<open>a \<open>for\<close> loop\<close>
  "each f [] = ret ()"
| "each f (x # xs) = bnd (f x) (\<lambda>_. each f xs)"

text \<open>Readings of an answer; an exception is raised, a shape the client never returns is \<open>BadAnswer\<close>.\<close>

fun ans_unit :: "ans \<Rightarrow> unit res" where
  "ans_unit (ARaise e) = Inl e"
| "ans_unit a = Inr ()"

fun ans_text :: "ans \<Rightarrow> pytext option res" where
  "ans_text ANone = Inr None"
| "ans_text (AText t) = Inr (Some t)"
| "ans_text (ARaise e) = Inl e"
| "ans_text a = Inl BadAnswer"

fun ans_int :: "ans \<Rightarrow> int res" where
  "ans_int (AInt n) = Inr n"
| "ans_int (ARaise e) = Inl e"
| "ans_int a = Inl BadAnswer"

fun ans_fields :: "ans \<Rightarrow> fields res" where
  "ans_fields (AFields f) = Inr f"
| "ans_fields (ARaise e) = Inl e"
| "ans_fields a = Inl BadAnswer"

fun ans_msgs :: "ans \<Rightarrow> (string \<times> fields) list res" where
  "ans_msgs (AMsgs ms) = Inr ms"
| "ans_msgs ANone = Inr []"
| "ans_msgs (ARaise e) = Inl e"
| "ans_msgs a = Inl BadAnswer"

fun ans_rows :: "ans \<Rightarrow> json list list res" where
  "ans_rows (ARows rs) = Inr rs"
| "ans_rows (ARaise e) = Inl e"
| "ans_rows a = Inl BadAnswer"

fun ans_streams :: "ans \<Rightarrow> (string \<times> (string \<times> fields) list) list res" where
  "ans_streams (AStreams ss) = Inr ss"
| "ans_streams ANone = Inr []"
| "ans_streams (ARaise e) = Inl e"
| "ans_streams a = Inl BadAnswer"

fun ans_http :: "ans \<Rightarrow> (int \<times> (string \<times> string) list \<times> string) res" where
  \<comment> \<open>the headers are those of \<open>response.headers.items()\<close>\<close>
  "ans_http (AHttp status hs content) = Inr (status, hs, content)"
| "ans_http (ARaise e) = Inl e"
| "ans_http a = Inl BadAnswer"

fun ans_json :: "ans \<Rightarrow> json option res" where
  "ans_json ANone = Inr None"
| "ans_json (AJson v) = Inr (Some v)"
| "ans_json (ARaise e) = Inl e"
| "ans_json a = Inl BadAnswer"

definition call :: "env \<Rightarrow> (ans \<Rightarrow> 'a res) \<Rightarrow> ecall \<Rightarrow> ('x, 'a) act" where
  "call ev read c = bnd (ask ev c) (\<lambda>a. lift_res (read a))"

lemma ret_run [simp, run_simps]: "ret x w = (Inr x, w)"
  and throw_run [simp, run_simps]: "throw e w = (Inl e, w)"
  and lift_run [simp, run_simps]: "lift_res r w = (r, w)"
  and update_run [simp, run_simps]: "update f w = (Inr (), f w)"
  and look_run [simp, run_simps]: "look g w = (Inr (g w), w)"
  by (simp_all add: ret_def throw_def lift_res_def update_def look_def)

lemma call_run [run_simps]:
  "call ev read c w = (read (reply ev (log w) c), w\<lparr>log := log w @ [c]\<rparr>)"
  by (simp add: call_def bnd_def ask_def)

subsection \<open>Reasoning about actions\<close>

lemma bnd_cases:
  assumes "bnd m f w = (r, w')"
  obtains e where "m w = (Inl e, w')" "r = Inl e"
  | x v where "m w = (Inr x, v)" "f x v = (r, w')"
  using assms by (auto simp: bnd_def split: prod.splits sum.splits)

lemma bnd_Inr_iff:
  "bnd m f w = (Inr y, w') \<longleftrightarrow> (\<exists>x v. m w = (Inr x, v) \<and> f x v = (Inr y, w'))"
  by (auto simp: bnd_def split: prod.splits sum.splits)

lemma attempt_cases:
  assumes "attempt m h w = (r, w')"
  obtains x where "m w = (Inr x, w')" "r = Inr x"
  | "m w = (Inl Diverged, w')" "r = Inl Diverged"
  | e v where "m w = (Inl e, v)" "h e v = (r, w')"
  using assms by (auto simp: attempt_def split: prod.splits sum.splits if_splits)

lemma finally_cases:
  assumes "finally_do m f w = (r, w')"
  obtains "m w = (Inl Diverged, w')" "r = Inl Diverged"
  | s v r' where "m w = (s, v)" "f v = (r', w')" "r = (case r' of Inl e \<Rightarrow> Inl e | Inr u \<Rightarrow> s)"
  using assms by (fastforce simp: finally_do_def split: prod.splits sum.splits if_splits)

text \<open>An invariant kept by every run, and a relation between the states before and after it.\<close>

definition keeps :: "('x world_scheme \<Rightarrow> 'x world_scheme \<Rightarrow> bool) \<Rightarrow> ('x, 'a) act \<Rightarrow> bool" where
  "keeps R m \<longleftrightarrow> (\<forall>w r w'. m w = (r, w') \<longrightarrow> R w w')"

lemma keepsD: "keeps R m \<Longrightarrow> m w = (r, w') \<Longrightarrow> R w w'"
  by (simp add: keeps_def)

lemma keeps_if [intro!]: "(b \<Longrightarrow> keeps R m) \<Longrightarrow> (\<not> b \<Longrightarrow> keeps R n) \<Longrightarrow> keeps R (if b then m else n)"
  by simp

lemma keeps_option [intro!]:
  "keeps R m \<Longrightarrow> (\<And>x. v = Some x \<Longrightarrow> keeps R (f x)) \<Longrightarrow> keeps R (case v of None \<Rightarrow> m | Some x \<Rightarrow> f x)"
  by (cases v) simp_all

lemma keeps_prod [intro!]: "(\<And>a b. keeps R (f a b)) \<Longrightarrow> keeps R (case v of (a, b) \<Rightarrow> f a b)"
  by (cases v) simp

lemma keeps_list [intro!]:
  "keeps R m \<Longrightarrow> (\<And>x xs. keeps R (f x xs)) \<Longrightarrow> keeps R (case v of [] \<Rightarrow> m | x # xs \<Rightarrow> f x xs)"
  by (cases v) simp_all

locale run_relation =
  fixes R :: "'x world_scheme \<Rightarrow> 'x world_scheme \<Rightarrow> bool"
  assumes R_refl: "R w w" and R_trans: "R u v \<Longrightarrow> R v w \<Longrightarrow> R u w"
begin

lemma keeps_ret [intro!]: "keeps R (ret x)"
  by (simp add: keeps_def R_refl)

lemma keeps_throw [intro!]: "keeps R (throw e)"
  by (simp add: keeps_def R_refl)

lemma keeps_lift [intro!]: "keeps R (lift_res r)"
  by (simp add: keeps_def R_refl)

lemma keeps_look [intro!]: "keeps R (look f)"
  by (simp add: keeps_def R_refl)

lemma keeps_update: "(\<And>w. R w (f w)) \<Longrightarrow> keeps R (update f)"
  by (simp add: keeps_def)

lemma keeps_bnd [intro!]: "keeps R m \<Longrightarrow> (\<And>x. keeps R (f x)) \<Longrightarrow> keeps R (bnd m f)"
  unfolding keeps_def by (blast elim: bnd_cases intro: R_trans)

lemma keeps_attempt [intro!]: "keeps R m \<Longrightarrow> (\<And>e. keeps R (h e)) \<Longrightarrow> keeps R (attempt m h)"
  unfolding keeps_def by (blast elim: attempt_cases intro: R_trans)

lemma keeps_finally [intro!]: "keeps R m \<Longrightarrow> keeps R f \<Longrightarrow> keeps R (finally_do m f)"
  unfolding keeps_def by (blast elim: finally_cases intro: R_trans)

lemma keeps_each [intro!]: "(\<And>x. keeps R (f x)) \<Longrightarrow> keeps R (each f xs)"
  by (induction xs) auto

end

text \<open>
  A relation that holds across the allowed calls and sees neither the logging context nor the
  database connection.
\<close>

locale call_relation = run_relation R
  for R :: "'x world_scheme \<Rightarrow> 'x world_scheme \<Rightarrow> bool" +
  fixes allowed :: "ecall \<Rightarrow> bool"
  assumes R_call: "allowed c \<Longrightarrow> R w (w\<lparr>log := log w @ [c]\<rparr>)"
    and R_ctx: "R w (w\<lparr>ctx := x\<rparr>)"
    and R_conn: "R w (w\<lparr>conn := b\<rparr>)"
begin

lemma keeps_call [intro!]: "allowed c \<Longrightarrow> keeps R (call ev read c)"
  by (simp add: keeps_def call_run R_call)

lemma keeps_ask [intro!]: "allowed c \<Longrightarrow> keeps R (ask ev c)"
  by (simp add: keeps_def ask_def R_call)

end

subsection \<open>The logs that actions write\<close>

text \<open>
  \<open>calls P m\<close>: every call that a run of \<open>m\<close> makes satisfies \<open>P\<close>, and nothing is removed from
  the log.
\<close>

definition log_grows :: "(ecall \<Rightarrow> bool) \<Rightarrow> 'x world_scheme \<Rightarrow> 'x world_scheme \<Rightarrow> bool" where
  "log_grows P w w' \<longleftrightarrow> (\<exists>cs. log w' = log w @ cs \<and> (\<forall>c \<in> set cs. P c))"

interpretation lg: run_relation "log_grows P"
proof
  show "log_grows P w w" for w :: "'x world_scheme" by (simp add: log_grows_def)
  show "log_grows P u w" if "log_grows P u v" "log_grows P v w" for u v w :: "'x world_scheme"
    using that by (auto simp: log_grows_def)
qed

definition new_calls :: "'x world_scheme \<Rightarrow> 'x world_scheme \<Rightarrow> ecall list" where
  "new_calls w w' = drop (length (log w)) (log w')"

lemma log_grows_new_calls: "log_grows P w w' \<Longrightarrow> \<forall>c \<in> set (new_calls w w'). P c"
  by (auto simp: log_grows_def new_calls_def)

lemma log_grows_mono: "log_grows P w w' \<Longrightarrow> (\<And>c. P c \<Longrightarrow> Q c) \<Longrightarrow> log_grows Q w w'"
  by (auto simp: log_grows_def)

lemma keeps_log_call: "P c \<Longrightarrow> keeps (log_grows P) (call ev read c)"
  by (simp add: keeps_def call_run log_grows_def)

lemma keeps_log_update: "(\<And>w. log (f w) = log w) \<Longrightarrow> keeps (log_grows P) (update f)"
  by (rule lg.keeps_update) (simp add: log_grows_def)

subsection \<open>Correlation ids\<close>

definition new_correlation_id :: "env \<Rightarrow> ('x, pytext) act" where
  "new_correlation_id ev =
     bnd (call ev ans_text NewId) (\<lambda>t. case t of None \<Rightarrow> throw BadAnswer | Some t \<Rightarrow> ret t)"

definition payload_correlation :: "fields \<Rightarrow> pytext option" where
  "payload_correlation payload =
     (case dget payload ''correlation_id'' of
        Some t \<Rightarrow> if text_nonempty t then Some t else dget payload ''X-Correlation-Id''
      | None \<Rightarrow> dget payload ''X-Correlation-Id'')"

definition get_or_create_correlation_id :: "env \<Rightarrow> fields \<Rightarrow> ('x, pytext) act" where
  "get_or_create_correlation_id ev payload =
     (case payload_correlation payload of
        Some t \<Rightarrow> if text_nonempty t then ret t else new_correlation_id ev
      | None \<Rightarrow> new_correlation_id ev)"

definition bind_correlation_id :: "pytext \<Rightarrow> ('x, unit) act" where
  "bind_correlation_id c = update (\<lambda>w. w\<lparr>ctx := Some c\<rparr>)"

definition unbind_correlation_id :: "('x, unit) act" where
  "unbind_correlation_id = update (\<lambda>w. w\<lparr>ctx := None\<rparr>)"

definition stream_fields :: "env \<Rightarrow> json dict \<Rightarrow> pytext option \<Rightarrow> ('x, fields) act" where
  "stream_fields ev payload correlation_id =
     bnd (case correlation_id of
            Some c \<Rightarrow> if text_nonempty c then ret c else new_correlation_id ev
          | None \<Rightarrow> new_correlation_id ev)
       (\<lambda>cid. ret (dset (map (\<lambda>(k, v). (k, py_str v)) payload) ''correlation_id'' cid))"

subsection \<open>Consumers\<close>

fun starts_with :: "string \<Rightarrow> string \<Rightarrow> bool" where
  "starts_with [] s = True"
| "starts_with (c # cs) [] = False"
| "starts_with (c # cs) (d # ds) = (c = d \<and> starts_with cs ds)"

fun contains :: "string \<Rightarrow> string \<Rightarrow> bool" where
  "contains sub [] = (sub = [])"
| "contains sub (c # cs) = (starts_with sub (c # cs) \<or> contains sub cs)"

fun error_text :: "exn \<Rightarrow> string" where
  "error_text (ResponseError m) = m"
| "error_text e = []"

definition ensure_group :: "env \<Rightarrow> string \<Rightarrow> string \<Rightarrow> ('x, unit) act" where
  "ensure_group ev stream grp =
     attempt (call ev ans_unit (XGroupCreate stream grp))
       (\<lambda>e. if is_response_error e \<and> contains ''BUSYGROUP'' (error_text e) then ret () else throw e)"

definition read_group :: "env \<Rightarrow> string \<Rightarrow> string \<Rightarrow> ('x, (string \<times> fields) list option) act" where
  "read_group ev stream grp =
     attempt (bnd (call ev ans_msgs (XReadGroup stream grp)) (\<lambda>ms. ret (Some ms)))
       (\<lambda>e. if is_response_error e \<and> contains ''NOGROUP'' (error_text e)
            then bnd (ensure_group ev stream grp) (\<lambda>_. ret None)
            else if is_exception e
            then bnd (call ev ans_unit (SleepFor (mk 2))) (\<lambda>_. ret None)
            else throw e)"

definition drain_stream ::
  "env \<Rightarrow> string \<Rightarrow> string \<Rightarrow> (string \<Rightarrow> fields \<Rightarrow> ('x, unit) act) \<Rightarrow> ('x, nat) act" where
  "drain_stream ev stream grp handle =
     bnd (read_group ev stream grp) (\<lambda>response.
       case response of
         None \<Rightarrow> ret 0
       | Some ms \<Rightarrow>
           bnd (each (\<lambda>(mid, fs).
                  bnd (handle mid fs) (\<lambda>_. call ev ans_unit (XAck stream grp mid))) ms)
             (\<lambda>_. ret (length ms)))"

definition consumer_run_once ::
  "env \<Rightarrow> string \<Rightarrow> string \<Rightarrow> (string \<Rightarrow> fields \<Rightarrow> ('x, unit) act) \<Rightarrow> ('x, nat) act" where
  "consumer_run_once ev stream grp handle =
     bnd (ensure_group ev stream grp) (\<lambda>_. drain_stream ev stream grp handle)"

text \<open>The first \<open>n\<close> rounds of \<open>run_forever\<close>.\<close>

fun consumer_rounds ::
  "env \<Rightarrow> f64 \<Rightarrow> ('x, nat) act \<Rightarrow> nat \<Rightarrow> ('x, unit) act" where
  "consumer_rounds ev poll drain 0 = ret ()"
| "consumer_rounds ev poll drain (Suc n) =
     bnd drain (\<lambda>processed.
     bnd (if processed = 0 then call ev ans_unit (SleepFor poll) else ret ()) (\<lambda>_.
     consumer_rounds ev poll drain n))"

definition consumer_run_forever ::
  "env \<Rightarrow> string \<Rightarrow> string \<Rightarrow> f64 \<Rightarrow> (string \<Rightarrow> fields \<Rightarrow> ('x, unit) act) \<Rightarrow> nat \<Rightarrow> ('x, unit) act" where
  "consumer_run_forever ev stream grp poll handle n =
     bnd (ensure_group ev stream grp) (\<lambda>_.
       consumer_rounds ev poll (drain_stream ev stream grp handle) n)"

text \<open>\<open>bind_correlation_id(...); try: body finally: unbind_correlation_id()\<close>\<close>

definition with_correlation :: "env \<Rightarrow> fields \<Rightarrow> (pytext \<Rightarrow> ('x, unit) act) \<Rightarrow> ('x, unit) act \<Rightarrow> ('x, unit) act" where
  "with_correlation ev payload body last_do =
     bnd (get_or_create_correlation_id ev payload) (\<lambda>cid.
     bnd (bind_correlation_id cid) (\<lambda>_.
       finally_do (body cid) (bnd last_do (\<lambda>_. unbind_correlation_id))))"

text \<open>The body runs from the same state, but for the bound id and the call that may mint it.\<close>

lemma with_correlation_cases:
  assumes "with_correlation ev payload body last_do w = (r, w')"
  obtains e where "get_or_create_correlation_id ev payload w = (Inl e, w')" "r = Inl e"
  | cid l s v where "body cid (w\<lparr>log := log w @ l, ctx := Some cid\<rparr>) = (s, v)" "l = [] \<or> l = [NewId]"
      "finally_do (\<lambda>_. (s, v)) (bnd last_do (\<lambda>_. unbind_correlation_id)) v = (r, w')"
proof -
  from assms [unfolded with_correlation_def] show ?thesis
  proof (cases rule: bnd_cases)
    case (1 e)
    then show ?thesis by (rule that(1))
  next
    case (2 cid v)
    then have "v = w\<lparr>log := log w @ []\<rparr> \<or> v = w\<lparr>log := log w @ [NewId]\<rparr>"
      by (auto simp: get_or_create_correlation_id_def new_correlation_id_def bnd_Inr_iff call_run
          split: option.splits if_splits)
    then obtain l where l: "v = w\<lparr>log := log w @ l\<rparr>" "l = [] \<or> l = [NewId]" by blast
    obtain s u where s: "body cid (v\<lparr>ctx := Some cid\<rparr>) = (s, u)" by (metis surj_pair)
    have "finally_do (\<lambda>_. (s, u)) (bnd last_do (\<lambda>_. unbind_correlation_id)) u = (r, w')"
      using 2(2) s by (simp add: bnd_def bind_correlation_id_def finally_do_def)
    then show ?thesis using that(2) [of cid l s u] s l by simp
  qed
qed

subsection \<open>Decoding of text\<close>

record codec =
  cd_json :: "pytext \<Rightarrow> json res"        \<comment> \<open>\<open>json.loads\<close> of a text that is no \<open>json.dumps\<close> output\<close>
  cd_float :: "pytext \<Rightarrow> f64 res"        \<comment> \<open>\<open>float(s)\<close> of a text that is no \<open>str(x)\<close>\<close>
  cd_int :: "pytext \<Rightarrow> int res"
  cd_signal :: "json \<Rightarrow> signal res"      \<comment> \<open>\<open>Signal.model_validate\<close>\<close>
  cd_order :: "json \<Rightarrow> order res"        \<comment> \<open>\<open>OrderRequest.model_validate\<close>\<close>

fun json_loads :: "codec \<Rightarrow> pytext \<Rightarrow> json res" where
  "json_loads cd (TJson v) = Inr v"
| "json_loads cd t = cd_json cd t"

fun float_of_text :: "codec \<Rightarrow> pytext \<Rightarrow> f64 res" where
  "float_of_text cd (TFlt x) = Inr x"
| "float_of_text cd t = cd_float cd t"

fun int_of_text :: "codec \<Rightarrow> pytext \<Rightarrow> int res" where
  "int_of_text cd (TInt n) = Inr n"
| "int_of_text cd t = cd_int cd t"

fun json_float :: "codec \<Rightarrow> json \<Rightarrow> f64 res" where
  \<comment> \<open>\<open>float(v)\<close>\<close>
  "json_float cd (JNum x) = Inr x"
| "json_float cd (JInt n) = float_of_int n"
| "json_float cd (JBool b) = Inr (if b then 1 else 0)"
| "json_float cd (JStr t) = float_of_text cd t"
| "json_float cd v = Inl (TypeError ''float() argument must be a string or a real number'')"

fun json_int :: "codec \<Rightarrow> json \<Rightarrow> int res" where
  \<comment> \<open>\<open>int(v)\<close>\<close>
  "json_int cd (JInt n) = Inr n"
| "json_int cd (JNum (Fin x)) = Inr (if 0 \<le> x then \<lfloor>x\<rfloor> else \<lceil>x\<rceil>)"
| "json_int cd (JNum NaN) = Inl (ValueError ''cannot convert float NaN to integer'')"
| "json_int cd (JNum v) = Inl OverflowError"
| "json_int cd (JBool b) = Inr (of_bool b)"
| "json_int cd (JStr t) = int_of_text cd t"
| "json_int cd v = Inl (TypeError ''int() argument must be a string or a real number'')"

fun json_item :: "json \<Rightarrow> string \<Rightarrow> json res" where
  \<comment> \<open>\<open>v[k]\<close> with a string key\<close>
  "json_item (JObj d) k = getitem d k"
| "json_item v k = Inl (TypeError ''not subscriptable by a string'')"

subsection \<open>Relations kept by the shared combinators\<close>

context call_relation begin

lemma keeps_new_correlation [intro!]: "allowed NewId \<Longrightarrow> keeps R (new_correlation_id ev)"
  unfolding new_correlation_id_def by auto

lemma keeps_get_or_create [intro!]: "allowed NewId \<Longrightarrow> keeps R (get_or_create_correlation_id ev payload)"
  unfolding get_or_create_correlation_id_def by auto

lemma keeps_bind_ctx [intro!]: "keeps R (bind_correlation_id c)"
  unfolding bind_correlation_id_def by (rule keeps_update) (rule R_ctx)

lemma keeps_unbind_ctx [intro!]: "keeps R unbind_correlation_id"
  unfolding unbind_correlation_id_def by (rule keeps_update) (rule R_ctx)

lemma keeps_stream_fields [intro!]: "allowed NewId \<Longrightarrow> keeps R (stream_fields ev payload c)"
  unfolding stream_fields_def by auto

lemma keeps_ensure_group [intro!]:
  "allowed (XGroupCreate stream grp) \<Longrightarrow> keeps R (ensure_group ev stream grp)"
  unfolding ensure_group_def by auto

lemma keeps_read_group [intro!]:
  "allowed (XGroupCreate stream grp) \<Longrightarrow> allowed (XReadGroup stream grp) \<Longrightarrow>
     (\<And>t. allowed (SleepFor t)) \<Longrightarrow> keeps R (read_group ev stream grp)"
  unfolding read_group_def by auto

lemma keeps_drain [intro!]:
  assumes "allowed (XGroupCreate stream grp)" "allowed (XReadGroup stream grp)"
    "\<And>t. allowed (SleepFor t)" "\<And>i. allowed (XAck stream grp i)" "\<And>i fs. keeps R (handle i fs)"
  shows "keeps R (drain_stream ev stream grp handle)"
  unfolding drain_stream_def using assms by auto

lemma keeps_with_correlation [intro!]:
  "allowed NewId \<Longrightarrow> (\<And>c. keeps R (body c)) \<Longrightarrow> keeps R last_do \<Longrightarrow>
     keeps R (with_correlation ev payload body last_do)"
  unfolding with_correlation_def by auto

end

interpretation lgc: call_relation "log_grows P" P
  by unfold_locales (auto simp: log_grows_def)

subsection \<open>Stream entries and acknowledgements in a log\<close>

fun is_xadd :: "ecall \<Rightarrow> bool" where
  "is_xadd (XAdd s fs) = True"
| "is_xadd c = False"

fun is_ack :: "ecall \<Rightarrow> bool" where
  "is_ack (XAck s g i) = True"
| "is_ack c = False"

definition xadds :: "ecall list \<Rightarrow> ecall list" where
  "xadds cs = filter is_xadd cs"

definition acks :: "ecall list \<Rightarrow> ecall list" where
  "acks cs = filter is_ack cs"

lemma xadds_simps [simp]:
  "xadds [] = []" "xadds (a @ b) = xadds a @ xadds b"
  "xadds (c # cs) = (if is_xadd c then c # xadds cs else xadds cs)"
  "acks [] = []" "acks (a @ b) = acks a @ acks b"
  "acks (c # cs) = (if is_ack c then c # acks cs else acks cs)"
  by (simp_all add: xadds_def acks_def)

lemma silent_log:
  assumes "keeps (log_grows (\<lambda>c. \<not> is_xadd c)) m" "m w = (r, w')"
  shows "xadds (log w') = xadds (log w)"
proof -
  obtain cs where "log w' = log w @ cs" "\<forall>c \<in> set cs. \<not> is_xadd c"
    using keepsD [OF assms] unfolding log_grows_def by blast
  then show ?thesis by (simp add: xadds_def)
qed

lemma ackless_log:
  assumes "keeps (log_grows (\<lambda>c. \<not> is_ack c)) m" "m w = (r, w')"
  shows "acks (log w') = acks (log w)"
proof -
  obtain cs where "log w' = log w @ cs" "\<forall>c \<in> set cs. \<not> is_ack c"
    using keepsD [OF assms] unfolding log_grows_def by blast
  then show ?thesis by (simp add: acks_def)
qed

lemma stream_fields_silent:
  "stream_fields ev payload c w = (r, w') \<Longrightarrow> xadds (log w') = xadds (log w)"
  by (rule silent_log [of "stream_fields ev payload c"]) auto

lemma stream_fields_value:
  "stream_fields ev payload c w = (Inr fs, w') \<Longrightarrow>
     \<exists>cid. fs = dset (map (\<lambda>(k, v). (k, py_str v)) payload) ''correlation_id'' cid"
  unfolding stream_fields_def by (auto simp: bnd_Inr_iff)

text \<open>A call that the first part of a run cannot make is made by the rest.\<close>

lemma bnd_emits:
  assumes "bnd m f w = (r, w')" "c \<in> set (new_calls w w')"
    and "keeps (log_grows (\<lambda>c. \<not> P c)) m" "P c" "\<And>x. keeps (log_grows (\<lambda>c. True)) (f x)"
  obtains x v where "m w = (Inr x, v)" "f x v = (r, w')" "c \<in> set (new_calls v w')"
  using assms(1)
proof (cases rule: bnd_cases)
  case (1 e)
  then show ?thesis using keepsD [OF assms(3) 1(1)] assms(2,4) log_grows_new_calls by fastforce
next
  case (2 x v)
  obtain a where a: "log v = log w @ a" "\<forall>c \<in> set a. \<not> P c"
    using keepsD [OF assms(3) 2(1)] unfolding log_grows_def by blast
  obtain b where "log w' = log v @ b"
    using keepsD [OF assms(5) 2(2)] unfolding log_grows_def by blast
  then have "c \<in> set (new_calls v w')" using assms(2,4) a by (auto simp: new_calls_def)
  with 2 that show ?thesis by blast
qed

lemma finally_unbind_log:
  assumes "finally_do (\<lambda>_. (s, v)) (bnd (update f) (\<lambda>_. unbind_correlation_id)) v = (r, w')"
    and "\<And>w. log (f w) = log w"
  shows "log w' = log v"
  using assms by (auto simp: finally_do_def bnd_def unbind_correlation_id_def split: if_splits)

lemma with_correlation_emits:
  fixes w :: "'x world_scheme"
  assumes "with_correlation ev payload body last_do w = (r, w')" "XAdd s fs \<in> set (new_calls w w')"
    and "\<And>cid. keeps (log_grows (\<lambda>c. True)) (body cid)" "keeps (log_grows (\<lambda>c. False)) last_do"
  obtains cid l q and v :: "'x world_scheme" where
    "body cid (w\<lparr>log := log w @ l, ctx := Some cid\<rparr>) = (q, v)" "l = [] \<or> l = [NewId]" "log w' = log v"
    "XAdd s fs \<in> set (new_calls (w\<lparr>log := log w @ l, ctx := Some cid\<rparr>) v)"
  using assms(1)
proof (cases rule: with_correlation_cases)
  case (1 e)
  have "keeps (log_grows (\<lambda>c. \<not> is_xadd c)) (get_or_create_correlation_id ev payload)"
    by auto
  then have "log_grows (\<lambda>c. \<not> is_xadd c) w w'" by (rule keepsD) (rule 1(1))
  then show ?thesis using assms(2) log_grows_new_calls by fastforce
next
  case (2 cid l q v)
  have "keeps (log_grows (\<lambda>c. False)) (bnd last_do (\<lambda>_. unbind_correlation_id))"
    using assms(4) by (auto intro!: lgc.keeps_unbind_ctx lg.keeps_bnd)
  moreover have "keeps (log_grows (\<lambda>c. False)) (\<lambda>x. if x = v then (q, v) else (q, x))"
    by (simp add: keeps_def log_grows_def)
  ultimately have "log_grows (\<lambda>c. False) v w'"
    using 2(3) by (auto simp: finally_do_def log_grows_def split: prod.splits sum.splits if_splits
        dest: keepsD)
  then have lg: "log w' = log v" by (simp add: log_grows_def)
  let ?u = "w\<lparr>log := log w @ l, ctx := Some cid\<rparr>"
  obtain b where "log v = log ?u @ b"
    using keepsD [OF assms(3) 2(1)] unfolding log_grows_def by blast
  then have "XAdd s fs \<in> set (new_calls ?u v)"
    using assms(2) lg 2(2) by (auto simp: new_calls_def)
  with 2 lg that show ?thesis by blast
qed

text \<open>A drained batch is acknowledged message by message.\<close>

lemma each_acks:
  fixes handle :: "string \<Rightarrow> fields \<Rightarrow> ('x, unit) act"
  assumes "\<And>i fs. keeps (log_grows (\<lambda>c. \<not> is_ack c)) (handle i fs)"
    and "each (\<lambda>(i, fs). bnd (handle i fs) (\<lambda>_. call ev ans_unit (XAck st g i))) ms w = (Inr (), w')"
  shows "acks (log w') = acks (log w) @ map (\<lambda>(i, fs). XAck st g i) ms"
  using assms(2)
proof (induction ms arbitrary: w)
  case (Cons m ms)
  obtain i fs where m: "m = (i, fs)" by (cases m)
  obtain u v where h: "handle i fs w = (Inr (), u)" and v: "call ev ans_unit (XAck st g i) u = (Inr (), v)"
    and rest: "each (\<lambda>(i, fs). bnd (handle i fs) (\<lambda>_. call ev ans_unit (XAck st g i))) ms v = (Inr (), w')"
    using Cons.prems by (auto simp: m bnd_Inr_iff)
  show ?case using ackless_log [OF assms(1) h] v Cons.IH [OF rest] by (auto simp: m call_run)
qed simp

lemma drain_acks:
  fixes handle :: "string \<Rightarrow> fields \<Rightarrow> ('x, unit) act"
  assumes "\<And>i fs. keeps (log_grows (\<lambda>c. \<not> is_ack c)) (handle i fs)"
    and "drain_stream ev st g handle w = (Inr n, w')"
  shows "\<exists>ms :: (string \<times> fields) list. length ms = n \<and> acks (log w') = acks (log w) @ map (\<lambda>(i, fs). XAck st g i) ms"
proof -
  obtain rsp v where rd: "read_group ev st g w = (Inr rsp, v)"
    and rest: "(case rsp of None \<Rightarrow> ret 0 | Some ms \<Rightarrow>
       bnd (each (\<lambda>(mid, fs). bnd (handle mid fs) (\<lambda>_. call ev ans_unit (XAck st g mid))) ms)
         (\<lambda>_. ret (length ms))) v = (Inr n, w')"
    using assms(2) unfolding drain_stream_def bnd_Inr_iff by blast
  have "keeps (log_grows (\<lambda>c. \<not> is_ack c)) (read_group ev st g)" by auto
  then have "acks (log v) = acks (log w)" by (rule ackless_log) (rule rd)
  then show ?thesis
  proof (cases rsp)
    case None
    then show ?thesis using rest \<open>acks (log v) = acks (log w)\<close> by (intro exI [of _ "[]"]) simp
  next
    case (Some ms)
    then have e: "each (\<lambda>(mid, fs). bnd (handle mid fs) (\<lambda>_. call ev ans_unit (XAck st g mid))) ms v = (Inr (), w')"
      and n: "n = length ms"
      using rest by (auto simp: bnd_Inr_iff)
    have "acks (log w') = acks (log v) @ map (\<lambda>(i, fs). XAck st g i) ms"
      by (rule each_acks [where handle = handle, OF _ e]) (rule assms(1))
    then show ?thesis using n \<open>acks (log v) = acks (log w)\<close> by (intro exI [of _ ms]) simp
  qed
qed

text \<open>A batch is drained to its end when every handler run returns and keeps what the next needs.\<close>

lemma each_returns:
  fixes handle :: "string \<Rightarrow> fields \<Rightarrow> ('x, unit) act"
  assumes "\<And>i fs w. (i, fs) \<in> set ms \<Longrightarrow> I w \<Longrightarrow>
      \<exists>w'. bnd (handle i fs) (\<lambda>_. call ev ans_unit (XAck st g i)) w = (Inr (), w') \<and> I w'"
    and "I w"
  shows "\<exists>w'. each (\<lambda>(i, fs). bnd (handle i fs) (\<lambda>_. call ev ans_unit (XAck st g i))) ms w = (Inr (), w') \<and> I w'"
  using assms
proof (induction ms arbitrary: w)
  case (Cons m ms)
  obtain i fs where m: "m = (i, fs)" by (cases m)
  from Cons.prems(1) [of i fs w] Cons.prems(2) obtain v where
    "bnd (handle i fs) (\<lambda>_. call ev ans_unit (XAck st g i)) w = (Inr (), v)" "I v"
    by (auto simp: m)
  moreover from this Cons.IH [of v] Cons.prems(1) obtain w' where
    "each (\<lambda>(i, fs). bnd (handle i fs) (\<lambda>_. call ev ans_unit (XAck st g i))) ms v = (Inr (), w')" "I w'"
    by auto
  ultimately show ?case by (auto simp: m bnd_Inr_iff)
qed simp

end
