(* ===== verification/Rows.thy ===== *)
theory Rows
  imports Bus
begin

text \<open>
  Reading database rows and decoded JSON, as several services do it: columns by position, floats
  and timestamps from columns, \<open>dict(zip(keys, row, strict=True))\<close> and \<open>v.get(k)\<close>.
\<close>

definition row_item :: "json list \<Rightarrow> nat \<Rightarrow> json res" where
  "row_item row i = (if i < length row then Inr (row ! i) else Inl IndexError)"

definition row_float :: "codec \<Rightarrow> json list \<Rightarrow> nat \<Rightarrow> f64 res" where
  "row_float cd row i = res_bind (row_item row i) (json_float cd)"

fun json_ts :: "json \<Rightarrow> int res" where
  \<comment> \<open>a \<open>timestamptz\<close> column\<close>
  "json_ts (JInt t) = Inr t"
| "json_ts v = Inl BadAnswer"

definition zip_strict :: "string list \<Rightarrow> json list \<Rightarrow> json dict res" where
  \<comment> \<open>\<open>dict(zip(keys, row, strict=True))\<close>\<close>
  "zip_strict keys row =
     (if length keys = length row then Inr (zip keys row)
      else Inl (ValueError ''zip() arguments differ in length''))"

fun json_get :: "json \<Rightarrow> string \<Rightarrow> json option res" where
  \<comment> \<open>\<open>v.get(k)\<close>\<close>
  "json_get (JObj d) k = Inr (dget d k)"
| "json_get v k = Inl (AttributeError ''get'')"

definition neg_slice :: "int \<Rightarrow> 'a list \<Rightarrow> 'a list" where
  \<comment> \<open>\<open>xs[-u:]\<close>\<close>
  "neg_slice u xs = (if 0 < u then drop (nat (int (length xs) - u)) xs else drop (nat (- u)) xs)"

definition strict_codec :: codec where
  \<comment> \<open>reads only what \<open>json.dumps\<close> and \<open>str\<close> have written\<close>
  "strict_codec = \<lparr>cd_json = (\<lambda>t. Inl JSONDecodeError), cd_float = (\<lambda>t. Inl (ValueError ''float'')),
     cd_int = (\<lambda>t. Inl (ValueError ''int'')), cd_signal = (\<lambda>v. Inl (ValueError ''signal'')),
     cd_order = (\<lambda>v. Inl (ValueError ''order''))\<rparr>"

end
