(* ===== verification/Exposure.thy ===== *)
theory Exposure
  imports Rows
begin

text \<open>
  \<open>services/risk-service/app/exposure.py\<close>: the registry of open risk positions, a local
  dictionary mirrored in a Redis hash, and the two exposure limits. The hash that a log of
  calls leaves behind is \<open>registry\<close>; it is the abstract state that the tracker implements.
\<close>

subsection \<open>Positions\<close>

record position =
  p_key :: pytext
  p_signal :: pytext
  p_symbol :: pytext
  p_direction :: direction
  p_lots :: f64
  p_entry :: f64
  p_sl :: f64
  p_risk :: f64
  p_opened :: pytext

definition position_json :: "position \<Rightarrow> json dict" where
  "position_json p = [
     (''idempotency_key'', JStr (p_key p)),
     (''signal_id'', JStr (p_signal p)),
     (''symbol'', JStr (p_symbol p)),
     (''direction'', JStr (T (direction_value (p_direction p)))),
     (''lots'', JNum (p_lots p)),
     (''entry'', JNum (p_entry p)),
     (''sl'', JNum (p_sl p)),
     (''risk_amount'', JNum (p_risk p)),
     (''opened_ts'', JStr (p_opened p))]"

definition position_to_json :: "position \<Rightarrow> pytext" where
  "position_to_json p = TJson (JObj (position_json p))"

fun direction_of_text :: "pytext \<Rightarrow> direction res" where
  \<comment> \<open>\<open>Direction(s)\<close>; only literal texts name a direction\<close>
  "direction_of_text (T s) = direction_of_value s"
| "direction_of_text t = Inl (ValueError ''Direction'')"

definition position_from_json :: "codec \<Rightarrow> pytext \<Rightarrow> position res" where
  "position_from_json cd raw =
     res_bind (json_loads cd raw) (\<lambda>data.
     res_bind (json_item data ''idempotency_key'') (\<lambda>key.
     res_bind (json_item data ''signal_id'') (\<lambda>sid.
     res_bind (json_item data ''symbol'') (\<lambda>symb.
     res_bind (res_bind (json_item data ''direction'') (\<lambda>v. direction_of_text (py_str v))) (\<lambda>d.
     res_bind (res_bind (json_item data ''lots'') (json_float cd)) (\<lambda>lots.
     res_bind (res_bind (json_item data ''entry'') (json_float cd)) (\<lambda>entry.
     res_bind (res_bind (json_item data ''sl'') (json_float cd)) (\<lambda>sl.
     res_bind (res_bind (json_item data ''risk_amount'') (json_float cd)) (\<lambda>risk.
     res_bind (json_item data ''opened_ts'') (\<lambda>opened.
     Inr \<lparr>p_key = py_str key, p_signal = py_str sid, p_symbol = py_str symb, p_direction = d,
          p_lots = lots, p_entry = entry, p_sl = sl, p_risk = risk, p_opened = py_str opened\<rparr>))))))))))"

subsection \<open>The tracker\<close>

definition open_key :: string where "open_key = ''risk:open_positions''"

record tracker =
  tk_redis :: bool               \<comment> \<open>a Redis client was given\<close>
  tk_max_trades :: int
  tk_max_risk_pct :: f64
  tk_codec :: codec

record risk_world = world +
  local_positions :: "position dict"
  rk_processed :: nat
  rk_approved :: nat
  rk_rejected :: nat

type_synonym ('x, 'a) risk_act = "('x risk_world_ext, 'a) act"

definition open_count :: "'x risk_world_scheme \<Rightarrow> nat" where
  "open_count w = length (local_positions w)"

definition total_open_risk :: "'x risk_world_scheme \<Rightarrow> f64" where
  "total_open_risk w = py_sum (map (\<lambda>(k, p). p_risk p) (local_positions w))"

definition decode_positions :: "codec \<Rightarrow> fields \<Rightarrow> position dict res" where
  "decode_positions cd raw =
     res_map (\<lambda>(k, v). res_bind (position_from_json cd v) (\<lambda>p. Inr (k, p))) raw"

definition refresh :: "env \<Rightarrow> tracker \<Rightarrow> ('x, unit) risk_act" where
  "refresh ev tk =
     (if \<not> tk_redis tk then ret ()
      else bnd (call ev ans_fields (RedisHGetAll open_key)) (\<lambda>raw.
           bnd (lift_res (decode_positions (tk_codec tk) raw)) (\<lambda>ps.
           update (\<lambda>w. w\<lparr>local_positions := ps\<rparr>))))"

definition exposure_verdict :: "tracker \<Rightarrow> f64 \<Rightarrow> 'x risk_world_scheme \<Rightarrow> rejection_reason option res" where
  \<comment> \<open>the limits of \<open>preflight\<close> after the refresh; \<open>None\<close> is \<open>(True, None)\<close>\<close>
  "exposure_verdict tk balance w =
     (if tk_max_trades tk \<le> int (open_count w) then Inr (Some MAX_OPEN_TRADES_REACHED)
      else res_bind (if 0 < balance
                     then res_bind (py_div (total_open_risk w) balance) (\<lambda>x. Inr (x * mk 100))
                     else Inr 0) (\<lambda>total_risk_pct.
           if tk_max_risk_pct tk \<le> total_risk_pct then Inr (Some MAX_TOTAL_RISK_EXCEEDED)
           else Inr None))"

definition preflight :: "env \<Rightarrow> tracker \<Rightarrow> f64 \<Rightarrow> ('x, rejection_reason option) risk_act" where
  "preflight ev tk balance =
     bnd (refresh ev tk) (\<lambda>_.
     bnd (look (exposure_verdict tk balance)) lift_res)"

definition register :: "env \<Rightarrow> tracker \<Rightarrow> string \<Rightarrow> position \<Rightarrow> ('x, unit) risk_act" where
  \<comment> \<open>the key is \<open>position.idempotency_key\<close>\<close>
  "register ev tk key p =
     bnd (update (\<lambda>w. w\<lparr>local_positions := dset (local_positions w) key p\<rparr>)) (\<lambda>_.
     if tk_redis tk then call ev ans_unit (RedisHSet open_key key (position_to_json p)) else ret ())"

definition release :: "env \<Rightarrow> tracker \<Rightarrow> string \<Rightarrow> ('x, bool) risk_act" where
  "release ev tk key =
     bnd (look (\<lambda>w. dhas (local_positions w) key)) (\<lambda>removed.
     bnd (update (\<lambda>w. w\<lparr>local_positions := ddel (local_positions w) key\<rparr>)) (\<lambda>_.
     bnd (if tk_redis tk then call ev ans_unit (RedisHDel open_key key) else ret ()) (\<lambda>_.
     ret removed)))"

subsection \<open>The codec round trip\<close>

lemma position_json_roundtrip [simp]: "position_from_json cd (position_to_json p) = Inr p"
  by (simp add: position_from_json_def position_to_json_def position_json_def getitem_def)

lemma decode_encoded [simp]:
  "decode_positions cd (map (\<lambda>(k, p). (k, position_to_json p)) ps) = Inr ps"
proof -
  have "res_map (\<lambda>(k, v). res_bind (position_from_json cd v) (\<lambda>p. Inr (k, p)))
      (map (\<lambda>(k, p). (k, position_to_json p)) ps) = Inr ps"
    by (induction ps) auto
  then show ?thesis by (simp add: decode_positions_def)
qed

subsection \<open>The hash that a log leaves behind\<close>

text \<open>
  \<open>HSET\<close> and \<open>HDEL\<close> take effect unless they raise. \<open>own_registry\<close>: nobody else writes the
  hash, so that \<open>HGETALL\<close>, when it answers, answers with what this log has written.
\<close>

definition took_effect :: "env \<Rightarrow> ecall list \<Rightarrow> ecall \<Rightarrow> bool" where
  "took_effect ev l c \<longleftrightarrow> (case reply ev l c of ARaise e \<Rightarrow> False | _ \<Rightarrow> True)"

fun hash_step :: "env \<Rightarrow> ecall list \<Rightarrow> ecall \<Rightarrow> fields \<Rightarrow> fields" where
  "hash_step ev l (RedisHSet h k v) d =
     (if h = open_key \<and> took_effect ev l (RedisHSet h k v) then dset d k v else d)"
| "hash_step ev l (RedisHDel h k) d =
     (if h = open_key \<and> took_effect ev l (RedisHDel h k) then ddel d k else d)"
| "hash_step ev l c d = d"

fun hash_run :: "env \<Rightarrow> ecall list \<Rightarrow> ecall list \<Rightarrow> fields \<Rightarrow> fields" where
  "hash_run ev l [] d = d"
| "hash_run ev l (c # cs) d = hash_run ev (l @ [c]) cs (hash_step ev l c d)"

definition registry :: "env \<Rightarrow> ecall list \<Rightarrow> fields" where
  "registry ev l = hash_run ev [] l []"

lemma hash_run_snoc: "hash_run ev l (cs @ [c]) d = hash_step ev (l @ cs) c (hash_run ev l cs d)"
  by (induction cs arbitrary: l d) auto

lemma registry_snoc [simp]: "registry ev (l @ [c]) = hash_step ev l c (registry ev l)"
  by (simp add: registry_def hash_run_snoc)

lemma registry_Nil [simp]: "registry ev [] = []"
  by (simp add: registry_def)

fun writes_registry :: "ecall \<Rightarrow> bool" where
  "writes_registry (RedisHSet h k v) = (h = open_key)"
| "writes_registry (RedisHDel h k) = (h = open_key)"
| "writes_registry c = False"

lemma hash_step_other [simp]: "\<not> writes_registry c \<Longrightarrow> hash_step ev l c d = d"
  by (cases c) auto

lemma registry_append_other:
  "\<forall>c \<in> set cs. \<not> writes_registry c \<Longrightarrow> registry ev (l @ cs) = registry ev l"
  by (induction cs rule: rev_induct) (auto simp flip: append_assoc)

definition own_registry :: "env \<Rightarrow> bool" where
  "own_registry ev \<longleftrightarrow> (\<forall>l. case reply ev l (RedisHGetAll open_key) of
     AFields fs \<Rightarrow> fs = registry ev l | ARaise e \<Rightarrow> True | _ \<Rightarrow> False)"

text \<open>The abstract registry: which positions are open, as a map.\<close>

definition registered :: "env \<Rightarrow> ecall list \<Rightarrow> position dict \<Rightarrow> bool" where
  "registered ev l ps \<longleftrightarrow> registry ev l = map (\<lambda>(k, p). (k, position_to_json p)) ps"

lemma dset_encoded:
  "dset (map (\<lambda>(k, p). (k, position_to_json p)) ps) key (position_to_json q) =
     map (\<lambda>(k, p). (k, position_to_json p)) (dset ps key q)"
  by (induction ps) auto

lemma ddel_encoded:
  "ddel (map (\<lambda>(k, p). (k, position_to_json p)) ps) key =
     map (\<lambda>(k, p). (k, position_to_json p)) (ddel ps key)"
  by (induction ps) auto

lemma refresh_registered:
  assumes "own_registry ev" "tk_redis tk" "registered ev (log w) ps"
    and "refresh ev tk w = (Inr (), w')"
  shows "local_positions w' = ps" "log w' = log w @ [RedisHGetAll open_key]"
proof -
  have "case reply ev (log w) (RedisHGetAll open_key) of
      AFields fs \<Rightarrow> fs = registry ev (log w) | ARaise e \<Rightarrow> True | _ \<Rightarrow> False"
    using assms(1) unfolding own_registry_def by blast
  moreover have "decode_positions (tk_codec tk) (registry ev (log w)) = Inr ps"
    using assms(3) by (simp add: registered_def)
  ultimately show "local_positions w' = ps" "log w' = log w @ [RedisHGetAll open_key]"
    using assms(2,4) by (auto simp: refresh_def bnd_Inr_iff call_run split: ans.splits)
qed

text \<open>Which of the tracker's calls write the hash.\<close>

lemma keeps_refresh [intro!]: "keeps (log_grows (\<lambda>c. \<not> writes_registry c)) (refresh ev tk)"
  unfolding refresh_def by (auto intro!: keeps_log_call keeps_log_update)

lemma keeps_preflight [intro!]: "keeps (log_grows (\<lambda>c. \<not> writes_registry c)) (preflight ev tk b)"
  unfolding preflight_def by auto

text \<open>A Redis that keeps the hash as written.\<close>

definition memory_redis :: "env \<Rightarrow> env" where
  "memory_redis ev = \<lparr>reply = (\<lambda>l c. if c = RedisHGetAll open_key then AFields (registry ev l)
     else reply ev l c)\<rparr>"

lemma hash_step_memory [simp]: "hash_step (memory_redis ev) l c d = hash_step ev l c d"
  by (cases c) (auto simp: took_effect_def memory_redis_def)

lemma registry_memory [simp]: "registry (memory_redis ev) l = registry ev l"
proof -
  have "hash_run (memory_redis ev) l cs d = hash_run ev l cs d" for cs d
    by (induction cs arbitrary: l d) auto
  moreover have "hash_run (memory_redis ev) l cs d = hash_run ev l cs d" for cs l d
    by (induction cs arbitrary: l d) auto
  ultimately show ?thesis by (simp add: registry_def)
qed

lemma own_memory: "own_registry (memory_redis ev)"
  unfolding own_registry_def registry_memory by (simp add: memory_redis_def)

text \<open>
  C22. The tracker implements a registry of positions kept in Redis: reloading it gives exactly
  the positions registered so far, registering stores one and releasing removes one, and the
  local mirror agrees with the hash after each of the three operations.
\<close>

theorem tracker_refines_registry:
  assumes "own_registry ev" "tk_redis tk" "registered ev (log w) ps"
  shows "(refresh ev tk w = (Inr (), w1) \<longrightarrow>
      local_positions w1 = ps \<and> registered ev (log w1) ps) \<and>
    (local_positions w = ps \<longrightarrow> register ev tk key p w = (Inr (), w2) \<longrightarrow>
      local_positions w2 = dset ps key p \<and> registered ev (log w2) (dset ps key p)) \<and>
    (local_positions w = ps \<longrightarrow> release ev tk key w = (Inr b, w3) \<longrightarrow>
      local_positions w3 = ddel ps key \<and> registered ev (log w3) (ddel ps key) \<and>
      (b \<longleftrightarrow> dhas ps key))"
proof (intro conjI impI)
  assume r: "refresh ev tk w = (Inr (), w1)"
  show "local_positions w1 = ps" by (rule refresh_registered(1) [OF assms r])
  show "registered ev (log w1) ps"
    using assms(3) refresh_registered(2) [OF assms r] by (simp add: registered_def)
next
  assume "local_positions w = ps" "register ev tk key p w = (Inr (), w2)"
  then show "local_positions w2 = dset ps key p" "registered ev (log w2) (dset ps key p)"
    using assms(2,3)
    by (auto simp: register_def bnd_Inr_iff call_run registered_def took_effect_def dset_encoded
        split: ans.splits)
next
  assume "local_positions w = ps" "release ev tk key w = (Inr b, w3)"
  then show "local_positions w3 = ddel ps key" "registered ev (log w3) (ddel ps key)" "b \<longleftrightarrow> dhas ps key"
    using assms(2,3)
    by (auto simp: release_def bnd_Inr_iff call_run registered_def took_effect_def ddel_encoded
        split: ans.splits)
qed

definition demo_tracker :: "codec \<Rightarrow> tracker" where
  "demo_tracker cd = \<lparr>tk_redis = True, tk_max_trades = 1, tk_max_risk_pct = Fin 3, tk_codec = cd\<rparr>"

definition quiet_env :: env where
  "quiet_env = \<lparr>reply = (\<lambda>l c. AUnit)\<rparr>"

definition start_risk_world :: risk_world where
  "start_risk_world = \<lparr>log = [], ctx = None, conn = False, local_positions = [], rk_processed = 0,
     rk_approved = 0, rk_rejected = 0\<rparr>"

definition demo_position :: position where
  "demo_position = \<lparr>p_key = T ''k'', p_signal = T ''k'', p_symbol = T ''V75'', p_direction = BUY,
     p_lots = Fin 1, p_entry = Fin 500, p_sl = Fin 490, p_risk = Fin 10, p_opened = TIso 0\<rparr>"

lemma start_registered: "registered ev (log start_risk_world) []"
  by (simp add: registered_def start_risk_world_def)

theorem tracker_refines_registry_witness:
  "\<exists>w. register (memory_redis quiet_env) (demo_tracker strict_codec) ''k'' demo_position start_risk_world = (Inr (), w) \<and>
     local_positions w = [(''k'', demo_position)] \<and>
     registered (memory_redis quiet_env) (log w) [(''k'', demo_position)]"
proof -
  obtain w where w: "register (memory_redis quiet_env) (demo_tracker strict_codec) ''k'' demo_position
      start_risk_world = (Inr (), w)"
    by (simp add: register_def demo_tracker_def bnd_def call_run memory_redis_def quiet_env_def)
  have t: "tk_redis (demo_tracker strict_codec)" "local_positions start_risk_world = []"
    by (simp_all add: demo_tracker_def start_risk_world_def)
  from tracker_refines_registry [OF own_memory t(1) start_registered] w t(2)
  have "local_positions w = dset [] ''k'' demo_position \<and>
      registered (memory_redis quiet_env) (log w) (dset [] ''k'' demo_position)"
    by blast
  with w show ?thesis by auto
qed

end
