(* ===== verification/Sizing.thy ===== *)
theory Sizing
  imports Schemas
begin

text \<open>
  \<open>vix_core/risk.py\<close>: risk-based lot sizing with clamp-down semantics, stop-distance
  validation and the margin loop. Code that may raise returns \<open>res\<close>; the margin loop of
  \<open>compute_lots\<close> is a \<open>partial_function\<close>, so a run that does not end is the value \<open>None\<close>.
\<close>

subsection \<open>Data\<close>

datatype sizing_status =
    OK
  | REJECT_RISK_TOO_SMALL
  | REJECT_INVALID_INPUT
  | REJECT_MARGIN
  | REJECT_STOPS_LEVEL
  | CAPPED_BY_VOLUME_MAX

record constraints =
  volume_min :: f64
  volume_max :: f64
  volume_step :: f64
  tick_size :: f64
  tick_value :: f64
  point :: f64
  stops_level_points :: int
  margin_per_lot :: f64

record lot_sizing =
  l_status :: sizing_status
  l_lots :: f64
  l_reason :: pytext
  l_risk :: f64

definition sized :: "sizing_status \<Rightarrow> f64 \<Rightarrow> pytext \<Rightarrow> f64 \<Rightarrow> lot_sizing" where
  "sized st lots why risk = \<lparr>l_status = st, l_lots = lots, l_reason = why, l_risk = risk\<rparr>"

lemma sized_simps [simp]:
  "l_status (sized st lots why risk) = st" "l_lots (sized st lots why risk) = lots"
  "l_reason (sized st lots why risk) = why" "l_risk (sized st lots why risk) = risk"
  by (simp_all add: sized_def)

definition accepted_status :: "sizing_status \<Rightarrow> bool" where
  "accepted_status st \<longleftrightarrow> st = OK \<or> st = CAPPED_BY_VOLUME_MAX"

lemma accepted_status_simps [simp]:
  "accepted_status OK" "accepted_status CAPPED_BY_VOLUME_MAX"
  "\<not> accepted_status REJECT_RISK_TOO_SMALL" "\<not> accepted_status REJECT_INVALID_INPUT"
  "\<not> accepted_status REJECT_MARGIN" "\<not> accepted_status REJECT_STOPS_LEVEL"
  by (simp_all add: accepted_status_def)

subsection \<open>Operations\<close>

definition floor_to_step :: "f64 \<Rightarrow> f64 \<Rightarrow> f64 res" where
  "floor_to_step value step =
     (if step \<le> 0 then Inl (ValueError ''volume_step must be positive'')
      else res_bind (py_div value step) (\<lambda>q.
           res_bind (py_floor (py_round 10 q)) (\<lambda>steps.
           res_bind (float_of_int steps) (\<lambda>k.
           Inr (py_round 10 (k * step))))))"

definition validate_stop_distances ::
  "f64 \<Rightarrow> f64 \<Rightarrow> f64 \<Rightarrow> constraints \<Rightarrow> pytext option res" where
  "validate_stop_distances entry stop_loss take_profit c =
     res_bind (float_of_int (stops_level_points c)) (\<lambda>points.
       let min_dist = points * point c;
           sl_dist = \<bar>entry - stop_loss\<bar>;
           tp_dist = \<bar>take_profit - entry\<bar>
       in Inr (if min_dist \<le> 0 then None
          else if sl_dist < min_dist then
            Some (TCat [T ''SL distance '', TFlt sl_dist, T '' < stops level '', TFlt min_dist])
          else if tp_dist < min_dist then
            Some (TCat [T ''TP distance '', TFlt tp_dist, T '' < stops level '', TFlt min_dist])
          else None))"

text \<open>The \<open>while required > budget and lots > constraints.volume_min\<close> loop.\<close>

partial_function (option) shrink_lots :: "constraints \<Rightarrow> f64 \<Rightarrow> f64 \<Rightarrow> f64 res option" where
  "shrink_lots c budget lots =
     (if budget < lots * margin_per_lot c \<and> volume_min c < lots
      then (case floor_to_step (lots - volume_step c) (volume_step c) of
              Inl e \<Rightarrow> Some (Inl e)
            | Inr l \<Rightarrow> shrink_lots c budget (py_max l 0))
      else Some (Inr lots))"

definition margin_stage ::
  "constraints \<Rightarrow> f64 option \<Rightarrow> f64 \<Rightarrow> sizing_status \<Rightarrow> f64 \<Rightarrow> f64 \<Rightarrow> lot_sizing res option" where
  "margin_stage c free_margin margin_buffer status lots risk_amount =
     (case free_margin of
        None \<Rightarrow> Some (Inr (sized status lots (T ''sized'') risk_amount))
      | Some fm \<Rightarrow>
          let budget = fm * margin_buffer in
          (case shrink_lots c budget lots of
             None \<Rightarrow> None
           | Some (Inl e) \<Rightarrow> Some (Inl e)
           | Some (Inr lots') \<Rightarrow>
               let required = lots' * margin_per_lot c in
               if budget < required then
                 Some (Inr (sized REJECT_MARGIN 0
                   (TCat [T ''margin '', TFix 2 required, T '' exceeds usable free margin '',
                          TFix 2 budget]) risk_amount))
               else if lots' < volume_min c then
                 Some (Inr (sized REJECT_RISK_TOO_SMALL 0
                   (T ''margin-adjusted lots fell below broker minimum'') risk_amount))
               else Some (Inr (sized status lots' (T ''sized'') risk_amount))))"

definition compute_lots ::
  "f64 \<Rightarrow> f64 \<Rightarrow> f64 \<Rightarrow> f64 \<Rightarrow> f64 \<Rightarrow> constraints \<Rightarrow> f64 option \<Rightarrow> f64 \<Rightarrow> lot_sizing res option" where
  "compute_lots equity risk_pct entry stop_loss take_profit c free_margin margin_buffer =
     (let risk_amount = equity * risk_pct / mk 100 in
      if equity \<le> 0 \<or> risk_pct \<le> 0 then
        Some (Inr (sized REJECT_INVALID_INPUT 0 (T ''equity/risk_pct must be positive'') 0))
      else if tick_size c \<le> 0 \<or> tick_value c \<le> 0 then
        Some (Inr (sized REJECT_INVALID_INPUT 0 (T ''invalid tick_size/tick_value'') 0))
      else if entry \<le> 0 \<or> stop_loss \<le> 0 then
        Some (Inr (sized REJECT_INVALID_INPUT 0 (T ''prices must be positive'') 0))
      else
        (case validate_stop_distances entry stop_loss take_profit c of
           Inl e \<Rightarrow> Some (Inl e)
         | Inr (Some stops_reason) \<Rightarrow>
             Some (Inr (sized REJECT_STOPS_LEVEL 0 stops_reason risk_amount))
         | Inr None \<Rightarrow>
             let sl_distance = \<bar>entry - stop_loss\<bar>;
                 loss_per_lot = sl_distance / tick_size c * tick_value c
             in if loss_per_lot \<le> 0 then
                  Some (Inr (sized REJECT_INVALID_INPUT 0 (T ''loss_per_lot computed as zero'')
                    risk_amount))
                else
                  (case floor_to_step (risk_amount / loss_per_lot) (volume_step c) of
                     Inl e \<Rightarrow> Some (Inl e)
                   | Inr lots \<Rightarrow>
                       if lots < volume_min c then
                         Some (Inr (sized REJECT_RISK_TOO_SMALL 0
                           (TCat [T ''risk-sized '', TFlt lots, T '' < volume_min '',
                                  TFlt (volume_min c), T ''; refusing to clamp up'']) risk_amount))
                       else if volume_max c < lots then
                         margin_stage c free_margin margin_buffer CAPPED_BY_VOLUME_MAX
                           (volume_max c) risk_amount
                       else
                         margin_stage c free_margin margin_buffer OK lots risk_amount)))"

subsection \<open>Results of the margin stage\<close>

fun loop_done :: "constraints \<Rightarrow> f64 \<Rightarrow> f64 res \<Rightarrow> bool" where
  "loop_done c budget (Inl e) = True"
| "loop_done c budget (Inr l) = (\<not> (budget < l * margin_per_lot c \<and> volume_min c < l))"

lemma shrink_lots_done: "shrink_lots c budget lots = Some y \<Longrightarrow> loop_done c budget y"
proof (rule shrink_lots.raw_induct [where P = "\<lambda>c budget lots y. loop_done c budget y"])
  fix f c budget lots y
  assume ih: "\<And>c budget lots y. f c budget lots = Some y \<Longrightarrow> loop_done c budget y"
    and eq: "(if budget < lots * margin_per_lot c \<and> volume_min c < lots
      then (case floor_to_step (lots - volume_step c) (volume_step c) of
            Inl e \<Rightarrow> Some (Inl e) | Inr l \<Rightarrow> f c budget (py_max l 0))
      else Some (Inr lots)) = Some y"
  show "loop_done c budget y"
  proof (cases "budget < lots * margin_per_lot c \<and> volume_min c < lots")
    case False
    with eq have "y = Inr lots" by auto
    with False show ?thesis by simp
  next
    case True
    then show ?thesis
      using eq ih by (cases "floor_to_step (lots - volume_step c) (volume_step c)") auto
  qed
qed

lemma shrink_lots_exit:
  "shrink_lots c budget lots = Some (Inr l) \<Longrightarrow>
     \<not> (budget < l * margin_per_lot c \<and> volume_min c < l)"
  using shrink_lots_done [of c budget lots "Inr l"] by simp

lemma margin_stage_accept:
  assumes "margin_stage c free_margin buffer st lots risk = Some (Inr r)" "accepted_status (l_status r)"
  shows "l_status r = st \<and>
    (case free_margin of
       None \<Rightarrow> l_lots r = lots
     | Some fm \<Rightarrow> \<not> fm * buffer < l_lots r * margin_per_lot c \<and> \<not> l_lots r < volume_min c \<and>
         shrink_lots c (fm * buffer) lots = Some (Inr (l_lots r)))"
  using assms
  by (auto simp: margin_stage_def Let_def split: option.splits sum.splits if_splits)


subsection \<open>Rounding error of one step of the volume grid\<close>

text \<open>
  What a broker's volume grid looks like: finite numbers, a step between a thousandth and a
  million lots, at most a million lots. On such a grid the doubles are fine enough for
  \<open>floor_to_step\<close> to be right up to a hundred-thousandth of a step.
\<close>

definition sane_grid :: "constraints \<Rightarrow> bool" where
  "sane_grid c \<longleftrightarrow> is_fin (volume_min c) \<and> is_fin (volume_max c) \<and> is_fin (volume_step c) \<and>
     0 \<le> fval (volume_min c) \<and> fval (volume_min c) \<le> fval (volume_max c) \<and>
     fval (volume_max c) \<le> 1000000 \<and> 1 / 1000 \<le> fval (volume_step c) \<and>
     fval (volume_step c) \<le> 1000000"

lemma sane_gridE:
  assumes "sane_grid c"
  obtains lo hi s where "volume_min c = Fin lo" "volume_max c = Fin hi" "volume_step c = Fin s"
    "0 \<le> lo" "lo \<le> hi" "hi \<le> 1000000" "1 / 1000 \<le> s" "s \<le> 1000000"
  using assms unfolding sane_grid_def
  by (cases "volume_min c"; cases "volume_max c"; cases "volume_step c") auto

lemma floor_quotient_err:
  assumes v: "\<bar>v\<bar> \<le> p2 21" and s: "1 / 1000 \<le> s"
  obtains n where "py_floor (py_round 10 (mk (v / s))) = Inr n"
    "of_int n \<le> v / s + 1 / 1000000" "v / s - 2 \<le> of_int n"
proof -
  define y where "y = v / s"
  define q where "q = rnd y"
  define d where "d = of_int (rhe (q * 10 ^ 10)) / (10 ^ 10 :: rat)"
  have "\<bar>v / s\<bar> = \<bar>v\<bar> / s" using s by simp
  also have "\<dots> \<le> p2 21 / (1 / 1000)" using v s by (intro frac_le) simp_all
  also have "\<dots> \<le> p2 31" by simp
  finally have vs: "\<bar>y\<bar> \<le> p2 31" by (simp add: y_def)
  then have q: "mk y = Fin q" "\<bar>q - y\<bar> \<le> p2 (- 22)"
    using mk_small [of y 31] by (simp_all add: q_def)
  have "\<bar>of_int (rhe (q * 10 ^ 10)) - q * 10 ^ 10\<bar> \<le> 1 / (2::rat)" by (rule rhe_near)
  then have d: "\<bar>d - q\<bar> \<le> 1 / 10000000000" by (simp add: d_def field_simps)
  have "\<bar>q\<bar> \<le> p2 31 + 1" by (rule abs_near_le [OF q(2) vs]) simp
  then have "\<bar>d\<bar> \<le> p2 32" by (rule abs_near_le [OF d]) simp
  then have t: "mk d = Fin (rnd d)" "\<bar>rnd d - d\<bar> \<le> p2 (- 21)"
    using mk_small [of d 32] by simp_all
  have f: "py_floor (py_round 10 (mk y)) = Inr \<lfloor>rnd d\<rfloor>"
    unfolding q(1) py_round.simps d_def [symmetric] t(1) by simp
  have "of_int \<lfloor>rnd d\<rfloor> \<le> rnd d" "rnd d < of_int \<lfloor>rnd d\<rfloor> + 1" by linarith+
  moreover have "rnd d \<le> y + 1 / 1000000" "y - 1 \<le> rnd d"
    using q(2) [THEN abs_near_upper] q(2) [THEN abs_near_lower] d [THEN abs_near_upper]
      d [THEN abs_near_lower] t(2) [THEN abs_near_upper] t(2) [THEN abs_near_lower] by simp_all
  ultimately have "of_int \<lfloor>rnd d\<rfloor> \<le> y + 1 / 1000000" "y - 2 \<le> of_int \<lfloor>rnd d\<rfloor>"
    by linarith+
  with f show ?thesis by (rule that [folded y_def])
qed

lemma product_err:
  assumes n: "\<bar>of_int n * s\<bar> \<le> p2 23"
  obtains w where "py_round 10 (mk (of_int n * s)) = Fin w"
    "\<bar>w - of_int n * s\<bar> \<le> 1 / 100000000"
proof -
  define x where "x = of_int n * s"
  define r where "r = rnd x"
  define d where "d = of_int (rhe (r * 10 ^ 10)) / (10 ^ 10 :: rat)"
  have r: "mk x = Fin r" "\<bar>r - x\<bar> \<le> p2 (- 30)"
    using mk_small [of x 23] n by (simp_all add: r_def x_def)
  have "\<bar>of_int (rhe (r * 10 ^ 10)) - r * 10 ^ 10\<bar> \<le> 1 / (2::rat)" by (rule rhe_near)
  then have d: "\<bar>d - r\<bar> \<le> 1 / 10000000000" by (simp add: d_def field_simps)
  have "\<bar>r\<bar> \<le> p2 23 + 1" 
    by (rule abs_near_le [OF r(2) n [folded x_def]]) simp
  then have "\<bar>d\<bar> \<le> p2 24" by (rule abs_near_le [OF d]) simp
  then have t: "mk d = Fin (rnd d)" "\<bar>rnd d - d\<bar> \<le> p2 (- 29)"
    using mk_small [of d 24] by simp_all
  have "py_round 10 (mk x) = Fin (rnd d)" unfolding r(1) py_round.simps d_def [symmetric] by (rule t(1))
  moreover have "\<bar>rnd d - x\<bar> \<le> 1 / 100000000" 
    unfolding abs_le_iff
    using r(2) [THEN abs_near_upper] r(2) [THEN abs_near_lower] d [THEN abs_near_upper]
      d [THEN abs_near_lower] t(2) [THEN abs_near_upper] t(2) [THEN abs_near_lower]
    by (intro conjI) simp_all
  ultimately show ?thesis using that by (simp add: x_def)
qed

lemma floor_to_step_err:
  assumes v: "\<bar>v\<bar> \<le> p2 21" and s: "1 / 1000 \<le> s" "s \<le> 1000000"
  obtains w where "floor_to_step (Fin v) (Fin s) = Inr (Fin w)" "w \<le> v + s / 50000"
proof -
  have s0: "0 < s" using s by linarith
  obtain n where n: "py_floor (py_round 10 (mk (v / s))) = Inr n"
    "of_int n \<le> v / s + 1 / 1000000" "v / s - 2 \<le> of_int n"
    using floor_quotient_err [OF v s(1)] .
  have up: "of_int n * s \<le> v + s / 1000000" and lo: "v - 2 * s \<le> of_int n * s"
    using n(2,3) s0 by (simp_all add: field_simps)
  have "\<bar>of_int n * s\<bar> \<le> p2 23" using up lo v s by (simp add: abs_le_iff)
  then obtain w where w: "py_round 10 (mk (of_int n * s)) = Fin w"
    "\<bar>w - of_int n * s\<bar> \<le> 1 / 100000000"
    by (rule product_err)
  define y where "y = v / s"
  have "\<bar>v / s\<bar> = \<bar>v\<bar> / s" using s0 by simp
  also have "\<dots> \<le> p2 21 / (1 / 1000)" using v s by (intro frac_le) simp_all
  finally have "\<bar>y\<bar> \<le> p2 21 / (1 / 1000)" by (simp add: y_def)
  then have "\<bar>of_int n :: rat\<bar> < of_int (2 ^ 53)"
    using n(2,3) unfolding y_def [symmetric] by (simp add: abs_le_iff abs_less_iff)
  then have "\<bar>n\<bar> < 2 ^ 53" by (simp only: of_int_less_iff flip: of_int_abs)
  then have "float_of_int n = Inr (Fin (of_int n))"
    by (simp add: float_of_int_def mk_of_int)
  then have "floor_to_step (Fin v) (Fin s) = Inr (Fin w)"
    using s0 n(1) w(1) by (simp add: floor_to_step_def py_div_def zero_eq_Fin)
  moreover have "w \<le> v + s / 50000" 
  proof -
    have "w \<le> of_int n * s + 1 / 100000000" using w(2) by (simp only: abs_le_iff) linarith
    moreover have "1 / 100000000 + s / 1000000 \<le> s / 50000" using s(1) by simp
    ultimately show ?thesis using up by linarith
  qed
  ultimately show ?thesis by (rule that)
qed

lemma shrink_lots_step:
  assumes L: "0 \<le> L" "L \<le> 1000000" and s: "1 / 1000 \<le> s" "s \<le> 1000000"
  obtains w where "floor_to_step (Fin L - Fin s) (Fin s) = Inr (Fin w)" "w \<le> L - s / 2"
proof -
  have b: "\<bar>L - s\<bar> \<le> p2 20" using L s by (simp add: abs_le_iff)
  then have v: "mk (L - s) = Fin (rnd (L - s))" "\<bar>rnd (L - s) - (L - s)\<bar> \<le> p2 (- 33)"
    using mk_small [of "L - s" 20] by simp_all
  have "\<bar>rnd (L - s)\<bar> \<le> p2 21"
    by (rule abs_near_le [OF v(2) b]) simp
  then obtain w where "floor_to_step (Fin (rnd (L - s))) (Fin s) = Inr (Fin w)"
    "w \<le> rnd (L - s) + s / 50000"
    using s by (rule floor_to_step_err)
  moreover from this(2) have "w \<le> L - s / 2"
    using v(2) [THEN abs_near_upper] s by simp
  ultimately show ?thesis using v(1) that by simp
qed

lemma shrink_lots_returns:
  assumes c: "volume_min c = Fin lo" "0 \<le> lo" "volume_step c = Fin s" "1 / 1000 \<le> s" "s \<le> 1000000"
  shows "0 \<le> L \<Longrightarrow> L \<le> 1000000 \<Longrightarrow> L \<le> of_nat n * (s / 2) \<Longrightarrow>
    \<exists>L'. shrink_lots c budget (Fin L) = Some (Inr (Fin L')) \<and> 0 \<le> L' \<and> L' \<le> L"
proof (induction n arbitrary: L)
  case 0
  with c have "\<not> volume_min c < Fin L" by simp
  with 0 show ?case by (subst shrink_lots.simps) auto
next
  case (Suc n)
  show ?case
  proof (cases "budget < Fin L * margin_per_lot c \<and> volume_min c < Fin L")
    case False
    with Suc show ?thesis by (subst shrink_lots.simps) auto
  next
    case True
    obtain w where w: "floor_to_step (Fin L - Fin s) (Fin s) = Inr (Fin w)" "w \<le> L - s / 2"
      using shrink_lots_step [OF Suc.prems(1,2) c(4,5)] .
    define m where "m = max w 0"
    have m: "py_max (Fin w) 0 = Fin m" by (auto simp: py_max_def m_def zero_eq_Fin)
    have "0 < L" using True c by auto
    have "0 \<le> of_nat n * (s / 2)" using c(4) by simp
    moreover have "w \<le> of_nat n * (s / 2)"
      using w(2) Suc.prems(3) by (simp add: algebra_simps)
    ultimately have "m \<le> of_nat n * (s / 2)"
      unfolding m_def by (rule max.boundedI [rotated])
    moreover have "0 \<le> m" "m \<le> L"
      using w(2) \<open>0 < L\<close> c(4) by (simp_all add: m_def)
    ultimately have "\<exists>L'. shrink_lots c budget (Fin m) = Some (Inr (Fin L')) \<and> 0 \<le> L' \<and> L' \<le> m"
      using Suc by simp
    moreover have "shrink_lots c budget (Fin L) = shrink_lots c budget (Fin m)"
      using True w(1) c m by (subst shrink_lots.simps) simp
    ultimately show ?thesis using \<open>m \<le> L\<close> by force
  qed
qed

lemma shrink_lots_sane:
  assumes "sane_grid c" "0 \<le> L" "L \<le> 1000000"
  shows "\<exists>L'. shrink_lots c budget (Fin L) = Some (Inr (Fin L')) \<and> 0 \<le> L' \<and> L' \<le> L"
proof -
  from assms(1) obtain lo s where c: "volume_min c = Fin lo" "0 \<le> lo" "volume_step c = Fin s"
    "1 / 1000 \<le> s" "s \<le> 1000000"
    by (auto elim: sane_gridE)
  have "L \<le> of_nat (nat \<lceil>L / (s / 2)\<rceil>) * (s / 2)"
  proof -
    have "L / (s / 2) \<le> of_nat (nat \<lceil>L / (s / 2)\<rceil>)"
      by (rule of_nat_ceiling)
    then show ?thesis using c(4) by (simp add: pos_divide_le_eq)
  qed
  then show ?thesis using shrink_lots_returns [OF c assms(2,3)] by blast
qed


lemma floor_to_step_not_NaN:
  assumes "floor_to_step v (Fin s) = Inr w" shows "w \<noteq> NaN"
proof -
  obtain k y where "float_of_int k = Inr y" and w: "w = py_round 10 (y * Fin s)"
    using assms by (auto simp: floor_to_step_def res_bind_Inr_iff split: if_splits)
  then obtain z where "y = Fin z"
    by (cases "mk (of_int k)") (auto simp: float_of_int_def split: if_splits)
  then show ?thesis using w by (cases "mk (z * s)") auto
qed

subsection \<open>What an accepted size went through\<close>

definition risk_sized :: "f64 \<Rightarrow> f64 \<Rightarrow> f64 \<Rightarrow> f64 \<Rightarrow> constraints \<Rightarrow> f64" where
  \<comment> \<open>money at risk over loss per lot, as the code computes it\<close>
  "risk_sized equity risk_pct entry stop_loss c =
     equity * risk_pct / mk 100 / (\<bar>entry - stop_loss\<bar> / tick_size c * tick_value c)"

lemma risk_sized_not_neg:
  "\<not> (equity \<le> 0 \<or> risk_pct \<le> 0 \<or> tick_size c \<le> 0 \<or> tick_value c \<le> 0) \<Longrightarrow>
     \<not> risk_sized equity risk_pct entry stop_loss c < 0"
  unfolding risk_sized_def
  by (intro f64_not_neg_div f64_not_neg_mult f64_not_neg_abs)
    (auto simp: f64_pos_not_neg mk_not_neg)

definition capped :: "constraints \<Rightarrow> f64 \<Rightarrow> f64" where
  "capped c lots = (if volume_max c < lots then volume_max c else lots)"

lemma compute_lots_accept:
  assumes "compute_lots equity risk_pct entry stop_loss take_profit c fm buffer = Some (Inr r)"
    and "accepted_status (l_status r)"
  obtains lots st where
    "floor_to_step (risk_sized equity risk_pct entry stop_loss c) (volume_step c) = Inr lots"
    "\<not> lots < volume_min c"
    "margin_stage c fm buffer st (capped c lots) (equity * risk_pct / mk 100) = Some (Inr r)"
    "st = (if volume_max c < lots then CAPPED_BY_VOLUME_MAX else OK)"
    "validate_stop_distances entry stop_loss take_profit c = Inr None"
    "\<not> (equity \<le> 0 \<or> risk_pct \<le> 0 \<or> tick_size c \<le> 0 \<or> tick_value c \<le> 0 \<or> entry \<le> 0 \<or> stop_loss \<le> 0)"
  using assms
  by (auto simp: compute_lots_def Let_def risk_sized_def capped_def
      split: if_splits sum.splits option.splits)

lemma accepted_lots:
  assumes g: "sane_grid c"
    and "compute_lots equity risk_pct entry stop_loss take_profit c fm buffer = Some (Inr r)"
    and "accepted_status (l_status r)"
  obtains x w lots where "l_lots r = Fin w" "volume_min c \<le> Fin w" "Fin w \<le> volume_max c"
    "floor_to_step (risk_sized equity risk_pct entry stop_loss c) (volume_step c) = Inr lots"
    "Fin w \<le> lots"
proof -
  obtain lo hi s where c: "volume_min c = Fin lo" "volume_max c = Fin hi" "volume_step c = Fin s"
    "0 \<le> lo" "lo \<le> hi" "hi \<le> 1000000"
    using g by (auto elim: sane_gridE)
  obtain lots st where l:
    "floor_to_step (risk_sized equity risk_pct entry stop_loss c) (volume_step c) = Inr lots"
    "\<not> lots < volume_min c"
    and m: "margin_stage c fm buffer st (capped c lots) (equity * risk_pct / mk 100) = Some (Inr r)"
    using compute_lots_accept [OF assms(2,3)] .
  have n: "lots \<noteq> NaN" using floor_to_step_not_NaN l(1) c(3) by metis
  then have "\<exists>x. capped c lots = Fin x \<and> lo \<le> x \<and> x \<le> hi \<and> Fin x \<le> lots"
    using l(2) c(4,5) by (cases lots) (auto simp: capped_def c(1,2))
  then obtain x where x: "capped c lots = Fin x" "lo \<le> x" "x \<le> hi" "Fin x \<le> lots" by blast
  note a = margin_stage_accept [OF m assms(3)]
  have "\<exists>w. l_lots r = Fin w \<and> lo \<le> w \<and> w \<le> x"
  proof (cases fm)
    case None
    with a x show ?thesis by simp
  next
    case (Some f)
    obtain w where "shrink_lots c (f * buffer) (Fin x) = Some (Inr (Fin w))" "w \<le> x"
      using shrink_lots_sane [OF g, of x "f * buffer"] x c by auto
    with a Some x c show ?thesis by (auto simp: eq_commute [of "Fin w"])
  qed
  then obtain w where w: "l_lots r = Fin w" "lo \<le> w" "w \<le> x" by blast
  moreover have "Fin w \<le> lots" using w(3) x(4) f64_le_trans [of "Fin w" "Fin x" lots] by simp
  ultimately show ?thesis using that l(1) x c by simp
qed

subsection \<open>Properties\<close>

definition coarse_contract :: constraints where
  \<comment> \<open>a contract with coarse lots, for the concrete runs below\<close>
  "coarse_contract = \<lparr>volume_min = Fin (1 / 2), volume_max = Fin 5, volume_step = Fin (1 / 2),
     tick_size = Fin 1, tick_value = Fin 1, point = Fin 1,
     stops_level_points = 10, margin_per_lot = Fin 100\<rparr>"

lemma coarse_contract_sane: "sane_grid coarse_contract"
  by (simp add: sane_grid_def coarse_contract_def f64_eval)

text \<open>
  C5. An accepted lot size lies within the broker's volume limits and does not exceed the
  risk-sized lots by more than a fifty-thousandth of a volume step: sizing never clamps up,
  neither to \<open>volume_min\<close> nor by rounding to the grid.
\<close>

theorem compute_lots_risk_bound:
  assumes "sane_grid c"
    and "compute_lots equity risk_pct entry stop_loss take_profit c fm buffer = Some (Inr r)"
    and "accepted_status (l_status r)"
  shows "volume_min c \<le> l_lots r \<and> l_lots r \<le> volume_max c \<and>
    (\<exists>w s. l_lots r = Fin w \<and> volume_step c = Fin s \<and>
      (case risk_sized equity risk_pct entry stop_loss c of
         Fin x \<Rightarrow> w \<le> x + s / 50000 | _ \<Rightarrow> False))"
proof -
  obtain hi s where c: "volume_max c = Fin hi" "volume_step c = Fin s" "hi \<le> 1000000"
    "1 / 1000 \<le> s" "s \<le> 1000000"
    using assms(1) by (auto elim: sane_gridE)
  obtain w lots where w: "l_lots r = Fin w" "volume_min c \<le> Fin w" "Fin w \<le> volume_max c"
    and f: "floor_to_step (risk_sized equity risk_pct entry stop_loss c) (volume_step c) = Inr lots"
    and le: "Fin w \<le> lots"
    using accepted_lots [OF assms] .
  show ?thesis
  proof (cases "risk_sized equity risk_pct entry stop_loss c")
    case (Fin x)
    have "w \<le> x + s / 50000"
    proof (cases "\<bar>x\<bar> \<le> p2 21")
      case True
      then obtain w' where "floor_to_step (Fin x) (Fin s) = Inr (Fin w')" "w' \<le> x + s / 50000"
        using floor_to_step_err c(4,5) by metis
      with f Fin c le show ?thesis by auto
    next
      case False
      have "0 \<le> x"
        using risk_sized_not_neg [of equity risk_pct c] compute_lots_accept [OF assms(2,3)] Fin
        by (metis f64_zero_simps(2) not_le)
      with False show ?thesis using c w by simp
    qed
    with Fin w c show ?thesis by simp
  qed (use f c in \<open>simp_all add: floor_to_step_def py_div_def zero_eq_Fin divide_f64_def
      split: if_splits\<close>)
qed

theorem compute_lots_risk_bound_witness:
  "\<exists>r. compute_lots (Fin 1000) (Fin 1) (Fin 500) (Fin 490) (Fin 520) coarse_contract (Some (Fin 800)) (Fin (1 / 2)) =
         Some (Inr r) \<and> accepted_status (l_status r) \<and>
         volume_min coarse_contract \<le> l_lots r \<and> l_lots r \<le> volume_max coarse_contract"
proof -
  have "compute_lots (Fin 1000) (Fin 1) (Fin 500) (Fin 490) (Fin 520) coarse_contract (Some (Fin 800)) (Fin (1 / 2)) =
    Some (Inr (sized OK (Fin 1) (T ''sized'') (Fin 10)))"
    by (simp add: compute_lots_def coarse_contract_def validate_stop_distances_def floor_to_step_def
        margin_stage_def shrink_lots.simps float_of_int_def py_div_def zero_eq_Fin f64_eval)
  moreover note compute_lots_risk_bound [OF coarse_contract_sane this]
  ultimately show ?thesis by auto
qed

text \<open>
  C6. When free margin is given, the margin an accepted size needs does not exceed the usable
  part \<open>free_margin * buffer\<close>, and both stops keep the broker's minimum distance.
\<close>

theorem compute_lots_margin_and_stops:
  assumes "sane_grid c" "is_fin (margin_per_lot c)" "fm * buffer \<noteq> NaN"
    and "compute_lots equity risk_pct entry stop_loss take_profit c (Some fm) buffer = Some (Inr r)"
    and "accepted_status (l_status r)"
  shows "l_lots r * margin_per_lot c \<le> fm * buffer \<and>
    (\<exists>points. float_of_int (stops_level_points c) = Inr points \<and>
      (0 < points * point c \<longrightarrow>
        \<not> \<bar>entry - stop_loss\<bar> < points * point c \<and> \<not> \<bar>take_profit - entry\<bar> < points * point c))"
proof -
  obtain w where w: "l_lots r = Fin w"
    using accepted_lots [OF assms(1,4,5)] by metis
  obtain lots st where
    m: "margin_stage c (Some fm) buffer st (capped c lots) (equity * risk_pct / mk 100) = Some (Inr r)"
    and v: "validate_stop_distances entry stop_loss take_profit c = Inr None"
    using compute_lots_accept [OF assms(4,5)] .
  obtain m where "margin_per_lot c = Fin m" using assms(2) by (cases "margin_per_lot c") auto
  then have "l_lots r * margin_per_lot c \<le> fm * buffer"
    using margin_stage_accept [OF m assms(5)] w assms(3) by (simp add: f64_not_less)
  moreover obtain points where "float_of_int (stops_level_points c) = Inr points"
    using v by (auto simp: validate_stop_distances_def res_bind_Inr_iff)
  ultimately show ?thesis
    using v by (auto simp: validate_stop_distances_def Let_def split: if_splits)
      (auto simp: f64_le_less dest: f64_less_asym)
qed

theorem compute_lots_margin_and_stops_witness:
  "\<exists>r. compute_lots (Fin 1000) (Fin 1) (Fin 500) (Fin 490) (Fin 520) coarse_contract (Some (Fin 120)) (Fin (1 / 2)) =
         Some (Inr r) \<and> l_lots r * margin_per_lot coarse_contract \<le> Fin 120 * Fin (1 / 2)"
proof -
  have "compute_lots (Fin 1000) (Fin 1) (Fin 500) (Fin 490) (Fin 520) coarse_contract (Some (Fin 120)) (Fin (1 / 2)) =
    Some (Inr (sized OK (Fin (1 / 2)) (T ''sized'') (Fin 10)))"
    by (simp add: compute_lots_def coarse_contract_def validate_stop_distances_def floor_to_step_def
        margin_stage_def shrink_lots.simps float_of_int_def py_div_def py_max_def zero_eq_Fin f64_eval)
  moreover have "is_fin (margin_per_lot coarse_contract)" "Fin 120 * Fin (1 / 2) \<noteq> NaN"
    by (simp_all add: coarse_contract_def f64_eval)
  ultimately show ?thesis
    using compute_lots_margin_and_stops [OF coarse_contract_sane, of "Fin 120" "Fin (1 / 2)"] by fastforce
qed

text \<open>
  C7. \<open>compute_lots\<close> returns on every input once the volume grid is sane: the margin loop ends
  for any equity, price, margin or buffer, NaN and infinities included.
\<close>

theorem compute_lots_returns:
  assumes "sane_grid c"
  shows "\<exists>r. compute_lots equity risk_pct entry stop_loss take_profit c fm buffer = Some r"
proof -
  obtain lo hi s where c: "volume_min c = Fin lo" "volume_max c = Fin hi" "volume_step c = Fin s"
    "0 \<le> lo" "lo \<le> hi" "hi \<le> 1000000"
    using assms by (rule sane_gridE)
  have stage: "margin_stage c fm buffer st (Fin x) risk \<noteq> None" if "0 \<le> x" "x \<le> 1000000" for st x risk
    using shrink_lots_sane [OF assms that, of "the fm * buffer"]
    by (cases fm) (auto simp: margin_stage_def Let_def split: option.splits)
  have "margin_stage c fm buffer st (capped c lots) risk \<noteq> None"
    if f: "floor_to_step v (volume_step c) = Inr lots" "\<not> lots < volume_min c" for v lots st risk
  proof -
    have "lots \<noteq> NaN" using floor_to_step_not_NaN f(1) c(3) by metis
    then have "\<exists>x. capped c lots = Fin x \<and> 0 \<le> x \<and> x \<le> 1000000"
      using f(2) c(4-6) by (cases lots) (auto simp: capped_def c(1,2))
    then show ?thesis using stage by metis
  qed
  from this [unfolded capped_def] show ?thesis
    by (auto simp: compute_lots_def Let_def split: sum.splits option.splits if_splits)
      (metis not_None_eq)+
qed

theorem compute_lots_returns_witness:
  "\<exists>r. compute_lots PInf NaN (Fin 500) NInf (Fin 520) coarse_contract (Some PInf) (Fin (1 / 2)) = Some r"
  by (rule compute_lots_returns [OF coarse_contract_sane])

text \<open>A size that is not accepted is zero: no rejection leaves a tradable lot size behind.\<close>

lemma compute_lots_rejected_zero:
  assumes "compute_lots equity risk_pct entry stop_loss take_profit c fm buffer = Some (Inr r)"
    and "\<not> accepted_status (l_status r)"
  shows "l_lots r = 0"
  using assms
  by (auto simp: compute_lots_def margin_stage_def Let_def
      split: if_splits sum.splits option.splits)

end
