(* ===== verification/Executor.thy ===== *)
theory Executor
  imports Bus
begin

text \<open>
  \<open>services/execution-service/app/mt5_executor.py\<close>: request building, the dry-run fill, the
  bounded retry loop over \<open>order_send\<close> with retcode classification, and closing a position.
  The MT5 terminal is reached through the calls \<open>Mt5Tick\<close>, \<open>Mt5Send\<close>, \<open>Mt5LastError\<close> and
  \<open>Mt5Positions\<close>.
\<close>

subsection \<open>State and data\<close>

record exec_world = world +
  send_calls :: "deal_request list"

type_synonym ('x, 'a) exec_act = "('x exec_world_ext, 'a) act"

record executor =
  x_mt5_available :: bool
  x_dry_run :: bool
  x_magic :: int
  x_backoff_base :: f64

record exec_outcome =
  u_result :: order_result
  u_attempts :: nat
  u_gave_up :: bool
  u_last_error :: "pytext option"

definition retcode_done :: int where "retcode_done = 10009"
definition retcode_done_partial :: int where "retcode_done_partial = 10010"

definition retryable_retcodes :: "int list" where
  "retryable_retcodes = [10004, 10020, 10021, 10012, 10018]"

definition max_attempts :: nat where "max_attempts = 3"

definition retcode_descriptions :: "(int \<times> string) list" where
  "retcode_descriptions = [
     (10004, ''REQUOTE''), (10006, ''REJECT''), (10009, ''DONE''), (10010, ''DONE_PARTIAL''),
     (10012, ''TIMEOUT''), (10013, ''INVALID_REQUEST''), (10014, ''INVALID_VOLUME''),
     (10015, ''INVALID_PRICE''), (10016, ''INVALID_STOPS''), (10017, ''TRADE_DISABLED''),
     (10018, ''MARKET_CLOSED''), (10019, ''NO_MONEY''), (10020, ''PRICE_CHANGED''),
     (10021, ''PRICE_OFF'')]"

definition describe_retcode :: "int \<Rightarrow> pytext \<Rightarrow> pytext" where
  "describe_retcode retcode comment =
     TCat ((case map_of retcode_descriptions retcode of
              Some d \<Rightarrow> [T d] | None \<Rightarrow> [T ''RETCODE_'', TInt retcode]) @
           (if text_nonempty comment then [T '':'', comment] else []))"

definition rejected_result :: "order \<Rightarrow> int option \<Rightarrow> pytext \<Rightarrow> order_result" where
  "rejected_result q retcode desc =
     \<lparr>r_key = o_key q, r_accepted = False, r_retcode = retcode, r_desc = Some desc,
      r_ticket = None, r_price = None, r_comment = None\<rparr>"

definition filled_result :: "order \<Rightarrow> int \<Rightarrow> pytext \<Rightarrow> int \<Rightarrow> f64 \<Rightarrow> order_result" where
  "filled_result q retcode desc ticket price =
     \<lparr>r_key = o_key q, r_accepted = True, r_retcode = Some retcode, r_desc = Some desc,
      r_ticket = Some ticket, r_price = Some price, r_comment = None\<rparr>"

subsection \<open>Requests\<close>

definition read_tick :: "env \<Rightarrow> executor \<Rightarrow> string \<Rightarrow> ('x, f64 \<times> f64) act" where
  "read_tick ev x symb =
     (if \<not> x_mt5_available x then throw AssertionError
      else bnd (ask ev (Mt5Tick symb)) (\<lambda>a. case a of
         ATick tick_ask bid \<Rightarrow> ret (tick_ask, bid)
       | ANone \<Rightarrow> throw (RuntimeError (''symbol_info_tick returned None for '' @ symb))
       | ARaise e \<Rightarrow> throw e
       | _ \<Rightarrow> throw BadAnswer))"

definition side_price :: "direction \<Rightarrow> f64 \<times> f64 \<Rightarrow> f64" where
  "side_price d t = (case d of BUY \<Rightarrow> fst t | SELL \<Rightarrow> snd t)"

definition build_request :: "env \<Rightarrow> executor \<Rightarrow> order \<Rightarrow> f64 option \<Rightarrow> ('x, deal_request) act" where
  "build_request ev x q price =
     bnd (read_tick ev x (o_symbol q)) (\<lambda>tick.
       let deal_price = (case price of
             Some p \<Rightarrow> if feq p 0 then side_price (o_direction q) tick else p
           | None \<Rightarrow> side_price (o_direction q) tick)
       in ret \<lparr>q_symbol = o_symbol q, q_volume = o_lots q, q_type = o_direction q, q_position = None,
               q_price = deal_price, q_sl = Some (o_sl q), q_tp = Some (o_tp q),
               q_deviation = o_deviation q, q_magic = x_magic x,
               q_comment = T (''vix75:'' @ take 16 (o_key q))\<rparr>)"

subsection \<open>Execution\<close>

definition read_clock :: "env \<Rightarrow> ('x, int) act" where
  "read_clock ev = call ev ans_int ReadClock"

definition last_error :: "env \<Rightarrow> ('x, pytext) act" where
  "last_error ev = bnd (call ev ans_text Mt5LastError) (\<lambda>t. case t of
     Some t \<Rightarrow> ret t | None \<Rightarrow> ret (T ''None''))"

definition execute_dry_run :: "env \<Rightarrow> executor \<Rightarrow> order \<Rightarrow> ('x, exec_outcome) act" where
  "execute_dry_run ev x q =
     bnd (if x_mt5_available x
          then bnd (read_tick ev x (o_symbol q)) (\<lambda>tick. ret (side_price (o_direction q) tick))
          else ret (o_entry q)) (\<lambda>price.
     bnd (read_clock ev) (\<lambda>ticket.
     ret \<lparr>u_result = filled_result q retcode_done (T ''DONE (dry_run)'') ticket price,
          u_attempts = 0, u_gave_up = False, u_last_error = None\<rparr>))"

definition exhausted :: "order \<Rightarrow> nat \<Rightarrow> pytext \<Rightarrow> pytext option \<Rightarrow> exec_outcome" where
  "exhausted q attempts desc err =
     \<lparr>u_result = rejected_result q None
        (TCat [T ''RETRY_EXHAUSTED after '', TInt (int attempts), T '': '', desc]),
      u_attempts = attempts, u_gave_up = True, u_last_error = err\<rparr>"

text \<open>
  The \<open>while attempts < MAX_ATTEMPTS\<close> loop, by the number of attempts left; an attempt that is
  to be retried sleeps unless it was the last one.
\<close>

primrec send_loop ::
  "env \<Rightarrow> order \<Rightarrow> deal_request \<Rightarrow> nat \<Rightarrow> nat \<Rightarrow> f64 \<Rightarrow> pytext \<Rightarrow> pytext option \<Rightarrow>
   ('x, exec_outcome) exec_act" where
  "send_loop ev q req 0 = (\<lambda>attempts delay desc err. ret (exhausted q attempts desc err))"
| "send_loop ev q req (Suc left) = (\<lambda>attempts delay desc err.
     let again = (\<lambda>desc' err'.
           if 0 < left
           then bnd (call ev ans_unit (SleepFor delay)) (\<lambda>_.
                  send_loop ev q req left (Suc attempts) (delay * mk 2) desc' err')
           else send_loop ev q req left (Suc attempts) delay desc' err')
     in bnd (update (\<lambda>w. w\<lparr>send_calls := send_calls w @ [req]\<rparr>)) (\<lambda>_.
        bnd (ask ev (Mt5Send req)) (\<lambda>a. case a of
          ANone \<Rightarrow>
            bnd (last_error ev) (\<lambda>e.
              again (TCat [T ''order_send returned None ('', e, T '')'']) (Some e))
        | ADeal retcode ord price comment \<Rightarrow>
            let desc' = describe_retcode retcode comment in
            if retcode = retcode_done \<or> retcode = retcode_done_partial
            then ret \<lparr>u_result = filled_result q retcode desc' ord price,
                      u_attempts = Suc attempts, u_gave_up = False, u_last_error = err\<rparr>
            else if retcode \<notin> set retryable_retcodes
            then bnd (last_error ev) (\<lambda>e.
                   ret \<lparr>u_result = rejected_result q (Some retcode) desc',
                        u_attempts = Suc attempts, u_gave_up = False, u_last_error = Some e\<rparr>)
            else bnd (last_error ev) (\<lambda>e. again desc' (Some e))
        | ARaise e \<Rightarrow> throw e
        | _ \<Rightarrow> throw BadAnswer)))"

definition execute :: "env \<Rightarrow> executor \<Rightarrow> order \<Rightarrow> ('x, exec_outcome) exec_act" where
  "execute ev x q =
     (if x_dry_run x then execute_dry_run ev x q
      else bnd (build_request ev x q None) (\<lambda>req.
           send_loop ev q req max_attempts 0 (x_backoff_base x) (T ''no response'') None))"

subsection \<open>Closing a position\<close>

definition position_attr :: "json \<Rightarrow> string \<Rightarrow> json \<Rightarrow> json" where
  \<comment> \<open>\<open>getattr(p, name, default)\<close>\<close>
  "position_attr p k dflt = (case p of JObj d \<Rightarrow> (case dget d k of Some v \<Rightarrow> v | None \<Rightarrow> dflt) | _ \<Rightarrow> dflt)"

definition read_positions :: "env \<Rightarrow> int option \<Rightarrow> ('x, json list) act" where
  "read_positions ev ticket =
     bnd (ask ev (Mt5Positions ticket)) (\<lambda>a. case a of
        ANone \<Rightarrow> ret [] | AJson (JArr ps) \<Rightarrow> ret ps | ARaise e \<Rightarrow> throw e | _ \<Rightarrow> throw BadAnswer)"

definition close_result ::
  "int \<Rightarrow> bool \<Rightarrow> int option \<Rightarrow> pytext \<Rightarrow> int option \<Rightarrow> f64 option \<Rightarrow> exec_outcome" where
  "close_result ticket accepted retcode desc tick price =
     \<lparr>u_result = \<lparr>r_key = ''close:'' @ int_str ticket, r_accepted = accepted, r_retcode = retcode,
        r_desc = Some desc, r_ticket = tick, r_price = price, r_comment = None\<rparr>,
      u_attempts = 1, u_gave_up = False, u_last_error = None\<rparr>"

definition close_position :: "env \<Rightarrow> executor \<Rightarrow> string \<Rightarrow> int \<Rightarrow> f64 \<Rightarrow> ('x, exec_outcome) act" where
  "close_position ev x symb ticket volume =
     (if \<not> x_mt5_available x then throw AssertionError
      else bnd (read_positions ev (Some ticket)) (\<lambda>positions.
        case positions of
          [] \<Rightarrow> ret (close_result ticket False None (T ''POSITION_NOT_FOUND'') None None)
        | pos # _ \<Rightarrow>
            let is_buy = (position_attr pos ''type'' (JInt 0) = JInt 0) in
            bnd (read_tick ev x symb) (\<lambda>tick.
              let close_type = (if is_buy then SELL else BUY);
                  req = \<lparr>q_symbol = symb, q_volume = volume, q_type = close_type,
                         q_position = Some ticket, q_price = side_price close_type tick,
                         q_sl = None, q_tp = None, q_deviation = 50, q_magic = x_magic x,
                         q_comment = TCat [T ''vix75-close:'', TInt ticket]\<rparr>
              in bnd (ask ev (Mt5Send req)) (\<lambda>a. case a of
                   ANone \<Rightarrow> bnd (last_error ev) (\<lambda>e.
                     ret (close_result ticket False None (TCat [T ''ORDER_SEND_NONE:'', e]) None None))
                 | ADeal retcode ord price comment \<Rightarrow>
                     ret (close_result ticket (retcode = retcode_done) (Some retcode)
                       (describe_retcode retcode comment)
                       (Some (if ord \<noteq> 0 then ord else ticket)) (Some price))
                 | ARaise e \<Rightarrow> throw e
                 | _ \<Rightarrow> throw BadAnswer))))"

subsection \<open>The answers to the sends of a run\<close>

fun is_send :: "ecall \<Rightarrow> bool" where
  "is_send (Mt5Send q) = True"
| "is_send c = False"

fun send_answers :: "env \<Rightarrow> ecall list \<Rightarrow> ecall list \<Rightarrow> ans list" where
  "send_answers ev l [] = []"
| "send_answers ev l (c # cs) =
     (if is_send c then [reply ev l c] else []) @ send_answers ev (l @ [c]) cs"

fun retry_answer :: "ans \<Rightarrow> bool" where
  "retry_answer ANone = True"
| "retry_answer (ADeal retcode ord price comment) = (retcode \<in> {10004, 10012, 10018, 10020, 10021})"
| "retry_answer a = False"

fun fill_answer :: "ans \<Rightarrow> bool" where
  "fill_answer (ADeal retcode ord price comment) = (retcode \<in> {10009, 10010})"
| "fill_answer a = False"

lemma send_answers_append:
  "send_answers ev l (a @ b) = send_answers ev l a @ send_answers ev (l @ a) b"
  by (induction a arbitrary: l) simp_all

definition send_run ::
  "env \<Rightarrow> deal_request \<Rightarrow> nat \<Rightarrow> nat \<Rightarrow> ecall list \<Rightarrow> ecall list \<Rightarrow> exec_outcome res \<Rightarrow> bool" where
  \<comment> \<open>what a run of the loop with \<open>n\<close> attempts left writes to the log and returns\<close>
  "send_run ev req n attempts l cs r \<longleftrightarrow>
     (let as = send_answers ev l cs in
      (\<forall>c \<in> set cs. is_send c \<longrightarrow> c = Mt5Send req) \<and> length as \<le> n \<and>
      (\<forall>a \<in> set (butlast as). retry_answer a) \<and>
      (case r of Inl e \<Rightarrow> True | Inr u \<Rightarrow>
         u_attempts u = attempts + length as \<and>
         (r_accepted (u_result u) \<longleftrightarrow> as \<noteq> [] \<and> fill_answer (last as)) \<and>
         (u_gave_up u \<longleftrightarrow> length as = n \<and> (\<forall>a \<in> set as. retry_answer a))))"

lemma send_run_later:
  assumes "send_run ev req n (Suc attempts) (l @ Mt5Send req # pre) cs r"
    and "retry_answer (reply ev l (Mt5Send req))" "\<forall>c \<in> set pre. \<not> is_send c"
  shows "send_run ev req (Suc n) attempts l (Mt5Send req # pre @ cs) r"
proof -
  have "send_answers ev l' pre = []" if "\<forall>c \<in> set pre. \<not> is_send c" for l' pre
    using that by (induction pre arbitrary: l') auto
  moreover have "\<not> fill_answer (reply ev l (Mt5Send req))"
    using assms(2) by (cases "reply ev l (Mt5Send req)") auto
  ultimately show ?thesis
    using assms by (auto simp: send_run_def Let_def send_answers_append split: sum.splits)
qed

lemma last_error_cases:
  assumes "bnd (last_error ev) f w = (r, w')"
  obtains e where "r = Inl e" "w' = w\<lparr>log := log w @ [Mt5LastError]\<rparr>"
  | e where "f e (w\<lparr>log := log w @ [Mt5LastError]\<rparr>) = (r, w')"
  using assms
  by (auto simp: last_error_def bnd_def call_run split: prod.splits sum.splits option.splits)

lemma sleep_cases:
  assumes "bnd (call ev ans_unit (SleepFor t)) f w = (r, w')"
  obtains e where "r = Inl e" "w' = w\<lparr>log := log w @ [SleepFor t]\<rparr>"
  | "f () (w\<lparr>log := log w @ [SleepFor t]\<rparr>) = (r, w')"
  using assms by (auto simp: bnd_def call_run split: sum.splits)

lemma send_run_stop:
  "send_run ev req (Suc n) attempts l (Mt5Send req # pre) (Inl e)" if "\<forall>c \<in> set pre. \<not> is_send c"
proof -
  have "send_answers ev l' pre = []" if "\<forall>c \<in> set pre. \<not> is_send c" for l' pre
    using that by (induction pre arbitrary: l') auto
  with that show ?thesis by (auto simp: send_run_def Let_def)
qed

text \<open>A raised exception ends the run; a retried answer leaves it to the rest of the loop.\<close>

lemma send_raised:
  assumes "r = Inl e" "log w' = l @ Mt5Send req # pre" "\<forall>c \<in> set pre. \<not> is_send c"
  shows "\<exists>cs. log w' = l @ cs \<and> send_run ev req (Suc n) attempts l cs r"
  using send_run_stop [OF assms(3)] assms(1,2) by blast

lemma send_continued:
  assumes "\<exists>cs. log w' = log u @ cs \<and> send_run ev req n (Suc attempts) (log u) cs r"
    and "retry_answer (reply ev l (Mt5Send req))" "log u = l @ Mt5Send req # pre" "\<forall>c \<in> set pre. \<not> is_send c"
  shows "\<exists>cs. log w' = l @ cs \<and> send_run ev req (Suc n) attempts l cs r"
proof -
  obtain cs where "log w' = log u @ cs" "send_run ev req n (Suc attempts) (log u) cs r" using assms(1) by blast
  then show ?thesis using send_run_later [OF _ assms(2,4), of n attempts cs r] by (auto simp: assms(3))
qed

text \<open>One more round: the error code is read, the loop waits unless it was the last attempt, and goes on.\<close>

lemma send_again_run:
  fixes v :: "'x exec_world_scheme"
  assumes IH: "\<And>delay' desc' err' u. send_loop ev q req n (Suc attempts) delay' desc' err' u = (r, w') \<Longrightarrow>
      \<exists>cs. log w' = log u @ cs \<and> send_run ev req n (Suc attempts) (log u) cs r"
    and a: "retry_answer (reply ev l (Mt5Send req))" and v: "log v = l @ [Mt5Send req]"
    and run: "bnd (last_error ev) (\<lambda>e. if 0 < n
       then bnd (call ev ans_unit (SleepFor delay)) (\<lambda>_.
              send_loop ev q req n (Suc attempts) (delay * mk 2) (f e) (Some e))
       else send_loop ev q req n (Suc attempts) delay (f e) (Some e)) v = (r, w')"
  shows "\<exists>cs. log w' = l @ cs \<and> send_run ev req (Suc n) attempts l cs r"
  using run
proof (cases rule: last_error_cases)
  case (1 e)
  then show ?thesis using v by (intro send_raised [where pre = "[Mt5LastError]"]) auto
next
  case (2 e)
  show ?thesis
  proof (cases "0 < n")
    case True
    with 2 have "bnd (call ev ans_unit (SleepFor delay)) (\<lambda>_.
        send_loop ev q req n (Suc attempts) (delay * mk 2) (f e) (Some e))
        (v\<lparr>log := log v @ [Mt5LastError]\<rparr>) = (r, w')" by simp
    then show ?thesis
    proof (cases rule: sleep_cases)
      case (1 e)
      then show ?thesis using v by (intro send_raised [where pre = "[Mt5LastError, SleepFor delay]"]) auto
    next
      case 2
      show ?thesis by (rule send_continued [OF IH [OF 2] a, where pre = "[Mt5LastError, SleepFor delay]"]) (simp_all add: v)
    qed
  next
    case False
    have "send_loop ev q req n (Suc attempts) delay (f e) (Some e)
        (v\<lparr>log := log v @ [Mt5LastError]\<rparr>) = (r, w')"
      using 2 unfolding if_not_P [OF False] .
    then show ?thesis by (rule send_continued [OF IH a, where pre = "[Mt5LastError]"]) (simp_all add: v)
  qed
qed

text \<open>A filling and a refusing return code end the loop.\<close>

lemma send_filled_run:
  assumes "reply ev l (Mt5Send req) = ADeal retcode ord price comment" "retcode = retcode_done \<or> retcode = retcode_done_partial"
    and "r = Inr \<lparr>u_result = filled_result q retcode d ord price, u_attempts = Suc attempts, u_gave_up = False,
      u_last_error = err\<rparr>"
  shows "send_run ev req (Suc n) attempts l [Mt5Send req] r"
  using assms by (auto simp: send_run_def filled_result_def retcode_done_def retcode_done_partial_def)

lemma send_refused_run:
  assumes "reply ev l (Mt5Send req) = ADeal retcode ord price comment" "log v = l @ [Mt5Send req]"
    and "\<not> (retcode = retcode_done \<or> retcode = retcode_done_partial)" "retcode \<notin> set retryable_retcodes"
    and "bnd (last_error ev) (\<lambda>e. ret \<lparr>u_result = rejected_result q c d,
      u_attempts = Suc attempts, u_gave_up = False, u_last_error = Some e\<rparr>) v = (r, w')"
  shows "\<exists>cs. log w' = l @ cs \<and> send_run ev req (Suc n) attempts l cs r"
  using assms(5)
proof (cases rule: last_error_cases)
  case (1 e)
  then show ?thesis using assms(2) by (intro send_raised [where pre = "[Mt5LastError]"]) auto
next
  case (2 e)
  then show ?thesis using assms(1-4)
    by (auto simp: send_run_def rejected_result_def retcode_done_def retcode_done_partial_def retryable_retcodes_def)
qed

lemma send_loop_run:
  "send_loop ev q req n attempts delay desc err w = (r, w') \<Longrightarrow>
     \<exists>cs. log w' = log w @ cs \<and> send_run ev req n attempts (log w) cs r"
proof (induction n arbitrary: attempts delay desc err w)
  case 0
  then show ?case by (auto simp: send_run_def exhausted_def rejected_result_def Let_def)
next
  case (Suc n)
  let ?a = "reply ev (log w) (Mt5Send req)"
  define v where "v = w\<lparr>send_calls := send_calls w @ [req], log := log w @ [Mt5Send req]\<rparr>"
  have v: "log v = log w @ [Mt5Send req]" by (simp add: v_def)
  note again = send_again_run [OF Suc.IH _ v]
  note run = Suc.prems [unfolded send_loop.simps Let_def bnd_def [of "update _"] bnd_def [of "ask _ _"] ask_def]
  show ?case
  proof (cases ?a)
    case ANone
    then show ?thesis using run by (intro again) (simp_all add: v_def)
  next
    case (ADeal retcode ord price comment)
    consider (fill) "retcode = retcode_done \<or> retcode = retcode_done_partial"
      | (hard) "\<not> (retcode = retcode_done \<or> retcode = retcode_done_partial)" "retcode \<notin> set retryable_retcodes"
      | (soft) "retcode \<in> set retryable_retcodes"
      by blast
    then show ?thesis
    proof cases
      case fill
      then have "r = Inr \<lparr>u_result = filled_result q retcode (describe_retcode retcode comment) ord price,
          u_attempts = Suc attempts, u_gave_up = False, u_last_error = err\<rparr>" "w' = v"
        using run ADeal by (auto simp: v_def)
      then show ?thesis using send_filled_run [OF ADeal fill] v by blast
    next
      case hard
      then show ?thesis using run ADeal by (intro send_refused_run [OF ADeal v hard]) (simp add: v_def)
    next
      case soft
      then have "retry_answer ?a" "\<not> (retcode = retcode_done \<or> retcode = retcode_done_partial)"
        using ADeal by (auto simp: retryable_retcodes_def retcode_done_def retcode_done_partial_def)
      then show ?thesis using run ADeal soft by (intro again) (simp_all add: v_def)
    qed
  qed (use run v send_run_stop [where pre = "[]"] in \<open>auto simp: v_def\<close>)
qed

lemma read_tick_log:
  "read_tick ev x symb w = (r, w') \<Longrightarrow> w' = w \<or> log w' = log w @ [Mt5Tick symb]"
  by (auto simp: read_tick_def bnd_def ask_def split: if_splits ans.splits)

lemma build_request_run:
  "build_request ev x q price w = (r, w') \<Longrightarrow>
     (w' = w \<or> log w' = log w @ [Mt5Tick (o_symbol q)]) \<and>
     (\<forall>req. r = Inr req \<longrightarrow> q_symbol req = o_symbol q \<and> q_volume req = o_lots q \<and>
        q_type req = o_direction q \<and> q_sl req = Some (o_sl q) \<and> q_tp req = Some (o_tp q) \<and>
        q_deviation req = o_deviation q \<and> q_position req = None)"
  unfolding build_request_def
  by (erule bnd_cases) (auto dest!: read_tick_log simp: Let_def)

lemma execute_live_cases:
  assumes "execute ev x q w = (r, w')" "\<not> x_dry_run x"
  obtains e where "r = Inl e" "\<exists>pre. log w' = log w @ pre \<and> (\<forall>c \<in> set pre. \<not> is_send c)"
  | req pre cs where "build_request ev x q None w = (Inr req, w\<lparr>log := log w @ pre\<rparr>)"
      "\<forall>c \<in> set pre. \<not> is_send c" "log w' = log w @ pre @ cs"
      "send_run ev req max_attempts 0 (log w @ pre) cs r"
proof -
  from assms have "bnd (build_request ev x q None) (\<lambda>req.
      send_loop ev q req max_attempts 0 (x_backoff_base x) (T ''no response'') None) w = (r, w')"
    by (simp add: execute_def)
  then show ?thesis
  proof (cases rule: bnd_cases)
    case (1 e)
    with build_request_run [OF 1(1)] show ?thesis by (intro that(1)) auto
  next
    case (2 req v)
    obtain cs where cs: "log w' = log v @ cs" "send_run ev req max_attempts 0 (log v) cs r"
      using send_loop_run [OF 2(2)] by blast
    have "v = w\<lparr>log := log w @ [Mt5Tick (o_symbol q)]\<rparr>"
      using 2(1) by (auto simp: build_request_def read_tick_def bnd_def ask_def Let_def
          split: if_splits ans.splits)
    then show ?thesis using 2 cs by (intro that(2) [of req "[Mt5Tick (o_symbol q)]" cs]) simp_all
  qed
qed

subsection \<open>Properties\<close>

text \<open>
  C3. In live mode one execution sends at most three requests, all equal and with the order's
  symbol, side, volume and levels; it sends again only after no answer or a retryable retcode,
  accepts exactly when the last answer is DONE or DONE_PARTIAL, gives up exactly after three
  retryable answers, and reports as many attempts as it sent.
\<close>

theorem execute_classifies:
  assumes "execute ev x q w = (r, w')" "\<not> x_dry_run x"
  shows "\<exists>req. q_symbol req = o_symbol q \<and> q_type req = o_direction q \<and> q_volume req = o_lots q \<and>
     q_sl req = Some (o_sl q) \<and> q_tp req = Some (o_tp q) \<and>
     (\<forall>c \<in> set (new_calls w w'). is_send c \<longrightarrow> c = Mt5Send req) \<and>
     (let as = send_answers ev (log w) (new_calls w w') in
        length as \<le> 3 \<and> (\<forall>a \<in> set (butlast as). retry_answer a) \<and>
        (\<forall>u. r = Inr u \<longrightarrow> u_attempts u = length as \<and>
           (r_accepted (u_result u) \<longleftrightarrow> as \<noteq> [] \<and> fill_answer (last as)) \<and>
           (u_gave_up u \<longleftrightarrow> length as = 3 \<and> (\<forall>a \<in> set as. retry_answer a))))"
  using assms
proof (cases rule: execute_live_cases)
  case (1 e)
  have none: "send_answers ev l pre = []" if "\<forall>c \<in> set pre. \<not> is_send c" for l pre
    using that by (induction pre arbitrary: l) auto
  let ?req = "\<lparr>q_symbol = o_symbol q, q_volume = o_lots q, q_type = o_direction q, q_position = None,
    q_price = 0, q_sl = Some (o_sl q), q_tp = Some (o_tp q), q_deviation = 0, q_magic = 0,
    q_comment = T ''''\<rparr>"
  show ?thesis by (rule exI [of _ ?req]) (use 1 none in \<open>auto simp: new_calls_def Let_def\<close>)
next
  case (2 req pre cs)
  have none: "send_answers ev l pre = []" if "\<forall>c \<in> set pre. \<not> is_send c" for l pre
    using that by (induction pre arbitrary: l) auto
  have "send_answers ev (log w) (new_calls w w') = send_answers ev (log w @ pre) cs"
    using 2(2,3) none by (simp add: new_calls_def send_answers_append)
  then show ?thesis
    using 2 build_request_run [OF 2(1)] unfolding send_run_def Let_def max_attempts_def
    by (intro exI [of _ req]) (auto simp: new_calls_def)
qed

definition demo_order :: order where
  "demo_order = \<lparr>o_key = ''k1'', o_signal = ''00112233445566778899aabbccddeeff'',
     o_symbol = ''V75'', o_direction = BUY, o_lots = Fin 1, o_entry = Fin 100, o_sl = Fin 90,
     o_tp = Fin 120, o_deviation = 30\<rparr>"

definition demo_world :: exec_world where
  "demo_world = \<lparr>log = [], ctx = None, conn = True, send_calls = []\<rparr>"

definition demo_executor :: executor where
  "demo_executor = \<lparr>x_mt5_available = True, x_dry_run = False, x_magic = 750101,
     x_backoff_base = Fin (1 / 2)\<rparr>"

definition requote_then_fill :: env where
  \<comment> \<open>a terminal that requotes the first request and fills the second\<close>
  "requote_then_fill = \<lparr>reply = (\<lambda>l c. case c of
       Mt5Tick s \<Rightarrow> ATick (Fin 101) (Fin 100)
     | Mt5Send q \<Rightarrow> if length l = 1 then ADeal 10004 0 0 (T '''') else ADeal 10009 77 (Fin 101) (T '''')
     | Mt5LastError \<Rightarrow> AText (T ''(1, ok)'')
     | _ \<Rightarrow> AUnit)\<rparr>"

lemma demo_execute:
  "\<exists>u w'. execute requote_then_fill demo_executor demo_order demo_world = (Inr u, w') \<and>
     r_ticket (u_result u) = Some 77 \<and> u_attempts u = 2"
  by (simp add: execute_def demo_executor_def demo_order_def demo_world_def requote_then_fill_def
      build_request_def read_tick_def max_attempts_def numeral_3_eq_3 bnd_def ask_def call_run
      last_error_def retcode_done_def retcode_done_partial_def retryable_retcodes_def filled_result_def
      Let_def)

theorem execute_classifies_witness:
  "\<exists>u w'. execute requote_then_fill demo_executor demo_order demo_world = (Inr u, w') \<and>
     u_attempts u = 2 \<and> length (send_answers requote_then_fill [] (new_calls demo_world w')) = 2"
proof -
  obtain u w' where e: "execute requote_then_fill demo_executor demo_order demo_world = (Inr u, w')"
    "u_attempts u = 2"
    using demo_execute by blast
  moreover have "\<not> x_dry_run demo_executor" "log demo_world = []"
    by (simp_all add: demo_executor_def demo_world_def)
  ultimately show ?thesis using execute_classifies [OF e(1)] by (auto simp: Let_def)
qed

text \<open>
  C4. In dry-run mode nothing is ever sent to the broker: an execution makes no \<open>order_send\<close>
  call, and when it returns it reports a fill of the order with zero attempts.
\<close>

theorem dry_run_never_sends:
  assumes "execute ev x q w = (r, w')" "x_dry_run x"
  shows "(\<forall>c \<in> set (new_calls w w'). \<not> is_send c) \<and> send_calls w' = send_calls w \<and>
    (\<forall>u. r = Inr u \<longrightarrow> r_accepted (u_result u) \<and> r_key (u_result u) = o_key q \<and> u_attempts u = 0 \<and>
       (\<not> x_mt5_available x \<longrightarrow> r_price (u_result u) = Some (o_entry q)))"
  using assms
  by (auto simp: execute_def execute_dry_run_def read_clock_def call_run bnd_def read_tick_def ask_def
      filled_result_def new_calls_def split: if_splits ans.splits sum.splits prod.splits)

definition clock_only :: env where
  "clock_only = \<lparr>reply = (\<lambda>l c. AInt 1700000000)\<rparr>"

theorem dry_run_never_sends_witness:
  "\<exists>u w'. execute clock_only (demo_executor\<lparr>x_dry_run := True, x_mt5_available := False\<rparr>) demo_order
      demo_world = (Inr u, w') \<and>
     r_accepted (u_result u) \<and> (\<forall>c \<in> set (new_calls demo_world w'). \<not> is_send c)"
proof -
  have "\<exists>u w'. execute clock_only (demo_executor\<lparr>x_dry_run := True, x_mt5_available := False\<rparr>)
      demo_order demo_world = (Inr u, w')"
    by (simp add: execute_def execute_dry_run_def demo_executor_def clock_only_def read_clock_def
        call_run bnd_def)
  then obtain u w' where e: "execute clock_only (demo_executor\<lparr>x_dry_run := True, x_mt5_available := False\<rparr>)
      demo_order demo_world = (Inr u, w')"
    by blast
  from dry_run_never_sends [OF e] show ?thesis using e by simp
qed

end
