(* ===== verification/Connection.thy ===== *)
theory Connection
  imports Bus
begin

text \<open>
  The lazily opened database connection that the \<open>db.py\<close> of every service repeats: one psycopg
  connection per service, opened on first use and again after the server closed it. The calls
  \<open>connect\<close>, \<open>closed\<close> and \<open>close\<close> stand for \<open>AsyncConnection.connect\<close>, the attribute \<open>closed\<close>,
  whose reading never raises, and \<open>AsyncConnection.close\<close>.
\<close>

subsection \<open>The connection object\<close>

fun ans_flag :: "ans \<Rightarrow> bool res" where
  "ans_flag (AInt n) = Inr (n \<noteq> 0)"
| "ans_flag a = Inr False"

definition db_unusable :: "env \<Rightarrow> ('x, bool) act" where
  \<comment> \<open>\<open>self._conn is None or self._conn.closed\<close>\<close>
  "db_unusable ev =
     bnd (look conn) (\<lambda>c. if c then call ev ans_flag (SqlRun ''closed'' []) else ret True)"

definition db_connect :: "env \<Rightarrow> ('x, unit) act" where
  "db_connect ev =
     bnd (db_unusable ev) (\<lambda>u. if u
       then bnd (call ev ans_unit (SqlRun ''connect'' [])) (\<lambda>_. update (\<lambda>w. w\<lparr>conn := True\<rparr>))
       else ret ())"

definition db_ensure :: "env \<Rightarrow> ('x, unit) act" where
  "db_ensure ev = bnd (db_unusable ev) (\<lambda>u. if u then db_connect ev else ret ())"

definition db_close :: "env \<Rightarrow> ('x, unit) act" where
  "db_close ev =
     bnd (db_unusable ev) (\<lambda>u.
     bnd (if u then ret () else call ev ans_unit (SqlRun ''close'' [])) (\<lambda>_.
     update (\<lambda>w. w\<lparr>conn := False\<rparr>)))"

fun is_runtime_error :: "exn \<Rightarrow> bool" where
  \<comment> \<open>\<open>MT5UnavailableError\<close> is a subclass\<close>
  "is_runtime_error (RuntimeError m) = True"
| "is_runtime_error (MT5UnavailableError m) = True"
| "is_runtime_error e = False"

definition db_ping :: "env \<Rightarrow> ('x, bool) act" where
  "db_ping ev =
     attempt
       (bnd (db_ensure ev) (\<lambda>_. bnd (call ev ans_rows (SqlRows ''ping'' [])) (\<lambda>rows. ret (rows \<noteq> []))))
       (\<lambda>e. if is_runtime_error e \<or> is_psycopg_error e then ret False else throw e)"

subsection \<open>Relations kept by the connection\<close>

context call_relation begin

lemma keeps_set_conn [intro!]: "keeps R (update (\<lambda>w. w\<lparr>conn := b\<rparr>))"
  by (rule keeps_update) (rule R_conn)

lemma keeps_db_unusable [intro!]: "allowed (SqlRun ''closed'' []) \<Longrightarrow> keeps R (db_unusable ev)"
  unfolding db_unusable_def by auto

lemma keeps_db_connect [intro!]:
  "allowed (SqlRun ''closed'' []) \<Longrightarrow> allowed (SqlRun ''connect'' []) \<Longrightarrow> keeps R (db_connect ev)"
  unfolding db_connect_def by auto

lemma keeps_db_ensure [intro!]:
  "allowed (SqlRun ''closed'' []) \<Longrightarrow> allowed (SqlRun ''connect'' []) \<Longrightarrow> keeps R (db_ensure ev)"
  unfolding db_ensure_def by auto

lemma keeps_db_close [intro!]:
  "allowed (SqlRun ''closed'' []) \<Longrightarrow> allowed (SqlRun ''close'' []) \<Longrightarrow> keeps R (db_close ev)"
  unfolding db_close_def by auto

lemma keeps_db_ping [intro!]:
  "allowed (SqlRun ''closed'' []) \<Longrightarrow> allowed (SqlRun ''connect'' []) \<Longrightarrow> allowed (SqlRows ''ping'' []) \<Longrightarrow>
     keeps R (db_ping ev)"
  unfolding db_ping_def by auto

end

subsection \<open>What the connection promises\<close>

definition closed_by_server :: "env \<Rightarrow> 'x world_scheme \<Rightarrow> bool" where
  \<comment> \<open>what \<open>closed\<close> of the held connection says now\<close>
  "closed_by_server ev w \<longleftrightarrow> ans_flag (reply ev (log w) (SqlRun ''closed'' [])) = Inr True"

lemma ans_flag_total: "ans_flag a = Inr True \<or> ans_flag a = Inr False"
  by (cases a) auto

lemma db_unusable_run:
  "db_unusable ev w = (if conn w then (Inr (closed_by_server ev w), w\<lparr>log := log w @ [SqlRun ''closed'' []]\<rparr>)
     else (Inr True, w))"
  using ans_flag_total [of "reply ev (log w) (SqlRun ''closed'' [])"]
  by (auto simp: db_unusable_def closed_by_server_def bnd_def call_run)

text \<open>A connection the server still holds is used again, at the price of reading one attribute.\<close>

lemma db_ensure_reuses:
  "conn w \<Longrightarrow> \<not> closed_by_server ev w \<Longrightarrow> db_ensure ev w = (Inr (), w\<lparr>log := log w @ [SqlRun ''closed'' []]\<rparr>)"
  by (simp add: db_ensure_def bnd_def db_unusable_run)

text \<open>Without one, the next use opens one connection, or raises what opening it raised.\<close>

lemma db_ensure_opens:
  "\<not> conn w \<Longrightarrow> db_ensure ev w = (case ans_unit (reply ev (log w) (SqlRun ''connect'' [])) of
     Inl e \<Rightarrow> (Inl e, w\<lparr>log := log w @ [SqlRun ''connect'' []]\<rparr>)
   | Inr u \<Rightarrow> (Inr (), w\<lparr>log := log w @ [SqlRun ''connect'' []], conn := True\<rparr>))"
  by (simp add: db_ensure_def db_connect_def bnd_def db_unusable_run call_run split: sum.split)

lemma db_ensure_steady:
  assumes "\<And>l. ans_flag (reply ev l (SqlRun ''closed'' [])) = Inr False"
    and "\<And>l. ans_unit (reply ev l (SqlRun ''connect'' [])) = Inr ()"
  shows "db_ensure ev w =
    (Inr (), w\<lparr>log := log w @ [SqlRun (if conn w then ''closed'' else ''connect'') []], conn := True\<rparr>)"
  using assms by (cases "conn w") (simp_all add: db_ensure_reuses db_ensure_opens closed_by_server_def)

lemma db_ensure_holds: "db_ensure ev w = (Inr (), w') \<Longrightarrow> conn w'"
  by (auto simp: db_ensure_def db_connect_def bnd_def db_unusable_run call_run split: if_splits sum.splits)

lemma db_close_forgets: "db_close ev w = (Inr (), w') \<Longrightarrow> \<not> conn w'"
  by (auto simp: db_close_def bnd_def db_unusable_run call_run split: if_splits sum.splits)

text \<open>After \<open>close\<close> the object connects again on its next use.\<close>

lemma db_close_then_ensure:
  assumes "db_close ev w = (Inr (), v)" "db_ensure ev v = (Inr (), w')"
  shows "log w' = log v @ [SqlRun ''connect'' []]"
  using db_ensure_opens [OF db_close_forgets [OF assms(1)], of ev] assms(2)
  by (auto split: sum.splits)

text \<open>The connection's calls touch nothing else of the state.\<close>

definition connects_only :: "'x world_scheme \<Rightarrow> 'x world_scheme \<Rightarrow> bool" where
  "connects_only w w' \<longleftrightarrow> (\<exists>l b. w' = w\<lparr>log := log w @ l, conn := b\<rparr> \<and>
     set l \<subseteq> {SqlRun ''closed'' [], SqlRun ''connect'' []})"

interpretation con: run_relation connects_only
proof
  show "connects_only w w" for w :: "'x world_scheme"
    unfolding connects_only_def by (intro exI [of _ "[]"] exI [of _ "conn w"]) simp
  show "connects_only u w" if "connects_only u v" "connects_only v w" for u v w :: "'x world_scheme"
    using that unfolding connects_only_def by (fastforce intro: exI [of _ "_ @ _"])
qed

lemma connects_call: "c \<in> {SqlRun ''closed'' [], SqlRun ''connect'' []} \<Longrightarrow> keeps connects_only (call ev read c :: ('x, 'a) act)"
proof -
  assume "c \<in> {SqlRun ''closed'' [], SqlRun ''connect'' []}"
  then have "connects_only w (w\<lparr>log := log w @ [c]\<rparr>)" for w :: "'x world_scheme"
    unfolding connects_only_def by (intro exI [of _ "[c]"] exI [of _ "conn w"]) auto
  then show ?thesis by (simp add: keeps_def call_run)
qed

lemma connects_set_conn: "keeps connects_only (update (\<lambda>w. w\<lparr>conn := b\<rparr>))"
  unfolding keeps_def connects_only_def by (intro allI impI exI [of _ "[]"] exI [of _ b]) simp

lemma db_ensure_connects: "keeps connects_only (db_ensure ev)"
  unfolding db_ensure_def db_connect_def db_unusable_def by (auto intro!: connects_call connects_set_conn)

lemma db_ensure_frame:
  "db_ensure ev w = (r, w') \<Longrightarrow> \<exists>l b. w' = w\<lparr>log := log w @ l, conn := b\<rparr> \<and>
     set l \<subseteq> {SqlRun ''closed'' [], SqlRun ''connect'' []}"
  using keepsD [OF db_ensure_connects] unfolding connects_only_def by blast

text \<open>When connections can be opened, every use of the object finds one.\<close>

lemma db_ensure_succeeds:
  assumes "\<And>l. ans_unit (reply ev l (SqlRun ''connect'' [])) = Inr ()"
  obtains w' m where "db_ensure ev w = (Inr (), w')" "log w' = log w @ m"
    "set m \<subseteq> {SqlRun ''closed'' [], SqlRun ''connect'' []}" "w' = w\<lparr>log := log w @ m, conn := True\<rparr>"
proof -
  have "\<exists>m. db_ensure ev w = (Inr (), w\<lparr>log := log w @ m, conn := True\<rparr>) \<and>
      set m \<subseteq> {SqlRun ''closed'' [], SqlRun ''connect'' []}"
  proof (cases "conn w")
    case False
    then show ?thesis using assms
      by (intro exI [of _ "[SqlRun ''connect'' []]"]) (simp add: db_ensure_opens)
  next
    case True
    let ?v = "w\<lparr>log := log w @ [SqlRun ''closed'' []]\<rparr>"
    show ?thesis
    proof (cases "closed_by_server ev w")
      case False
      then show ?thesis using True db_ensure_reuses [OF True False]
        by (intro exI [of _ "[SqlRun ''closed'' []]"]) simp
    next
      case gone: True
      then have e: "db_ensure ev w = db_connect ev ?v"
        using True by (simp add: db_ensure_def bnd_def db_unusable_run)
      show ?thesis using True assms
        by (intro exI [of _ "[SqlRun ''closed'' []] @ (if closed_by_server ev ?v then [SqlRun ''closed'' [], SqlRun ''connect'' []]
            else [SqlRun ''closed'' []])"])
          (simp add: e db_connect_def bnd_def db_unusable_run call_run)
    qed
  qed
  then show ?thesis using that by fastforce
qed

text \<open>A ping answers: no error of the database leaves it.\<close>

lemma db_ping_answers:
  assumes "db_ping ev w = (Inl e, w')"
  shows "\<not> is_psycopg_error e \<and> \<not> is_runtime_error e"
  using assms by (auto simp: db_ping_def attempt_def split: prod.splits sum.splits if_splits)

end
