(* ===== verification/TradeStore.thy ===== *)
theory TradeStore
  imports Executor Connection
begin

text \<open>
  \<open>services/execution-service/app/db.py\<close>: the \<open>trades\<close> table, with the effect of every SQL
  statement of the file written out on a list of rows, and the audit log. A statement runs on
  the lazily opened connection of \<open>Connection\<close>; it first asks the environment, which may raise
  (connection lost, foreign key, bad JSON) and otherwise answers with the database clock (microseconds); the \<open>CHECK (lots > 0)\<close> of
  \<open>infra/timescale/schema.sql\<close> is part of the insert. The unique constraint on the
  idempotency key is stated as a contract (\<open>keyed_store\<close>) that the table implements.
\<close>

subsection \<open>Rows and state\<close>

record trade =
  tr_key :: string
  tr_signal :: string
  tr_symbol :: string
  tr_side :: direction
  tr_lots :: f64
  tr_entry :: "f64 option"
  tr_sl :: f64
  tr_tp :: f64
  tr_status :: string
  tr_retcode :: "int option"
  tr_desc :: "pytext option"
  tr_ticket :: "int option"
  tr_requested :: int
  tr_executed :: "int option"
  tr_closed :: "int option"
  tr_profit :: "f64 option"
  tr_raw :: "json dict"

record audit_row =
  au_actor :: string
  au_action :: string
  au_subject :: pytext
  au_outcome :: string
  au_payload :: "json dict"
  au_error :: "pytext option"

record store_world = exec_world +
  trades :: "trade list"
  audits :: "audit_row list"
  processed :: nat
  duplicates_suppressed :: nat

type_synonym ('x, 'a) store_act = "('x store_world_ext exec_world_ext, 'a) act"

definition json_merge :: "json dict \<Rightarrow> json dict \<Rightarrow> json dict" where
  \<comment> \<open>\<open>a || b\<close> on jsonb, \<open>{**a, **b}\<close> on dicts\<close>
  "json_merge a b = foldl (\<lambda>d (k, v). dset d k v) a b"

subsection \<open>Statements\<close>

definition sql_insert_pending :: "order \<Rightarrow> string \<Rightarrow> int \<Rightarrow> trade list \<Rightarrow> trade list \<times> nat" where
  \<comment> \<open>\<open>ON CONFLICT (idempotency_key) DO NOTHING\<close>; the second component is \<open>rowcount\<close>\<close>
  "sql_insert_pending q sid now ts =
     (if o_key q \<in> tr_key ` set ts then (ts, 0)
      else (ts @ [\<lparr>tr_key = o_key q, tr_signal = sid, tr_symbol = o_symbol q,
          tr_side = o_direction q, tr_lots = o_lots q, tr_entry = Some (o_entry q),
          tr_sl = o_sl q, tr_tp = o_tp q, tr_status = ''pending'', tr_retcode = None,
          tr_desc = None, tr_ticket = None, tr_requested = now, tr_executed = None,
          tr_closed = None, tr_profit = None, tr_raw = []\<rparr>], 1))"

definition sql_update :: "(trade \<Rightarrow> bool) \<Rightarrow> (trade \<Rightarrow> trade) \<Rightarrow> trade list \<Rightarrow> trade list" where
  "sql_update cond f ts = map (\<lambda>t. if cond t then f t else t) ts"

definition sql_set_status ::
  "string \<Rightarrow> string \<Rightarrow> int option \<Rightarrow> pytext option \<Rightarrow> int option \<Rightarrow> f64 option \<Rightarrow> json dict \<Rightarrow> int \<Rightarrow>
   trade list \<Rightarrow> trade list" where
  "sql_set_status status key retcode desc ticket price extra now ts =
     (if status = ''filled'' then
        sql_update (\<lambda>t. tr_key t = key) (\<lambda>t. t\<lparr>tr_status := ''filled'', tr_retcode := retcode,
          tr_desc := desc, tr_ticket := ticket,
          tr_entry := (case price of None \<Rightarrow> tr_entry t | Some p \<Rightarrow> Some p),
          tr_executed := Some now, tr_raw := json_merge (tr_raw t) extra\<rparr>) ts
      else if status = ''submitted'' \<or> status = ''rejected'' then
        sql_update (\<lambda>t. tr_key t = key) (\<lambda>t. t\<lparr>tr_status := status, tr_retcode := retcode,
          tr_desc := desc, tr_raw := json_merge (tr_raw t) extra\<rparr>) ts
      else
        sql_update (\<lambda>t. tr_key t = key \<and> tr_status t = ''pending'')
          (\<lambda>t. t\<lparr>tr_status := ''cancelled'', tr_desc := desc\<rparr>) ts)"

definition open_ticket :: "int \<Rightarrow> trade \<Rightarrow> bool" where
  "open_ticket ticket t \<longleftrightarrow> tr_ticket t = Some ticket \<and> tr_closed t = None"

definition sql_close :: "int \<Rightarrow> f64 \<Rightarrow> json dict \<Rightarrow> int \<Rightarrow> trade list \<Rightarrow> trade list \<times> nat" where
  "sql_close ticket profit extra now ts =
     (sql_update (open_ticket ticket) (\<lambda>t. t\<lparr>tr_closed := Some now, tr_profit := Some profit,
        tr_raw := json_merge (tr_raw t) extra\<rparr>) ts,
      length (filter (open_ticket ticket) ts))"

definition sql_open_trades :: "trade list \<Rightarrow> trade list" where
  "sql_open_trades ts =
     sort_key (\<lambda>t. - tr_requested t) (filter (\<lambda>t. tr_status t = ''filled'' \<and> tr_closed t = None) ts)"

subsection \<open>The database object\<close>

definition statement :: "env \<Rightarrow> string \<Rightarrow> json list \<Rightarrow> ('x, int) act" where
  "statement ev name params = call ev ans_int (SqlRun name params)"

definition insert_pending :: "env \<Rightarrow> order \<Rightarrow> ('x, bool) store_act" where
  "insert_pending ev q =
     bnd (db_ensure ev) (\<lambda>_.
     bnd (lift_res (uuid_from_hex (o_signal q))) (\<lambda>sid.
     bnd (statement ev ''insert_pending'' [JStr (T (o_key q)), JStr (T sid)]) (\<lambda>now.
     if o_lots q \<le> 0 then throw (PsycopgError ''trades_lots_check'')
     else bnd (look (\<lambda>w. sql_insert_pending q sid now (trades w))) (\<lambda>(ts, rowcount).
          bnd (update (\<lambda>w. w\<lparr>trades := ts\<rparr>)) (\<lambda>_. ret (rowcount = 1))))))"

definition set_status ::
  "env \<Rightarrow> string \<Rightarrow> string \<Rightarrow> int option \<Rightarrow> pytext option \<Rightarrow> int option \<Rightarrow> f64 option \<Rightarrow> json dict \<Rightarrow>
   ('x, unit) store_act" where
  "set_status ev status key retcode desc ticket price extra =
     (if status \<notin> {''submitted'', ''filled'', ''rejected'', ''cancelled''} then throw (KeyError status)
      else bnd (db_ensure ev) (\<lambda>_.
           bnd (statement ev status [JStr (T key)]) (\<lambda>now.
           update (\<lambda>w. w\<lparr>trades := sql_set_status status key retcode desc ticket price extra now (trades w)\<rparr>))))"

definition close_by_ticket :: "env \<Rightarrow> int \<Rightarrow> f64 \<Rightarrow> f64 option \<Rightarrow> json dict \<Rightarrow> ('x, bool) store_act" where
  "close_by_ticket ev ticket profit exit_price extra =
     bnd (db_ensure ev) (\<lambda>_.
     bnd (read_clock ev) (\<lambda>now.
     bnd (statement ev ''close'' [JInt ticket]) (\<lambda>_.
     bnd (look (\<lambda>w. sql_close ticket profit
            (json_merge [(''exit_price'', json_opt JNum exit_price)] extra) now (trades w)))
       (\<lambda>(ts, rowcount). bnd (update (\<lambda>w. w\<lparr>trades := ts\<rparr>)) (\<lambda>_. ret (rowcount = 1))))))"

definition open_trades :: "env \<Rightarrow> ('x, trade list) store_act" where
  "open_trades ev =
     bnd (db_ensure ev) (\<lambda>_.
     bnd (statement ev ''open_trades'' []) (\<lambda>_. look (\<lambda>w. sql_open_trades (trades w))))"

definition trade_by_ticket :: "env \<Rightarrow> int \<Rightarrow> ('x, trade option) store_act" where
  "trade_by_ticket ev ticket =
     bnd (db_ensure ev) (\<lambda>_.
     bnd (statement ev ''by_ticket'' [JInt ticket]) (\<lambda>_.
       look (\<lambda>w. find_first (open_ticket ticket) (trades w))))"

definition audit ::
  "env \<Rightarrow> string \<Rightarrow> string \<Rightarrow> pytext \<Rightarrow> string \<Rightarrow> json dict \<Rightarrow> pytext option \<Rightarrow> ('x, unit) store_act" where
  "audit ev actor action subject outcome payload err =
     attempt
       (bnd (db_ensure ev) (\<lambda>_.
        bnd (statement ev ''audit'' [JStr subject]) (\<lambda>_.
        update (\<lambda>w. w\<lparr>audits := audits w @ [\<lparr>au_actor = actor, au_action = action,
          au_subject = subject, au_outcome = outcome, au_payload = payload, au_error = err\<rparr>]\<rparr>))))
       (\<lambda>e. if is_psycopg_error e then ret () else throw e)"

subsection \<open>The contract of the unique key\<close>

text \<open>
  What the consumers rely on: an insert of a key succeeds exactly when the key is new, a
  successful insert makes it present, and no operation of the client removes a key.
\<close>

locale keyed_store =
  fixes key_of :: "'r \<Rightarrow> 'k"
    and insert_row :: "'a \<Rightarrow> 'r list \<Rightarrow> 'r list \<times> nat"
    and arg_key :: "'a \<Rightarrow> 'k"
    and step :: "'r list \<Rightarrow> 'r list \<Rightarrow> bool"
  assumes insert_present: "arg_key a \<in> key_of ` set rs \<Longrightarrow> insert_row a rs = (rs, 0)"
    and insert_new: "arg_key a \<notin> key_of ` set rs \<Longrightarrow> snd (insert_row a rs) = 1 \<and>
      map key_of (fst (insert_row a rs)) = map key_of rs @ [arg_key a]"
    and step_keys: "step rs rs' \<Longrightarrow> map key_of rs' = map key_of rs"
begin

lemma insert_wins_iff: "snd (insert_row a rs) = 1 \<longleftrightarrow> arg_key a \<notin> key_of ` set rs"
  using insert_present insert_new by (cases "arg_key a \<in> key_of ` set rs") auto

lemma insert_records: "arg_key a \<in> key_of ` set (fst (insert_row a rs))"
proof (cases "arg_key a \<in> key_of ` set rs")
  case True
  then show ?thesis by (simp add: insert_present)
next
  case False
  then have "set (map key_of (fst (insert_row a rs))) = set (map key_of rs @ [arg_key a])"
    using insert_new by metis
  then show ?thesis by (metis in_set_conv_decomp list.set_map)
qed

lemma insert_keeps: "key_of ` set rs \<subseteq> key_of ` set (fst (insert_row a rs))"
proof (cases "arg_key a \<in> key_of ` set rs")
  case True
  then show ?thesis by (simp add: insert_present)
next
  case False
  then have "set (map key_of (fst (insert_row a rs))) = set (map key_of rs @ [arg_key a])"
    using insert_new by metis
  then show ?thesis by auto
qed

lemma insert_distinct: "distinct (map key_of rs) \<Longrightarrow> distinct (map key_of (fst (insert_row a rs)))"
proof (cases "arg_key a \<in> key_of ` set rs")
  case False
  moreover assume "distinct (map key_of rs)"
  ultimately have "distinct (map key_of rs @ [arg_key a])" by simp
  then show ?thesis using insert_new [OF False] by metis
qed (simp add: insert_present)

lemma second_insert_loses: "snd (insert_row b (fst (insert_row a rs))) \<noteq> 1" if "arg_key a = arg_key b"
  using insert_wins_iff insert_records that by metis

lemma step_present: "step rs rs' \<Longrightarrow> key_of ` set rs' = key_of ` set rs"
  using step_keys by (metis list.set_map)

end

definition row_update :: "trade list \<Rightarrow> trade list \<Rightarrow> bool" where
  \<comment> \<open>the updates of this file change rows in place and never their key\<close>
  "row_update ts ts' \<longleftrightarrow> map tr_key ts' = map tr_key ts"

interpretation trade_table: keyed_store tr_key "\<lambda>(q, sid, now). sql_insert_pending q sid now"
  "\<lambda>(q, sid, now). o_key q" row_update
  by unfold_locales (auto simp: sql_insert_pending_def row_update_def)

lemma sql_update_keys: "(\<And>t. tr_key (f t) = tr_key t) \<Longrightarrow> row_update ts (sql_update cond f ts)"
  by (simp add: sql_update_def row_update_def)

lemma sql_set_status_keys: "row_update ts (sql_set_status status key rc d tick p extra now ts)"
  unfolding sql_set_status_def by (auto intro!: sql_update_keys)

lemma sql_close_keys: "row_update ts (fst (sql_close ticket profit extra now ts))"
  unfolding sql_close_def by (auto intro!: sql_update_keys)

end
