(* ===== verification/Execution.thy ===== *)
theory Execution
  imports TradeStore
begin

text \<open>
  \<open>services/execution-service/app/consumer.py\<close> and \<open>routes.py\<close>: an \<open>order.request\<close> becomes at
  most one broker order and one result event. Metrics and log lines are left out, except that
  the log line of a suppressed duplicate parses the cached result and may raise.
\<close>

subsection \<open>The consumer\<close>

definition exec_stream :: string where "exec_stream = ''order.request''"
definition exec_group :: string where "exec_group = ''execution-service''"
definition result_ttl :: int where "result_ttl = 7 * 24 * 3600"

definition result_key :: "string \<Rightarrow> string" where
  "result_key key = ''result:order:'' @ key"

record exec_config =
  xc_executor :: executor
  xc_codec :: codec

definition order_field_names :: "string list" where
  "order_field_names = [''idempotency_key'', ''signal_id'', ''symbol'', ''direction'', ''lots'',
     ''entry'', ''sl'', ''tp'']"

definition parse_order :: "codec \<Rightarrow> fields \<Rightarrow> order option res" where
  "parse_order cd decoded =
     (let validate = (\<lambda>data. if \<not> json_truthy data then Inr None
            else case cd_order cd data of
                   Inr q \<Rightarrow> Inr (Some q)
                 | Inl e \<Rightarrow> if is_value_error e then Inr None else Inl e)
      in case dget decoded ''order'' of
        Some blob \<Rightarrow>
          (case json_loads cd blob of
             Inl e \<Rightarrow> if e = JSONDecodeError then Inr None else Inl e
           | Inr data \<Rightarrow> validate data)
      | None \<Rightarrow>
          if list_all (dhas decoded) order_field_names
          then res_bind (case dget decoded ''deviation_points'' of
                           None \<Rightarrow> Inr 30 | Some t \<Rightarrow> int_of_text cd t) (\<lambda>dev.
               validate (JObj (map (\<lambda>k. (k, JStr (the (dget decoded k)))) order_field_names @
                               [(''deviation_points'', JInt dev)])))
          else Inr None)"

definition result_view :: "order_result \<Rightarrow> json dict" where
  "result_view res = [
     (''accepted'', JBool (r_accepted res)),
     (''retcode'', json_opt JInt (r_retcode res)),
     (''retcode_description'', json_opt JStr (r_desc res)),
     (''ticket'', json_opt JInt (r_ticket res)),
     (''price'', json_opt JNum (r_price res))]"

definition mode_name :: "executor \<Rightarrow> string" where
  "mode_name x = (if x_dry_run x then ''dry_run'' else ''live'')"

definition reason_or_unknown :: "pytext option \<Rightarrow> pytext" where
  "reason_or_unknown d =
     (case d of Some t \<Rightarrow> if text_nonempty t then t else T ''UNKNOWN'' | None \<Rightarrow> T ''UNKNOWN'')"

definition filled_payload :: "order \<Rightarrow> order_result \<Rightarrow> json dict" where
  "filled_payload q res = [
     (''signal'', JStr (TJson (JObj (json_merge (order_dump q) (result_view res))))),
     (''idempotency_key'', JStr (T (o_key q))),
     (''signal_id'', JStr (T (o_signal q))),
     (''symbol'', JStr (T (o_symbol q))),
     (''direction'', JStr (T (direction_value (o_direction q)))),
     (''lots'', JNum (o_lots q)),
     (''entry'', JNum (o_entry q)),
     (''sl'', JNum (o_sl q)),
     (''tp'', JNum (o_tp q)),
     (''ticket'', JInt (case r_ticket res of None \<Rightarrow> 0 | Some t \<Rightarrow> t)),
     (''fill_price'', JNum (case r_price res of None \<Rightarrow> 0 | Some p \<Rightarrow> p))]"

definition rejected_payload :: "order \<Rightarrow> exec_outcome \<Rightarrow> json dict" where
  "rejected_payload q u = [
     (''signal_id'', JStr (T (o_signal q))),
     (''idempotency_key'', JStr (T (o_key q))),
     (''symbol'', JStr (T (o_symbol q))),
     (''direction'', JStr (T (direction_value (o_direction q)))),
     (''rejected_reason'', JStr (reason_or_unknown (r_desc (u_result u)))),
     (''detail'', JStr (TCat [T ''attempts='', TInt (int (u_attempts u)), T '' last_error='',
        case u_last_error u of None \<Rightarrow> T ''None'' | Some e \<Rightarrow> e]))]"

definition publish_outcome :: "env \<Rightarrow> exec_config \<Rightarrow> order \<Rightarrow> pytext \<Rightarrow> exec_outcome \<Rightarrow> ('x, unit) store_act" where
  \<comment> \<open>the \<open>if res.accepted ... else ...\<close> of \<open>_handle\<close>\<close>
  "publish_outcome ev cfg q cid u =
     (let res = u_result u; x = xc_executor cfg in
      if r_accepted res then
        bnd (set_status ev ''filled'' (o_key q) (r_retcode res) (r_desc res) (r_ticket res) (r_price res)
               [(''attempts'', JInt (int (u_attempts u))), (''mode'', JStr (T (mode_name x)))]) (\<lambda>_.
        bnd (stream_fields ev (filled_payload q res) (Some cid)) (\<lambda>fs.
        call ev ans_unit (XAdd ''order.filled'' fs)))
      else
        bnd (set_status ev ''rejected'' (o_key q) (r_retcode res) (r_desc res) None None
               [(''attempts'', JInt (int (u_attempts u))),
                (''mt5_last_error'', json_opt JStr (u_last_error u)),
                (''mode'', JStr (T (mode_name x)))]) (\<lambda>_.
        bnd (stream_fields ev (rejected_payload q u) (Some cid)) (\<lambda>fs.
        call ev ans_unit (XAdd ''order.rejected'' fs))))"

definition execute_order :: "env \<Rightarrow> exec_config \<Rightarrow> order \<Rightarrow> pytext \<Rightarrow> ('x, unit) store_act" where
  \<comment> \<open>the part of \<open>_handle\<close> after a won insert\<close>
  "execute_order ev cfg q cid =
     bnd (execute ev (xc_executor cfg) q) (\<lambda>u.
       let res = u_result u in
       bnd (publish_outcome ev cfg q cid u) (\<lambda>_.
       bnd (call ev ans_unit (RedisSet (result_key (o_key q)) (TJson (JObj (result_view res)))
              (Some result_ttl))) (\<lambda>_.
       bnd (audit ev ''execution-service''
              (if r_accepted res then ''order.executed'' else ''order.failed'') (T (o_key q))
              (if r_accepted res then ''ok'' else ''error'') (result_view res)
              (if r_accepted res then None else u_last_error u)) (\<lambda>_.
       update (\<lambda>w. w\<lparr>processed := Suc (processed w)\<rparr>)))))"

definition count_duplicate :: "('x, unit) store_act" where
  "count_duplicate = update (\<lambda>w. w\<lparr>duplicates_suppressed := Suc (duplicates_suppressed w)\<rparr>)"

definition prior_description :: "codec \<Rightarrow> pytext \<Rightarrow> unit res" where
  \<comment> \<open>\<open>json.loads(cached).get("retcode_description")\<close> in the log line\<close>
  "prior_description cd cached =
     res_bind (json_loads cd cached) (\<lambda>v. case v of
        JObj d \<Rightarrow> Inr () | _ \<Rightarrow> Inl (AttributeError ''get''))"

definition execution_body :: "env \<Rightarrow> exec_config \<Rightarrow> fields \<Rightarrow> pytext \<Rightarrow> ('x, unit) store_act" where
  "execution_body ev cfg decoded cid =
     bnd (lift_res (parse_order (xc_codec cfg) decoded)) (\<lambda>parsed.
     case parsed of
       None \<Rightarrow> ret ()
     | Some q \<Rightarrow>
         bnd (call ev ans_text (RedisGet (result_key (o_key q)))) (\<lambda>cached.
         case cached of
           Some c \<Rightarrow> bnd count_duplicate (\<lambda>_. lift_res (prior_description (xc_codec cfg) c))
         | None \<Rightarrow>
             bnd (insert_pending ev q) (\<lambda>inserted.
             if \<not> inserted then count_duplicate
             else execute_order ev cfg q cid)))"

definition execution_handle :: "env \<Rightarrow> exec_config \<Rightarrow> string \<Rightarrow> fields \<Rightarrow> ('x, unit) store_act" where
  "execution_handle ev cfg message_id decoded =
     with_correlation ev decoded (execution_body ev cfg decoded) (ret ())"

definition execution_drain :: "env \<Rightarrow> exec_config \<Rightarrow> ('x, nat) store_act" where
  "execution_drain ev cfg = drain_stream ev exec_stream exec_group (execution_handle ev cfg)"

definition execution_run_once :: "env \<Rightarrow> exec_config \<Rightarrow> ('x, nat) store_act" where
  "execution_run_once ev cfg = consumer_run_once ev exec_stream exec_group (execution_handle ev cfg)"

definition execution_run_forever :: "env \<Rightarrow> exec_config \<Rightarrow> f64 \<Rightarrow> nat \<Rightarrow> ('x, unit) store_act" where
  "execution_run_forever ev cfg poll n =
     consumer_run_forever ev exec_stream exec_group poll (execution_handle ev cfg) n"

subsection \<open>Routes\<close>

definition health_route :: "env \<Rightarrow> executor \<Rightarrow> ('x, json dict) act" where
  "health_route ev x =
     bnd (db_ping ev) (\<lambda>ok.
     ret [(''service'', JStr (T ''execution-service'')),
          (''status'', JStr (T (if ok then ''ok'' else ''degraded''))),
          (''database'', JStr (T (if ok then ''up'' else ''down''))),
          (''mt5'', JStr (T (if x_mt5_available x then ''available'' else ''unavailable''))),
          (''mode'', JStr (T (mode_name x)))])"

definition positions_route :: "env \<Rightarrow> ('x, nat \<times> trade list) store_act" where
  "positions_route ev = bnd (open_trades ev) (\<lambda>rows. ret (length rows, rows))"

definition close_view :: "order_result \<Rightarrow> json dict" where
  "close_view res = [
     (''accepted'', JBool (r_accepted res)),
     (''retcode'', json_opt JInt (r_retcode res)),
     (''retcode_description'', json_opt JStr (r_desc res)),
     (''price'', json_opt JNum (r_price res))]"

definition close_route :: "env \<Rightarrow> executor \<Rightarrow> int \<Rightarrow> ('x, json dict) store_act" where
  "close_route ev x ticket =
     bnd (trade_by_ticket ev ticket) (\<lambda>found.
     case found of
       None \<Rightarrow> throw (HTTPException 404 (''open trade with ticket '' @ int_str ticket @ '' not found''))
     | Some t \<Rightarrow>
         bnd (close_position ev x (tr_symbol t) ticket (tr_lots t)) (\<lambda>u.
           let res = u_result u in
           if \<not> r_accepted res then
             bnd (audit ev ''execution-service'' ''position.close'' (TInt ticket) ''error''
                    (close_view res)
                    (case u_last_error u of
                       Some e \<Rightarrow> if text_nonempty e then Some e else r_desc res
                     | None \<Rightarrow> r_desc res)) (\<lambda>_.
             throw (HTTPException 502 ''close rejected''))
           else
             bnd (close_by_ticket ev ticket 0 (r_price res) [(''source'', JStr (T ''manual_close''))]) (\<lambda>_.
             ret [(''closed'', JBool True), (''ticket'', JInt ticket),
                  (''exit_price'', json_opt JNum (r_price res)),
                  (''note'', JStr (T ''realised pnl will be attached by the reconciliation sweep''))])))"

subsection \<open>What a run may spend\<close>

text \<open>
  Broker sends and result events are counted in the log. \<open>spends s e k\<close> bounds what a part of a
  handler may add while it leaves the keys of the table alone; \<open>paid\<close> is the relation that every
  handler run satisfies: sends and result events are paid for by rows newly inserted.
\<close>

fun result_event :: "ecall \<Rightarrow> bool" where
  "result_event (XAdd s fs) = (s = ''order.filled'' \<or> s = ''order.rejected'')"
| "result_event c = False"

fun event_for :: "string \<Rightarrow> ecall \<Rightarrow> bool" where
  "event_for k (XAdd s fs) =
     (result_event (XAdd s fs) \<and> dget fs ''idempotency_key'' = Some (T k))"
| "event_for k c = False"

definition count_sends :: "ecall list \<Rightarrow> nat" where
  "count_sends cs = length (filter is_send cs)"

definition count_events :: "string \<Rightarrow> ecall list \<Rightarrow> nat" where
  "count_events k cs = length (filter (event_for k) cs)"

lemma count_simps [simp]:
  "count_sends [] = 0" "count_events k [] = 0"
  "count_sends (a @ b) = count_sends a + count_sends b"
  "count_events k (a @ b) = count_events k a + count_events k b"
  "count_sends (c # cs) = of_bool (is_send c) + count_sends cs"
  "count_events k (c # cs) = of_bool (event_for k c) + count_events k cs"
  by (simp_all add: count_sends_def count_events_def)

lemma event_for_result: "event_for k c \<Longrightarrow> result_event c"
  by (cases c) auto

lemma count_events_none: "\<forall>c \<in> set cs. \<not> result_event c \<Longrightarrow> count_events k cs = 0"
  by (induction cs) (auto dest: event_for_result)

lemma send_answers_length: "length (send_answers ev l cs) = count_sends cs"
  by (induction cs arbitrary: l) auto

definition trade_keys :: "'x store_world_scheme \<Rightarrow> string list" where
  "trade_keys w = map tr_key (trades w)"

definition budget :: "string \<Rightarrow> nat \<Rightarrow> string \<Rightarrow> nat" where
  "budget k e k' = (if k' = k then e else 0)"

lemma budget_add: "budget k e k' + budget k e' k' = budget k (e + e') k'"
  and budget_zero [simp]: "budget k 0 k' = 0"
  and budget_mono: "e \<le> e' \<Longrightarrow> budget k e k' \<le> budget k e' k'"
  by (simp_all add: budget_def)

definition spends :: "nat \<Rightarrow> nat \<Rightarrow> string \<Rightarrow> 'x store_world_scheme \<Rightarrow> 'x store_world_scheme \<Rightarrow> bool" where
  "spends s e k w w' \<longleftrightarrow> (\<exists>cs. log w' = log w @ cs \<and> trade_keys w' = trade_keys w \<and>
     count_sends cs \<le> s \<and> (\<forall>k'. count_events k' cs \<le> budget k e k'))"

definition quiet :: "ecall \<Rightarrow> bool" where
  "quiet c \<longleftrightarrow> \<not> is_send c \<and> \<not> result_event c"

lemma spends_trans: "spends s e k u v \<Longrightarrow> spends s' e' k v w \<Longrightarrow> spends (s + s') (e + e') k u w"
proof -
  assume "spends s e k u v" "spends s' e' k v w"
  then obtain a b where ab: "log v = log u @ a" "trade_keys v = trade_keys u" "count_sends a \<le> s"
      "\<forall>k'. count_events k' a \<le> budget k e k'"
      "log w = log v @ b" "trade_keys w = trade_keys v" "count_sends b \<le> s'"
      "\<forall>k'. count_events k' b \<le> budget k e' k'"
    unfolding spends_def by blast
  have "count_events k' (a @ b) \<le> budget k (e + e') k'" for k'
    using ab(4,8) unfolding budget_add [symmetric] by (simp add: add_mono)
  then show ?thesis unfolding spends_def using ab by (intro exI [of _ "a @ b"]) simp
qed

lemma spends_mono: "spends s e k u v \<Longrightarrow> s \<le> s' \<Longrightarrow> e \<le> e' \<Longrightarrow> spends s' e' k u v"
  unfolding spends_def using budget_mono [of e e' k] le_trans by (metis (no_types, lifting))

lemma quiet_sql [simp]: "quiet (SqlRun n ps)"
  by (simp add: quiet_def)

lemma quiet_event: "quiet c \<Longrightarrow> \<not> event_for k c"
  by (auto simp: quiet_def dest: event_for_result)

interpretation silent: call_relation "spends 0 0 k" quiet
proof
  show "spends 0 0 k w w" for w :: "'x store_world_scheme" by (simp add: spends_def)
  show "spends 0 0 k u w" if "spends 0 0 k u v" "spends 0 0 k v w" for u v w :: "'x store_world_scheme"
    using spends_trans [OF that] by simp
  show "spends 0 0 k w (w\<lparr>log := log w @ [c]\<rparr>)" if "quiet c" for c and w :: "'x store_world_scheme"
    unfolding spends_def
    by (rule exI [of _ "[c]"]) (use that in \<open>auto simp: quiet_def trade_keys_def dest: event_for_result\<close>)
  show "spends 0 0 k w (w\<lparr>ctx := x\<rparr>)" "spends 0 0 k w (w\<lparr>conn := b\<rparr>)" for x b and w :: "'x store_world_scheme"
    by (simp_all add: spends_def trade_keys_def)
qed

lemma keeps_bnd_spends:
  assumes "keeps (spends s e k) m" "\<And>x. keeps (spends s' e' k) (f x)" "s + s' = t" "e + e' = d"
  shows "keeps (spends t d k) (bnd m f)"
  unfolding keeps_def
proof (intro allI impI)
  fix w r w'
  assume "bnd m f w = (r, w')"
  then have "spends (s + s') (e + e') k w w'"
  proof (cases rule: bnd_cases)
    case (1 x)
    then show ?thesis using keepsD [OF assms(1)] spends_mono by force
  next
    case (2 x v)
    then show ?thesis using keepsD [OF assms(1)] keepsD [OF assms(2)] spends_trans by blast
  qed
  then show "spends t d k w w'" using assms(3,4) by simp
qed

definition eventless :: "'x store_world_scheme \<Rightarrow> 'x store_world_scheme \<Rightarrow> bool" where
  "eventless w w' \<longleftrightarrow> (\<exists>cs. log w' = log w @ cs \<and> trade_keys w' = trade_keys w \<and>
     (\<forall>c \<in> set cs. \<not> result_event c))"

interpretation evl: call_relation eventless "\<lambda>c. \<not> result_event c"
proof
  show "eventless w w" for w :: "'x store_world_scheme" by (simp add: eventless_def)
  show "eventless u w" if "eventless u v" "eventless v w" for u v w :: "'x store_world_scheme"
    using that by (auto simp: eventless_def)
  show "eventless w (w\<lparr>log := log w @ [c]\<rparr>)" if "\<not> result_event c" for c and w :: "'x store_world_scheme"
    using that by (simp add: eventless_def trade_keys_def)
  show "eventless w (w\<lparr>ctx := x\<rparr>)" "eventless w (w\<lparr>conn := b\<rparr>)" for x b and w :: "'x store_world_scheme"
    by (simp_all add: eventless_def trade_keys_def)
qed

lemma eventless_update: "(\<And>w. log (f w) = log w \<and> trade_keys (f w) = trade_keys w) \<Longrightarrow> keeps eventless (update f)"
  by (rule evl.keeps_update) (simp add: eventless_def)

lemma eventless_tick [intro!]: "keeps eventless (read_tick ev x symb)"
  unfolding read_tick_def by (auto split: ans.split)

lemma eventless_last_error [intro!]: "keeps eventless (last_error ev)"
  unfolding last_error_def by auto

lemma eventless_send_loop [intro!]: "keeps eventless (send_loop ev q req n attempts delay desc err)"
proof (induction n arbitrary: attempts delay desc err)
  case (Suc n)
  have u: "keeps eventless (update (\<lambda>w. w\<lparr>send_calls := send_calls w @ [req]\<rparr>))"
    by (rule eventless_update) (simp add: trade_keys_def)
  show ?case using Suc u by (auto simp: Let_def split: ans.split)
qed auto

lemma eventless_execute [intro!]: "keeps eventless (execute ev x q)"
  unfolding execute_def execute_dry_run_def build_request_def read_clock_def by (auto simp: Let_def)

lemma execute_sends: "execute ev x q w = (r, w') \<Longrightarrow> log w' = log w @ cs \<Longrightarrow> count_sends cs \<le> 3"
proof (cases "x_dry_run x")
  case True
  moreover assume "execute ev x q w = (r, w')" "log w' = log w @ cs"
  ultimately show ?thesis
    by (auto simp: execute_def execute_dry_run_def read_clock_def call_run bnd_def read_tick_def ask_def
        split: if_splits ans.splits sum.splits prod.splits)
next
  case False
  assume "execute ev x q w = (r, w')" and l: "log w' = log w @ cs"
  then show ?thesis
  proof (cases rule: execute_live_cases [OF _ False, consumes 1])
    case (1 e)
    then show ?thesis using l by (auto simp: count_sends_def filter_empty_conv)
  next
    case (2 req pre es)
    then have "count_sends pre = 0" by (auto simp: count_sends_def filter_empty_conv)
    moreover have "count_sends es \<le> 3"
      using 2(4) by (simp add: send_run_def Let_def max_attempts_def send_answers_length)
    ultimately show ?thesis using 2 l by simp
  qed
qed

lemma execute_spends: "keeps (spends 3 0 k) (execute ev x q)"
  unfolding keeps_def
proof (intro allI impI)
  fix w :: "'x store_world_scheme" and r w'
  assume e: "execute ev x q w = (r, w')"
  then obtain cs where "log w' = log w @ cs" "trade_keys w' = trade_keys w" "\<forall>c \<in> set cs. \<not> result_event c"
    using keepsD [OF eventless_execute] unfolding eventless_def by blast
  then show "spends 3 0 k w w'"
    unfolding spends_def using execute_sends [OF e] count_events_none by (intro exI [of _ cs]) simp
qed

lemma silent_update: "(\<And>w. log (f w) = log w \<and> trade_keys (f w) = trade_keys w) \<Longrightarrow>
    keeps (spends 0 0 k) (update f)"
  by (rule silent.keeps_update) (simp add: spends_def)

lemma silent_statement [intro!]: "keeps (spends 0 0 k) (statement ev name params)"
  unfolding statement_def by (auto simp: quiet_def)

lemma silent_set_status [intro!]: "keeps (spends 0 0 k) (set_status ev st key rc d tick p extra)"
  unfolding set_status_def using sql_set_status_keys
  by (auto intro!: silent_update simp: trade_keys_def row_update_def)

lemma silent_audit [intro!]: "keeps (spends 0 0 k) (audit ev a b c d e f)"
  unfolding audit_def by (auto intro!: silent_update simp: trade_keys_def)

lemma silent_duplicate [intro!]: "keeps (spends 0 0 k) count_duplicate"
  unfolding count_duplicate_def by (rule silent_update) (simp add: trade_keys_def)

lemma publish_event:
  assumes "dget (map (\<lambda>(k, v). (k, py_str v)) payload) ''idempotency_key'' = Some (T k)"
  shows "keeps (spends 0 1 k) (bnd (stream_fields ev payload c) (\<lambda>fs. call ev ans_unit (XAdd s fs)))"
  unfolding keeps_def
proof (intro allI impI)
  fix w :: "'x store_world_scheme" and r w'
  assume "bnd (stream_fields ev payload c) (\<lambda>fs. call ev ans_unit (XAdd s fs)) w = (r, w')"
  moreover have quiet_id: "keeps (spends 0 0 k) (stream_fields ev payload c)"
    by (auto simp: quiet_def)
  ultimately show "spends 0 1 k w w'"
  proof (cases rule: bnd_cases)
    case (1 e)
    then show ?thesis using keepsD [OF quiet_id] spends_mono by force
  next
    case (2 fs v)
    from stream_fields_value [OF 2(1)] assms have "dget fs ''idempotency_key'' = Some (T k)" by auto
    then have "count_events k' [XAdd s fs] \<le> budget k 1 k'" for k'
      by (auto simp: budget_def)
    then have "spends 0 1 k v w'"
      using 2(2) unfolding spends_def call_run
      by (intro exI [of _ "[XAdd s fs]"]) (auto simp: trade_keys_def)
    then show ?thesis using keepsD [OF quiet_id 2(1)] spends_trans by force
  qed
qed

lemma publish_outcome_spends: "keeps (spends 0 1 (o_key q)) (publish_outcome ev cfg q cid u)"
  unfolding publish_outcome_def Let_def
  by (intro keeps_if keeps_bnd_spends [OF silent_set_status publish_event])
    (simp_all add: filled_payload_def rejected_payload_def)

lemma execute_order_spends: "keeps (spends 3 1 (o_key q)) (execute_order ev cfg q cid)"
  unfolding execute_order_def Let_def
proof (rule keeps_bnd_spends [OF execute_spends])
  fix u
  have "keeps (spends 0 0 (o_key q)) (update (\<lambda>w. w\<lparr>processed := Suc (processed w)\<rparr>))"
    by (rule silent_update) (simp add: trade_keys_def)
  then show "keeps (spends 0 1 (o_key q)) (bnd (publish_outcome ev cfg q cid u) (\<lambda>_.
      bnd (call ev ans_unit (RedisSet (result_key (o_key q)) (TJson (JObj (result_view (u_result u))))
        (Some result_ttl))) (\<lambda>_.
      bnd (audit ev ''execution-service''
        (if r_accepted (u_result u) then ''order.executed'' else ''order.failed'') (T (o_key q))
        (if r_accepted (u_result u) then ''ok'' else ''error'') (result_view (u_result u))
        (if r_accepted (u_result u) then None else u_last_error u)) (\<lambda>_.
      update (\<lambda>w. w\<lparr>processed := Suc (processed w)\<rparr>)))))"
    by (intro keeps_bnd_spends [OF publish_outcome_spends]) (auto simp: quiet_def)
qed simp_all

subsection \<open>Sends and events are paid for by inserted rows\<close>

definition paid :: "'x store_world_scheme \<Rightarrow> 'x store_world_scheme \<Rightarrow> bool" where
  "paid w w' \<longleftrightarrow> (\<exists>cs ks. log w' = log w @ cs \<and> trade_keys w' = trade_keys w @ ks \<and>
     distinct ks \<and> set ks \<inter> set (trade_keys w) = {} \<and> count_sends cs \<le> 3 * length ks \<and>
     (\<forall>k. count_events k cs \<le> of_bool (k \<in> set ks)))"

lemma paid_trans:
  assumes "paid u v" "paid v w" shows "paid u w"
proof -
  obtain a ks where a: "log v = log u @ a" "trade_keys v = trade_keys u @ ks" "distinct ks"
    "set ks \<inter> set (trade_keys u) = {}" "count_sends a \<le> 3 * length ks"
    "\<forall>k. count_events k a \<le> of_bool (k \<in> set ks)"
    using assms(1) unfolding paid_def by blast
  obtain b ls where b: "log w = log v @ b" "trade_keys w = trade_keys v @ ls" "distinct ls"
    "set ls \<inter> set (trade_keys v) = {}" "count_sends b \<le> 3 * length ls"
    "\<forall>k. count_events k b \<le> of_bool (k \<in> set ls)"
    using assms(2) unfolding paid_def by blast
  have dis: "set ls \<inter> set ks = {}" "set ls \<inter> set (trade_keys u) = {}" using b(4) a(2) by auto
  have "count_events k (a @ b) \<le> of_bool (k \<in> set (ks @ ls))" for k
    using a(6) [rule_format, of k] b(6) [rule_format, of k] dis(1)
    by (cases "k \<in> set ks"; cases "k \<in> set ls") auto
  then show ?thesis
    unfolding paid_def using a b dis
    by (intro exI [of _ "a @ b"] exI [of _ "ks @ ls"]) auto
qed

interpretation paying: call_relation paid quiet
proof
  show "paid w w" for w :: "'x store_world_scheme" by (simp add: paid_def)
  show "paid u w" if "paid u v" "paid v w" for u v w :: "'x store_world_scheme"
    by (rule paid_trans [OF that])
  show "paid w (w\<lparr>log := log w @ [c]\<rparr>)" if "quiet c" for c and w :: "'x store_world_scheme"
    unfolding paid_def
    by (rule exI [of _ "[c]"]) (use that quiet_event in \<open>auto simp: quiet_def trade_keys_def\<close>)
  show "paid w (w\<lparr>ctx := x\<rparr>)" "paid w (w\<lparr>conn := b\<rparr>)" for x b and w :: "'x store_world_scheme"
    by (simp_all add: paid_def trade_keys_def)
qed

lemma spends_none_paid: "spends 0 0 k w w' \<Longrightarrow> paid w w'"
  unfolding spends_def paid_def by fastforce

lemma insert_pending_run:
  assumes "insert_pending ev q w = (r, w')"
  shows "r = Inr b \<Longrightarrow> b \<longleftrightarrow> o_key q \<notin> set (trade_keys w)"
    and "\<exists>c. log w' = log w @ c \<and> (\<forall>x \<in> set c. quiet x)"
    and "trade_keys w' = trade_keys w @ (if r = Inr True then [o_key q] else [])"
proof -
  obtain s v where e: "db_ensure ev w = (s, v)" by (metis surj_pair)
  obtain l k where v: "v = w\<lparr>log := log w @ l, conn := k\<rparr>" and "set l \<subseteq> {SqlRun ''closed'' [], SqlRun ''connect'' []}"
    using db_ensure_frame [OF e] by blast
  then have l: "\<forall>c \<in> set l. quiet c" by auto
  show "r = Inr b \<Longrightarrow> b \<longleftrightarrow> o_key q \<notin> set (trade_keys w)"
    and "\<exists>c. log w' = log w @ c \<and> (\<forall>x \<in> set c. quiet x)"
    and "trade_keys w' = trade_keys w @ (if r = Inr True then [o_key q] else [])"
    using assms e l
    by (auto simp: insert_pending_def statement_def bnd_def call_run sql_insert_pending_def v
      trade_keys_def split: sum.splits if_splits prod.splits)
qed

lemma quiet_counts: "\<forall>x \<in> set c. quiet x \<Longrightarrow> count_sends c = 0 \<and> count_events k c = 0"
  by (auto simp: count_sends_def count_events_def filter_empty_conv quiet_def dest: event_for_result)

text \<open>What an insert pays for: nothing when it lost or failed, one order when it won.\<close>

lemma unpaid_insert:
  assumes "log v = log w @ c" "\<forall>x \<in> set c. quiet x" "trade_keys v = trade_keys w"
  shows "paid w v"
  unfolding paid_def using assms quiet_counts [OF assms(2)] by (intro exI [of _ c] exI [of _ "[]"]) simp

lemma paid_order:
  assumes "log v = log w @ c" "\<forall>x \<in> set c. quiet x" "trade_keys v = trade_keys w @ [k]" "k \<notin> set (trade_keys w)"
    and "spends 3 1 k v w'"
  shows "paid w w'"
proof -
  obtain d where d: "log w' = log v @ d" "trade_keys w' = trade_keys v" "count_sends d \<le> 3"
    "\<forall>k'. count_events k' d \<le> budget k 1 k'"
    using assms(5) unfolding spends_def by blast
  have "count_events k' (c @ d) \<le> of_bool (k' \<in> {k})" for k'
    using d(4) [rule_format, of k'] quiet_counts [OF assms(2)] by (simp add: budget_def split: if_splits)
  then show ?thesis
    unfolding paid_def using d assms quiet_counts [OF assms(2)] by (intro exI [of _ "c @ d"] exI [of _ "[k]"]) auto
qed

lemma insert_then_execute_paid:
  "keeps paid (bnd (insert_pending ev q) (\<lambda>inserted.
     if \<not> inserted then count_duplicate else execute_order ev cfg q cid))"
  unfolding keeps_def
proof (intro allI impI)
  fix w :: "'x store_world_scheme" and r w'
  assume "bnd (insert_pending ev q) (\<lambda>inserted.
     if \<not> inserted then count_duplicate else execute_order ev cfg q cid) w = (r, w')"
  then show "paid w w'"
  proof (cases rule: bnd_cases)
    case (1 e)
    then show ?thesis using insert_pending_run(2,3) [OF 1(1)] unpaid_insert by auto
  next
    case (2 b v)
    obtain c where c: "log v = log w @ c" "\<forall>x \<in> set c. quiet x"
      using insert_pending_run(2) [OF 2(1)] by blast
    have k: "trade_keys v = trade_keys w @ (if b then [o_key q] else [])"
      and new: "b \<longleftrightarrow> o_key q \<notin> set (trade_keys w)"
      using insert_pending_run(3) [OF 2(1)] insert_pending_run(1) [OF 2(1) refl] by simp_all
    show ?thesis
    proof (cases b)
      case False
      then have "paid v w'" using 2(2) keepsD [OF silent_duplicate] spends_none_paid by fastforce
      then show ?thesis using unpaid_insert [OF c] k False paid_trans by simp
    next
      case True
      with 2(2) have "spends 3 1 (o_key q) v w'" using keepsD [OF execute_order_spends] by simp
      then show ?thesis using paid_order [OF c] k new True by simp
    qed
  qed
qed

lemma paying_duplicate [intro!]: "keeps paid count_duplicate"
  using keepsD [OF silent_duplicate] spends_none_paid by (fastforce simp: keeps_def)

lemma execution_body_paid: "keeps paid (execution_body ev cfg decoded cid)"
  unfolding execution_body_def
  by (intro paying.keeps_bnd keeps_option paying.keeps_lift paying.keeps_ret paying.keeps_call
      insert_then_execute_paid paying_duplicate) (simp add: quiet_def)

lemma execution_handle_paid: "keeps paid (execution_handle ev cfg mid decoded)"
  unfolding execution_handle_def
  by (intro paying.keeps_with_correlation execution_body_paid paying.keeps_ret) (simp add: quiet_def)

text \<open>
  Any number of deliveries, redeliveries included; a handler that raises ends its consumer, and
  the next delivery is made to the restarted one.
\<close>

fun deliver_all ::
  "env \<Rightarrow> exec_config \<Rightarrow> (string \<times> fields) list \<Rightarrow> 'x store_world_scheme \<Rightarrow> 'x store_world_scheme" where
  "deliver_all ev cfg [] w = w"
| "deliver_all ev cfg ((mid, fs) # ms) w =
     deliver_all ev cfg ms (snd (execution_handle ev cfg mid fs w))"

lemma deliver_all_paid: "paid w (deliver_all ev cfg ms w)"
proof (induction ms arbitrary: w)
  case Nil
  show ?case by (simp add: paying.R_refl)
next
  case (Cons m ms)
  obtain mid fs where m: "m = (mid, fs)" by (cases m)
  obtain r v where v: "execution_handle ev cfg mid fs w = (r, v)" by (metis surj_pair)
  then show ?case using keepsD [OF execution_handle_paid v] Cons paid_trans by (auto simp: m)
qed

subsection \<open>Properties\<close>

text \<open>
  C1. Exactly-once execution: whatever messages are delivered, in whatever order and however
  often, and whatever Redis, the database and the broker answer, every key gets at most one
  result event (\<open>order.filled\<close> or \<open>order.rejected\<close>), none when its row existed before, and there
  are at most three \<open>order_send\<close> calls per newly inserted row; keys are inserted once.
\<close>

theorem executed_at_most_once:
  "\<exists>ks. trade_keys (deliver_all ev cfg ms w) = trade_keys w @ ks \<and> distinct ks \<and>
    set ks \<inter> set (trade_keys w) = {} \<and>
    count_sends (new_calls w (deliver_all ev cfg ms w)) \<le> 3 * length ks \<and>
    (\<forall>k. count_events k (new_calls w (deliver_all ev cfg ms w)) \<le> of_bool (k \<in> set ks))"
proof -
  obtain cs ks where "log (deliver_all ev cfg ms w) = log w @ cs"
    "trade_keys (deliver_all ev cfg ms w) = trade_keys w @ ks" "distinct ks"
    "set ks \<inter> set (trade_keys w) = {}" "count_sends cs \<le> 3 * length ks"
    "\<forall>k. count_events k cs \<le> of_bool (k \<in> set ks)"
    using deliver_all_paid [of w ev cfg ms] unfolding paid_def by blast
  then show ?thesis by (intro exI [of _ ks]) (simp add: new_calls_def)
qed

text \<open>A run of the whole handler on services that answer.\<close>

definition calm :: "int \<Rightarrow> env" where
  \<comment> \<open>an environment in which nothing fails and no result is cached; the clocks read \<open>t\<close>\<close>
  "calm t = \<lparr>reply = (\<lambda>l c. case c of
       RedisGet k \<Rightarrow> ANone | SqlRun n ps \<Rightarrow> AInt (if n = ''closed'' then 0 else t) | ReadClock \<Rightarrow> AInt t | NewId \<Rightarrow> AText (T ''id'')
     | _ \<Rightarrow> AUnit)\<rparr>"

lemma calm_reply [simp]:
  "reply (calm t) l (RedisGet k) = ANone" "reply (calm t) l (SqlRun n ps) = AInt (if n = ''closed'' then 0 else t)"
  "reply (calm t) l ReadClock = AInt t" "reply (calm t) l NewId = AText (T ''id'')"
  "reply (calm t) l (XAdd s fs) = AUnit" "reply (calm t) l (RedisSet k v ttl) = AUnit"
  by (simp_all add: calm_def)

lemma calm_ensure [simp]:
  "db_ensure (calm t) w = (Inr (), w\<lparr>log := log w @ [SqlRun (if conn w then ''closed'' else ''connect'') []], conn := True\<rparr>)"
  by (rule db_ensure_steady) simp_all

lemma sql_update_fresh:
  "key \<notin> tr_key ` set ts \<Longrightarrow> sql_update (\<lambda>t. tr_key t = key) f ts = ts"
  by (auto simp: sql_update_def intro!: map_idI)

lemma sql_update_last:
  "key \<notin> tr_key ` set ts \<Longrightarrow> tr_key t = key \<Longrightarrow> sql_update (\<lambda>t. tr_key t = key) f (ts @ [t]) = ts @ [f t]"
  using sql_update_fresh [of key ts f] by (simp add: sql_update_def)


definition demo_codec :: codec where
  "demo_codec = \<lparr>cd_json = (\<lambda>t. Inl JSONDecodeError), cd_float = (\<lambda>t. Inl (ValueError ''float'')),
     cd_int = (\<lambda>t. Inl (ValueError ''int'')), cd_signal = (\<lambda>v. Inl (ValueError ''signal'')),
     cd_order = (\<lambda>v. if v = JObj (order_dump demo_order) then Inr demo_order
                     else Inl (ValueError ''order''))\<rparr>"

definition demo_config :: exec_config where
  "demo_config = \<lparr>xc_executor = demo_executor\<lparr>x_dry_run := True, x_mt5_available := False\<rparr>,
     xc_codec = demo_codec\<rparr>"

definition demo_message :: fields where
  "demo_message = [(''order'', TJson (JObj (order_dump demo_order))), (''correlation_id'', T ''c1'')]"

definition empty_store :: store_world where
  "empty_store = \<lparr>log = [], ctx = None, conn = True, send_calls = [], trades = [], audits = [], processed = 0,
     duplicates_suppressed = 0\<rparr>"

lemma demo_uuid: "uuid_from_hex (o_signal demo_order) = Inr ''00112233-4455-6677-8899-aabbccddeeff''"
  by (simp add: demo_order_def uuid_from_hex_def hex_digits_def)


end
