(* ===== verification/RiskService.thy ===== *)
theory RiskService
  imports Exposure Sizing Execution
begin

text \<open>
  The risk service: \<open>validator.py\<close> (cached account and contract snapshots),
  \<open>sizing.py\<close>, and the gate chain and consumer of \<open>consumer.py\<close>, from \<open>signal.generated\<close> to
  \<open>order.request\<close> or \<open>signal.rejected\<close>.
\<close>

subsection \<open>Snapshots\<close>

definition account_key :: string where "account_key = ''mt5:account_info''"

definition symbol_key :: "string \<Rightarrow> string" where
  "symbol_key s = ''mt5:symbol:'' @ s"

definition required_spec_fields :: "string list" where
  "required_spec_fields = [''volume_min'', ''volume_max'', ''volume_step'', ''tick_size'',
     ''tick_value'', ''point'', ''stops_level_points'', ''margin_per_lot'']"

record account =
  a_balance :: f64
  a_equity :: f64
  a_margin_free :: f64

record risk_config =
  rc_tracker :: tracker
  rc_redis :: bool                \<comment> \<open>the validator has a Redis client\<close>
  rc_codec :: codec
  rc_risk_pct :: f64
  rc_margin_cap :: f64

definition cached_text :: "env \<Rightarrow> risk_config \<Rightarrow> string \<Rightarrow> ('x, pytext option) act" where
  "cached_text ev cfg key = (if rc_redis cfg then call ev ans_text (RedisGet key) else ret None)"

fun malformed :: "exn \<Rightarrow> bool" where
  \<comment> \<open>\<open>except (KeyError, TypeError, ValueError)\<close>\<close>
  "malformed (KeyError k) = True"
| "malformed (TypeError m) = True"
| "malformed e = is_value_error e"

definition none_if_malformed :: "'a option res \<Rightarrow> 'a option res" where
  "none_if_malformed r = (case r of Inl e \<Rightarrow> if malformed e then Inr None else Inl e | Inr v \<Rightarrow> Inr v)"

definition json_float_item :: "codec \<Rightarrow> json \<Rightarrow> string \<Rightarrow> f64 res" where
  "json_float_item cd data k = res_bind (json_item data k) (json_float cd)"

definition parse_account :: "codec \<Rightarrow> pytext \<Rightarrow> account option res" where
  "parse_account cd raw = none_if_malformed (
     res_bind (json_loads cd raw) (\<lambda>data.
     res_bind (json_float_item cd data ''balance'') (\<lambda>b.
     res_bind (json_float_item cd data ''equity'') (\<lambda>e.
     res_bind (json_float_item cd data ''margin_free'') (\<lambda>m.
     Inr (Some \<lparr>a_balance = b, a_equity = e, a_margin_free = m\<rparr>))))))"

definition load_account :: "env \<Rightarrow> risk_config \<Rightarrow> ('x, account option) act" where
  "load_account ev cfg =
     bnd (cached_text ev cfg account_key) (\<lambda>raw.
     case raw of None \<Rightarrow> ret None | Some t \<Rightarrow> lift_res (parse_account (rc_codec cfg) t))"

fun missing_fields :: "json \<Rightarrow> string list res" where
  \<comment> \<open>\<open>[f for f in REQUIRED_SPEC_FIELDS if f not in data]\<close>; on a number \<open>in\<close> raises, on a list or
    a text some field is missing or the later \<open>data[f]\<close> raises, with the same outcome\<close>
  "missing_fields (JObj d) = Inr (filter (\<lambda>f. \<not> dhas d f) required_spec_fields)"
| "missing_fields v = Inl (TypeError ''argument is not a mapping'')"

definition parse_constraints :: "codec \<Rightarrow> pytext \<Rightarrow> constraints option res" where
  "parse_constraints cd raw = none_if_malformed (
     res_bind (json_loads cd raw) (\<lambda>data.
     res_bind (missing_fields data) (\<lambda>missing.
     if missing \<noteq> [] then Inr None
     else
       res_bind (json_float_item cd data ''volume_min'') (\<lambda>vmin.
       res_bind (json_float_item cd data ''volume_max'') (\<lambda>vmax.
       res_bind (json_float_item cd data ''volume_step'') (\<lambda>vstep.
       res_bind (json_float_item cd data ''tick_size'') (\<lambda>tsize.
       res_bind (json_float_item cd data ''tick_value'') (\<lambda>tvalue.
       res_bind (json_float_item cd data ''point'') (\<lambda>pt.
       res_bind (res_bind (json_item data ''stops_level_points'') (json_int cd)) (\<lambda>stops.
       res_bind (json_float_item cd data ''margin_per_lot'') (\<lambda>margin.
       Inr (Some \<lparr>volume_min = vmin, volume_max = vmax, volume_step = vstep, tick_size = tsize,
            tick_value = tvalue, point = pt, stops_level_points = stops,
            margin_per_lot = margin\<rparr>))))))))))))"

definition load_symbol_constraints :: "env \<Rightarrow> risk_config \<Rightarrow> string \<Rightarrow> ('x, constraints option) act" where
  "load_symbol_constraints ev cfg s =
     bnd (cached_text ev cfg (symbol_key s)) (\<lambda>raw.
     case raw of None \<Rightarrow> ret None | Some t \<Rightarrow> lift_res (parse_constraints (rc_codec cfg) t))"

definition check_stops :: "signal \<Rightarrow> constraints \<Rightarrow> pytext option res" where
  "check_stops s c = validate_stop_distances (s_entry s) (s_sl s) (s_tp1 s) c"

definition size_position :: "signal \<Rightarrow> account \<Rightarrow> constraints \<Rightarrow> f64 \<Rightarrow> f64 \<Rightarrow> lot_sizing res option" where
  "size_position s a c risk_pct cap =
     compute_lots (a_balance a) risk_pct (s_entry s) (s_sl s) (s_tp1 s) c
       (Some (a_margin_free a)) cap"

subsection \<open>The gate chain\<close>

record decision =
  d_approved :: bool
  d_reason :: "rejection_reason option"
  d_detail :: pytext
  d_lots :: f64
  d_risk :: f64

definition refuse :: "rejection_reason \<Rightarrow> pytext \<Rightarrow> decision" where
  "refuse why detail =
     \<lparr>d_approved = False, d_reason = Some why, d_detail = detail, d_lots = 0, d_risk = 0\<rparr>"

definition approve :: "f64 \<Rightarrow> f64 \<Rightarrow> decision" where
  "approve lots risk =
     \<lparr>d_approved = True, d_reason = None, d_detail = T '''', d_lots = lots, d_risk = risk\<rparr>"

lemma decision_simps [simp]:
  "d_approved (approve lots risk)" "d_lots (approve lots risk) = lots" "d_risk (approve lots risk) = risk"
  "\<not> d_approved (refuse why detail)" "d_reason (refuse why detail) = Some why"
  "refuse why detail \<noteq> approve lots risk" "approve lots risk \<noteq> refuse why detail"
  by (simp_all add: approve_def refuse_def)

fun status_reason :: "sizing_status \<Rightarrow> rejection_reason" where
  \<comment> \<open>the \<open>mapping\<close> of \<open>_decide\<close> with its default\<close>
  "status_reason REJECT_RISK_TOO_SMALL = RISK_TOO_SMALL"
| "status_reason REJECT_MARGIN = MARGIN_EXCEEDED"
| "status_reason REJECT_STOPS_LEVEL = STOPS_LEVEL_VIOLATION"
| "status_reason REJECT_INVALID_INPUT = INVALID_SIGNAL"
| "status_reason st = INVALID_SIGNAL"

definition risk_amount_of :: "signal \<Rightarrow> constraints \<Rightarrow> f64 \<Rightarrow> f64 res" where
  "risk_amount_of s c lots =
     res_bind (py_div \<bar>s_entry s - s_sl s\<bar> (tick_size c)) (\<lambda>ticks.
     Inr (py_round 2 (ticks * tick_value c * lots)))"

definition balance_hint :: "env \<Rightarrow> risk_config \<Rightarrow> ('x, f64) act" where
  "balance_hint ev cfg =
     bnd (load_account ev cfg) (\<lambda>a. ret (case a of None \<Rightarrow> PInf | Some a \<Rightarrow> a_balance a))"

definition sizing_decision :: "risk_config \<Rightarrow> signal \<Rightarrow> account \<Rightarrow> constraints \<Rightarrow> decision res" where
  \<comment> \<open>gates 4 and 5; a margin loop that never ends is \<open>Diverged\<close>\<close>
  "sizing_decision cfg s a c =
     res_bind (check_stops s c) (\<lambda>stops_detail.
     case stops_detail of
       Some detail \<Rightarrow> Inr (refuse STOPS_LEVEL_VIOLATION detail)
     | None \<Rightarrow>
         (case size_position s a c (rc_risk_pct cfg) (rc_margin_cap cfg) of
            None \<Rightarrow> Inl Diverged
          | Some r \<Rightarrow> res_bind r (\<lambda>result.
              if l_status result = OK \<or> l_status result = CAPPED_BY_VOLUME_MAX
              then res_bind (risk_amount_of s c (l_lots result)) (\<lambda>risk.
                   Inr (approve (l_lots result) risk))
              else Inr (refuse (status_reason (l_status result)) (l_reason result)))))"

definition decide :: "env \<Rightarrow> risk_config \<Rightarrow> signal \<Rightarrow> ('x, decision) risk_act" where
  "decide ev cfg s =
     bnd (balance_hint ev cfg) (\<lambda>balance.
     bnd (preflight ev (rc_tracker cfg) balance) (\<lambda>verdict.
     case verdict of
       Some why \<Rightarrow> ret (refuse why (T ''exposure limits reached''))
     | None \<Rightarrow>
         bnd (load_account ev cfg) (\<lambda>a.
         bnd (load_symbol_constraints ev cfg (s_symbol s)) (\<lambda>c.
         case (a, c) of
           (Some a, Some c) \<Rightarrow> lift_res (sizing_decision cfg s a c)
         | _ \<Rightarrow> ret (refuse ACCOUNT_DATA_UNAVAILABLE
                  (T ''mt5:account_info / symbol spec missing from Redis cache''))))))"

subsection \<open>The consumer\<close>

definition risk_stream :: string where "risk_stream = ''signal.generated''"
definition risk_group :: string where "risk_group = ''risk-service''"

definition parse_signal :: "codec \<Rightarrow> fields \<Rightarrow> signal option res" where
  \<comment> \<open>the inner \<open>try\<close> of \<open>_handle\<close>; both ways to drop the message are \<open>None\<close>\<close>
  "parse_signal cd decoded =
     (case res_bind (case dget decoded ''signal'' of None \<Rightarrow> Inr JNull | Some t \<Rightarrow> json_loads cd t) (\<lambda>raw.
           if json_truthy raw then res_bind (cd_signal cd raw) (\<lambda>s. Inr (Some s)) else Inr None) of
        Inl e \<Rightarrow> (case e of KeyError k \<Rightarrow> Inr None | _ \<Rightarrow> if is_value_error e then Inr None else Inl e)
      | Inr v \<Rightarrow> Inr v)"

definition order_of_signal :: "signal \<Rightarrow> f64 \<Rightarrow> order" where
  "order_of_signal s lots = \<lparr>o_key = s_id s, o_signal = s_id s, o_symbol = s_symbol s,
     o_direction = s_direction s, o_lots = lots, o_entry = s_entry s, o_sl = s_sl s,
     o_tp = s_tp1 s, o_deviation = 30\<rparr>"

definition register_exposure :: "env \<Rightarrow> risk_config \<Rightarrow> signal \<Rightarrow> order \<Rightarrow> f64 \<Rightarrow> ('x, unit) risk_act" where
  "register_exposure ev cfg s q risk =
     bnd (call ev ans_int ReadClock) (\<lambda>now.
     register ev (rc_tracker cfg) (o_key q)
       \<lparr>p_key = T (o_key q), p_signal = T (s_id s), p_symbol = T (o_symbol q),
        p_direction = o_direction q, p_lots = o_lots q, p_entry = o_entry q, p_sl = o_sl q,
        p_risk = risk, p_opened = TIso now\<rparr>)"

definition rejection_payload :: "signal \<Rightarrow> rejection_reason \<Rightarrow> pytext \<Rightarrow> json dict" where
  "rejection_payload s why detail = [
     (''signal_id'', JStr (T (s_id s))),
     (''symbol'', JStr (T (s_symbol s))),
     (''direction'', JStr (T (direction_value (s_direction s)))),
     (''rejected_reason'', JStr (T (rejection_value why))),
     (''detail'', JStr (TCut 300 detail))]"

definition publish_order :: "env \<Rightarrow> risk_config \<Rightarrow> pytext \<Rightarrow> signal \<Rightarrow> decision \<Rightarrow> ('x, unit) risk_act" where
  "publish_order ev cfg cid s d =
     (let q = order_of_signal s (d_lots d) in
      bnd (stream_fields ev (order_dump q) (Some cid)) (\<lambda>fs.
      bnd (call ev ans_unit (XAdd exec_stream fs)) (\<lambda>_.
      bnd (register_exposure ev cfg s q (d_risk d)) (\<lambda>_.
      update (\<lambda>w. w\<lparr>rk_approved := Suc (rk_approved w)\<rparr>)))))"

definition publish_rejection :: "env \<Rightarrow> pytext \<Rightarrow> signal \<Rightarrow> decision \<Rightarrow> ('x, unit) risk_act" where
  "publish_rejection ev cid s d =
     (case d_reason d of
        None \<Rightarrow> throw AssertionError
      | Some why \<Rightarrow>
          bnd (stream_fields ev (rejection_payload s why (d_detail d)) (Some cid)) (\<lambda>fs.
          bnd (call ev ans_unit (XAdd ''signal.rejected'' fs)) (\<lambda>_.
          update (\<lambda>w. w\<lparr>rk_rejected := Suc (rk_rejected w)\<rparr>))))"

definition risk_body :: "env \<Rightarrow> risk_config \<Rightarrow> fields \<Rightarrow> pytext \<Rightarrow> ('x, unit) risk_act" where
  "risk_body ev cfg decoded cid =
     bnd (lift_res (parse_signal (rc_codec cfg) decoded)) (\<lambda>parsed.
     case parsed of
       None \<Rightarrow> ret ()
     | Some s \<Rightarrow>
         bnd (decide ev cfg s) (\<lambda>d.
         if d_approved d then publish_order ev cfg cid s d else publish_rejection ev cid s d))"

definition risk_handle :: "env \<Rightarrow> risk_config \<Rightarrow> string \<Rightarrow> fields \<Rightarrow> ('x, unit) risk_act" where
  "risk_handle ev cfg message_id decoded =
     with_correlation ev decoded (risk_body ev cfg decoded)
       (update (\<lambda>w. w\<lparr>rk_processed := Suc (rk_processed w)\<rparr>))"

definition risk_drain :: "env \<Rightarrow> risk_config \<Rightarrow> ('x, nat) risk_act" where
  "risk_drain ev cfg = drain_stream ev risk_stream risk_group (risk_handle ev cfg)"

definition risk_run_once :: "env \<Rightarrow> risk_config \<Rightarrow> ('x, nat) risk_act" where
  "risk_run_once ev cfg = consumer_run_once ev risk_stream risk_group (risk_handle ev cfg)"

definition risk_run_forever :: "env \<Rightarrow> risk_config \<Rightarrow> f64 \<Rightarrow> nat \<Rightarrow> ('x, unit) risk_act" where
  "risk_run_forever ev cfg poll n =
     consumer_run_forever ev risk_stream risk_group poll (risk_handle ev cfg) n"

definition risk_consumer_config :: "settings \<Rightarrow> codec \<Rightarrow> risk_config" where
  \<comment> \<open>\<open>RiskConsumer.__init__\<close> with its default tracker and validator\<close>
  "risk_consumer_config st cd = \<lparr>
     rc_tracker = \<lparr>tk_redis = True, tk_max_trades = max_open_positions st,
       tk_max_risk_pct = max_total_risk_pct st, tk_codec = cd\<rparr>,
     rc_redis = True, rc_codec = cd, rc_risk_pct = risk_pct_per_trade st,
     rc_margin_cap = margin_usage_cap st\<rparr>"

definition risk_health :: "'x risk_world_scheme \<Rightarrow> json dict" where
  "risk_health w = [
     (''service'', JStr (T ''risk-service'')),
     (''status'', JStr (T ''ok'')),
     (''open_positions'', JInt (int (open_count w))),
     (''total_open_risk'', JNum (py_round 2 (total_open_risk w))),
     (''stream_key'', JStr (T open_key))]"

subsection \<open>The registry under the service\<close>

definition capped_registry :: "env \<Rightarrow> tracker \<Rightarrow> ecall list \<Rightarrow> bool" where
  "capped_registry ev tk l \<longleftrightarrow>
     (\<exists>ps. registered ev l ps \<and> int (length ps) \<le> tk_max_trades tk)"

definition cap_kept :: "env \<Rightarrow> tracker \<Rightarrow> 'x world_scheme \<Rightarrow> 'x world_scheme \<Rightarrow> bool" where
  "cap_kept ev tk w w' \<longleftrightarrow> (capped_registry ev tk (log w) \<longrightarrow> capped_registry ev tk (log w'))"

lemma registered_other:
  "\<not> writes_registry c \<Longrightarrow> registered ev (l @ [c]) ps = registered ev l ps"
  by (simp add: registered_def)

interpretation capping: call_relation "cap_kept ev tk" "\<lambda>c. \<not> writes_registry c"
proof
  show "cap_kept ev tk w w" for w :: "'x world_scheme" by (simp add: cap_kept_def)
  show "cap_kept ev tk u w" if "cap_kept ev tk u v" "cap_kept ev tk v w" for u v w :: "'x world_scheme"
    using that by (simp add: cap_kept_def)
  show "cap_kept ev tk w (w\<lparr>log := log w @ [c]\<rparr>)" if "\<not> writes_registry c" for c and w :: "'x world_scheme"
    using that by (simp add: cap_kept_def capped_registry_def registered_other)
  show "cap_kept ev tk w (w\<lparr>ctx := x\<rparr>)" "cap_kept ev tk w (w\<lparr>conn := b\<rparr>)" for x b and w :: "'x world_scheme"
    by (simp_all add: cap_kept_def)
qed

lemma capping_update: "(\<And>w. log (f w) = log w) \<Longrightarrow> keeps (cap_kept ev tk) (update f)"
  by (rule capping.keeps_update) (simp add: cap_kept_def)

lemma quiet_registered:
  assumes "keeps (log_grows (\<lambda>c. \<not> writes_registry c)) m" "m w = (r, w')"
  shows "registered ev (log w') ps = registered ev (log w) ps"
proof -
  obtain cs where "log w' = log w @ cs" "\<forall>c \<in> set cs. \<not> writes_registry c"
    using keepsD [OF assms] unfolding log_grows_def by blast
  then show ?thesis by (simp add: registered_def registry_append_other)
qed

lemma quiet_load_account [intro!]: "keeps (log_grows (\<lambda>c. \<not> writes_registry c)) (load_account ev cfg)"
  unfolding load_account_def cached_text_def by (auto intro!: keeps_log_call)

lemma quiet_load_constraints [intro!]:
  "keeps (log_grows (\<lambda>c. \<not> writes_registry c)) (load_symbol_constraints ev cfg s)"
  unfolding load_symbol_constraints_def cached_text_def by (auto intro!: keeps_log_call)

lemma quiet_balance_hint [intro!]: "keeps (log_grows (\<lambda>c. \<not> writes_registry c)) (balance_hint ev cfg)"
  unfolding balance_hint_def by auto

lemma quiet_decide: "keeps (log_grows (\<lambda>c. \<not> writes_registry c)) (decide ev cfg s)"
  unfolding decide_def by (auto split: option.splits)

text \<open>What an approval means.\<close>

lemma preflight_passed:
  assumes "preflight ev tk b w = (Inr None, w')"
  shows "exposure_verdict tk b w' = Inr None \<and> (\<exists>v. refresh ev tk w = (Inr (), v) \<and> w' = v)"
  using assms by (auto simp: preflight_def bnd_Inr_iff)

lemma sizing_decision_approved:
  assumes "sizing_decision cfg s a c = Inr d" "d_approved d"
  obtains result where
    "check_stops s c = Inr None"
    "size_position s a c (rc_risk_pct cfg) (rc_margin_cap cfg) = Some (Inr result)"
    "accepted_status (l_status result)" "d_lots d = l_lots result"
    "risk_amount_of s c (l_lots result) = Inr (d_risk d)"
  using assms
  by (auto simp: sizing_decision_def res_bind_Inr_iff accepted_status_def
      split: option.splits if_splits)

lemma decide_approved:
  assumes "decide ev cfg s w = (Inr d, w')" "d_approved d"
  obtains balance v w1 a c result where
    "balance_hint ev cfg w = (Inr balance, v)"
    "preflight ev (rc_tracker cfg) balance v = (Inr None, w1)"
    "\<exists>w2 w3. load_account ev cfg w1 = (Inr (Some a), w2) \<and>
       load_symbol_constraints ev cfg (s_symbol s) w2 = (Inr (Some c), w3)"
    "check_stops s c = Inr None"
    "size_position s a c (rc_risk_pct cfg) (rc_margin_cap cfg) = Some (Inr result)"
    "accepted_status (l_status result)" "d_lots d = l_lots result"
    "risk_amount_of s c (l_lots result) = Inr (d_risk d)"
proof -
  obtain balance v verdict w1 where b: "balance_hint ev cfg w = (Inr balance, v)"
    and p: "preflight ev (rc_tracker cfg) balance v = (Inr verdict, w1)"
    and rest: "(case verdict of
       Some why \<Rightarrow> ret (refuse why (T ''exposure limits reached''))
     | None \<Rightarrow>
         bnd (load_account ev cfg) (\<lambda>a.
         bnd (load_symbol_constraints ev cfg (s_symbol s)) (\<lambda>c.
         case (a, c) of
           (Some a, Some c) \<Rightarrow> lift_res (sizing_decision cfg s a c)
         | _ \<Rightarrow> ret (refuse ACCOUNT_DATA_UNAVAILABLE
                  (T ''mt5:account_info / symbol spec missing from Redis cache''))))) w1 = (Inr d, w')"
    using assms(1) unfolding decide_def bnd_Inr_iff by blast
  have none: "verdict = None" using rest assms(2) by (cases verdict) auto
  obtain a c w2 w3 where la: "load_account ev cfg w1 = (Inr a, w2)"
    and lc: "load_symbol_constraints ev cfg (s_symbol s) w2 = (Inr c, w3)"
    and fin: "(case (a, c) of
           (Some a, Some c) \<Rightarrow> lift_res (sizing_decision cfg s a c)
         | _ \<Rightarrow> ret (refuse ACCOUNT_DATA_UNAVAILABLE
                  (T ''mt5:account_info / symbol spec missing from Redis cache''))) w3 = (Inr d, w')"
    using rest unfolding none option.case bnd_Inr_iff by blast
  obtain a' c' where ac: "a = Some a'" "c = Some c'"
    using fin assms(2) by (auto split: option.splits)
  then have "sizing_decision cfg s a' c' = Inr d" using fin by simp
  from sizing_decision_approved [OF this assms(2)] show ?thesis
    using that [OF b p [unfolded none], of a' c'] la lc ac by metis
qed

lemma decide_below_cap:
  assumes "decide ev cfg s w = (Inr d, w')" "d_approved d" "own_registry ev"
    "tk_redis (rc_tracker cfg)" "registered ev (log w) ps"
  shows "int (length ps) < tk_max_trades (rc_tracker cfg)"
proof -
  obtain balance v w1 where b: "balance_hint ev cfg w = (Inr balance, v)"
    and p: "preflight ev (rc_tracker cfg) balance v = (Inr None, w1)"
    using decide_approved [OF assms(1,2)] by metis
  have reg: "registered ev (log v) ps" using quiet_registered [OF quiet_balance_hint b] assms(5) by simp
  have "local_positions w1 = ps"
    using preflight_passed [OF p] refresh_registered(1) [OF assms(3,4) reg] by blast
  then show ?thesis
    using preflight_passed [OF p] by (auto simp: exposure_verdict_def open_count_def split: if_splits)
qed

lemma capping_rejection: "keeps (cap_kept ev tk) (publish_rejection ev cid s d)"
  unfolding publish_rejection_def by (auto intro!: capping_update)

definition roomy_registry :: "env \<Rightarrow> tracker \<Rightarrow> ecall list \<Rightarrow> bool" where
  "roomy_registry ev tk l \<longleftrightarrow>
     (\<exists>ps. registered ev l ps \<and> int (length ps) < tk_max_trades tk)"

lemma roomy_capped: "roomy_registry ev tk l \<Longrightarrow> capped_registry ev tk l"
  unfolding roomy_registry_def capped_registry_def by fastforce

lemma roomy_bnd:
  assumes "bnd m f w = (r, w')" "keeps (log_grows (\<lambda>c. \<not> writes_registry c)) m"
    and "roomy_registry ev tk (log w)"
    and "\<And>x v. roomy_registry ev tk (log v) \<Longrightarrow> f x v = (r, w') \<Longrightarrow> capped_registry ev tk (log w')"
  shows "capped_registry ev tk (log w')"
  using assms(1)
proof (cases rule: bnd_cases)
  case (1 e)
  have "roomy_registry ev tk (log w')"
    using assms(3) quiet_registered [OF assms(2) 1(1)] by (simp add: roomy_registry_def)
  then show ?thesis by (rule roomy_capped)
next
  case (2 x v)
  have "roomy_registry ev tk (log v)"
    using assms(3) quiet_registered [OF assms(2) 2(1)] by (simp add: roomy_registry_def)
  then show ?thesis using assms(4) 2(2) by blast
qed

lemma register_capped:
  assumes "register ev tk key p w = (r, w')" "roomy_registry ev tk (log w)"
  shows "capped_registry ev tk (log w')"
proof -
  obtain ps where ps: "registered ev (log w) ps" "int (length ps) < tk_max_trades tk"
    using assms(2) unfolding roomy_registry_def by blast
  show ?thesis
  proof (cases "tk_redis tk \<and> took_effect ev (log w) (RedisHSet open_key key (position_to_json p))")
    case True
    then have "registered ev (log w') (dset ps key p)"
      using assms(1) ps(1) by (auto simp: register_def bnd_def call_run registered_def dset_encoded)
    then show ?thesis unfolding capped_registry_def using ps(2) length_dset [of ps key p]
      by (intro exI [of _ "dset ps key p"]) (auto split: if_splits)
  next
    case False
    then have "registered ev (log w') ps"
      using assms(1) ps(1) by (auto simp: register_def bnd_def call_run registered_def split: if_splits)
    then show ?thesis unfolding capped_registry_def using ps(2) by force
  qed
qed

lemma publish_order_capped:
  assumes "publish_order ev cfg cid s d w = (r, w')" "roomy_registry ev (rc_tracker cfg) (log w)"
  shows "capped_registry ev (rc_tracker cfg) (log w')"
proof (rule roomy_bnd [OF assms(1) [unfolded publish_order_def Let_def] _ assms(2)])
  show "keeps (log_grows (\<lambda>c. \<not> writes_registry c))
      (stream_fields ev (order_dump (order_of_signal s (d_lots d))) (Some cid))"
    by auto
next
  fix fs v
  assume v: "roomy_registry ev (rc_tracker cfg) (log v)"
    and run: "bnd (call ev ans_unit (XAdd exec_stream fs)) (\<lambda>_.
      bnd (register_exposure ev cfg s (order_of_signal s (d_lots d)) (d_risk d)) (\<lambda>_.
      update (\<lambda>w. w\<lparr>rk_approved := Suc (rk_approved w)\<rparr>))) v = (r, w')"
  show "capped_registry ev (rc_tracker cfg) (log w')"
  proof (rule roomy_bnd [OF run _ v])
    show "keeps (log_grows (\<lambda>c. \<not> writes_registry c)) (call ev ans_unit (XAdd exec_stream fs))"
      by (rule keeps_log_call) simp
  next
    fix u :: unit and x
    assume x: "roomy_registry ev (rc_tracker cfg) (log x)"
      and run: "bnd (register_exposure ev cfg s (order_of_signal s (d_lots d)) (d_risk d)) (\<lambda>_.
        update (\<lambda>w. w\<lparr>rk_approved := Suc (rk_approved w)\<rparr>)) x = (r, w')"
    have reg: "capped_registry ev (rc_tracker cfg) (log y)"
      if "register_exposure ev cfg s (order_of_signal s (d_lots d)) (d_risk d) x = (z, y)" for y z
    proof (rule roomy_bnd [OF that [unfolded register_exposure_def] _ x])
      show "keeps (log_grows (\<lambda>c. \<not> writes_registry c)) (call ev ans_int ReadClock)"
        by (rule keeps_log_call) simp
    qed (rule register_capped)
    show "capped_registry ev (rc_tracker cfg) (log w')"
      using run
    proof (cases rule: bnd_cases)
      case (1 e)
      then show ?thesis by (auto intro: reg)
    next
      case (2 y z)
      then show ?thesis using reg [OF 2(1)] by auto
    qed
  qed
qed

lemma risk_body_capped:
  assumes "own_registry ev" "tk_redis (rc_tracker cfg)"
  shows "keeps (cap_kept ev (rc_tracker cfg)) (risk_body ev cfg decoded cid)"
  unfolding risk_body_def
proof (rule capping.keeps_bnd [OF capping.keeps_lift], rule keeps_option [OF capping.keeps_ret])
  fix s
  let ?rest = "\<lambda>d. if d_approved d then publish_order ev cfg cid s d else publish_rejection ev cid s d"
  show "keeps (cap_kept ev (rc_tracker cfg)) (bnd (decide ev cfg s) ?rest)"
    unfolding keeps_def cap_kept_def
  proof (intro allI impI)
    fix w :: "'x risk_world_scheme" and r w'
    assume run: "bnd (decide ev cfg s) ?rest w = (r, w')"
      and "capped_registry ev (rc_tracker cfg) (log w)"
    then obtain ps where ps: "registered ev (log w) ps" "int (length ps) \<le> tk_max_trades (rc_tracker cfg)"
      unfolding capped_registry_def by blast
    from run show "capped_registry ev (rc_tracker cfg) (log w')"
    proof (cases rule: bnd_cases)
      case (1 e)
      then show ?thesis using quiet_registered [OF quiet_decide 1(1)] ps by (auto simp: capped_registry_def)
    next
      case (2 d v)
      have reg: "registered ev (log v) ps" using quiet_registered [OF quiet_decide 2(1)] ps by simp
      show ?thesis
      proof (cases "d_approved d")
        case True
        then have "roomy_registry ev (rc_tracker cfg) (log v)"
          using decide_below_cap [OF 2(1) True assms ps(1)] reg by (auto simp: roomy_registry_def)
        then show ?thesis using 2(2) True publish_order_capped by auto
      next
        case False
        then have "cap_kept ev (rc_tracker cfg) v w'"
          using 2(2) keepsD [OF capping_rejection] by fastforce
        then show ?thesis using reg ps(2) by (auto simp: cap_kept_def capped_registry_def)
      qed
    qed
  qed
qed

lemma risk_handle_capped:
  assumes "own_registry ev" "tk_redis (rc_tracker cfg)"
  shows "keeps (cap_kept ev (rc_tracker cfg)) (risk_handle ev cfg mid decoded)"
  unfolding risk_handle_def
  by (intro capping.keeps_with_correlation risk_body_capped assms capping_update) simp_all

fun deliver_signals ::
  "env \<Rightarrow> risk_config \<Rightarrow> (string \<times> fields) list \<Rightarrow> 'x risk_world_scheme \<Rightarrow> 'x risk_world_scheme" where
  "deliver_signals ev cfg [] w = w"
| "deliver_signals ev cfg ((mid, fs) # ms) w = deliver_signals ev cfg ms (snd (risk_handle ev cfg mid fs w))"

lemma deliver_signals_capped:
  assumes "own_registry ev" "tk_redis (rc_tracker cfg)"
  shows "cap_kept ev (rc_tracker cfg) w (deliver_signals ev cfg ms w)"
proof (induction ms arbitrary: w)
  case Nil
  show ?case by (simp add: capping.R_refl)
next
  case (Cons m ms)
  obtain mid fs where m: "m = (mid, fs)" by (cases m)
  obtain r v where v: "risk_handle ev cfg mid fs w = (r, v)" by (metis surj_pair)
  have "cap_kept ev (rc_tracker cfg) w v" by (rule keepsD [OF risk_handle_capped [OF assms] v])
  then show ?case using capping.R_trans [OF _ Cons [of v]] v by (simp add: m)
qed

subsection \<open>What a handled signal publishes\<close>

lemma decide_publishes_nothing: "keeps (log_grows (\<lambda>c. \<not> is_xadd c)) (decide ev cfg s)"
  unfolding decide_def balance_hint_def load_account_def load_symbol_constraints_def cached_text_def
    preflight_def refresh_def
  by (auto split: option.splits intro!: keeps_log_call keeps_log_update)

lemma order_message:
  assumes "publish_order ev cfg cid s d w = (Inr (), w')" "text_nonempty cid"
  shows "xadds (log w') = xadds (log w) @ [XAdd exec_stream
      (dset (map (\<lambda>(k, v). (k, py_str v)) (order_dump (order_of_signal s (d_lots d)))) ''correlation_id'' cid)]"
    and "rk_approved w' = Suc (rk_approved w)" "rk_rejected w' = rk_rejected w"
  using assms
  by (auto simp: publish_order_def Let_def stream_fields_def bnd_Inr_iff call_run register_exposure_def
      register_def split: if_splits)

lemma rejection_message:
  assumes "publish_rejection ev cid s d w = (Inr (), w')" "text_nonempty cid"
  shows "\<exists>why. d_reason d = Some why \<and> xadds (log w') = xadds (log w) @ [XAdd ''signal.rejected''
      (dset (map (\<lambda>(k, v). (k, py_str v)) (rejection_payload s why (d_detail d))) ''correlation_id'' cid)]"
    and "rk_approved w' = rk_approved w" "rk_rejected w' = Suc (rk_rejected w)"
  using assms
  by (auto simp: publish_rejection_def stream_fields_def bnd_Inr_iff call_run split: option.splits)

definition same_counters :: "'x risk_world_scheme \<Rightarrow> 'x risk_world_scheme \<Rightarrow> bool" where
  "same_counters w w' \<longleftrightarrow> rk_approved w' = rk_approved w \<and> rk_rejected w' = rk_rejected w \<and>
     rk_processed w' = rk_processed w"

interpretation counting: call_relation same_counters "\<lambda>c. True"
  by unfold_locales (auto simp: same_counters_def)

lemma decide_counters: "keeps same_counters (decide ev cfg s)"
proof -
  have "keeps same_counters (update (\<lambda>w. w\<lparr>local_positions := ps\<rparr>))" for ps
    by (rule counting.keeps_update) (simp add: same_counters_def)
  then show ?thesis
    unfolding decide_def balance_hint_def load_account_def load_symbol_constraints_def cached_text_def
      preflight_def refresh_def
    by (auto split: option.splits)
qed

lemma risk_body_answers:
  assumes "risk_body ev cfg decoded cid w = (Inr (), w')" "text_nonempty cid"
    and "parse_signal (rc_codec cfg) decoded = Inr (Some s)"
  shows "\<exists>d v. decide ev cfg s w = (Inr d, v) \<and>
    (if d_approved d
     then xadds (log w') = xadds (log w) @ [XAdd exec_stream (dset (map (\<lambda>(k, v). (k, py_str v))
            (order_dump (order_of_signal s (d_lots d)))) ''correlation_id'' cid)] \<and>
          rk_approved w' = Suc (rk_approved w) \<and> rk_rejected w' = rk_rejected w
     else (\<exists>why. d_reason d = Some why \<and>
            xadds (log w') = xadds (log w) @ [XAdd ''signal.rejected'' (dset (map (\<lambda>(k, v). (k, py_str v))
              (rejection_payload s why (d_detail d))) ''correlation_id'' cid)]) \<and>
          rk_approved w' = rk_approved w \<and> rk_rejected w' = Suc (rk_rejected w))"
proof -
  obtain d v where d: "decide ev cfg s w = (Inr d, v)"
    and rest: "(if d_approved d then publish_order ev cfg cid s d else publish_rejection ev cid s d) v = (Inr (), w')"
    using assms(1,3) by (auto simp: risk_body_def bnd_Inr_iff)
  have same: "xadds (log v) = xadds (log w)" "same_counters w v"
    using silent_log [OF decide_publishes_nothing d] keepsD [OF decide_counters d] by simp_all
  show ?thesis
  proof (cases "d_approved d")
    case True
    then show ?thesis
      using d rest order_message [OF _ assms(2), of ev cfg s d v w'] same by (auto simp: same_counters_def)
  next
    case False
    then show ?thesis
      using d rest rejection_message [OF _ assms(2), of ev s d v w'] same by (auto simp: same_counters_def)
  qed
qed

lemma risk_handle_run:
  assumes "payload_correlation decoded = Some cid" "text_nonempty cid"
    and "risk_handle ev cfg mid decoded w = (r, w')"
  obtains v where "risk_body ev cfg decoded cid (w\<lparr>ctx := Some cid\<rparr>) = (r, v)" "r \<noteq> Inl Diverged"
      "w' = v\<lparr>rk_processed := Suc (rk_processed v), ctx := None\<rparr>"
  | "risk_body ev cfg decoded cid (w\<lparr>ctx := Some cid\<rparr>) = (Inl Diverged, w')" "r = Inl Diverged"
  using assms
  by (auto simp: risk_handle_def with_correlation_def get_or_create_correlation_id_def bnd_def
      bind_correlation_id_def unbind_correlation_id_def finally_do_def split: prod.splits if_splits)

subsection \<open>Where an order message comes from\<close>

lemma publish_order_xadds:
  assumes "publish_order ev cfg cid s d w = (r, w')"
  shows "xadds (log w') = xadds (log w) \<or> (\<exists>cid'. xadds (log w') = xadds (log w) @ [XAdd exec_stream
      (dset (map (\<lambda>(k, v). (k, py_str v)) (order_dump (order_of_signal s (d_lots d)))) ''correlation_id'' cid')])"
proof -
  have "keeps (log_grows (\<lambda>c. \<not> is_xadd c)) (bnd (register_exposure ev cfg s q risk) (\<lambda>_.
      update (\<lambda>w. w\<lparr>rk_approved := Suc (rk_approved w)\<rparr>)))" for q risk
    unfolding register_exposure_def register_def by (auto intro!: keeps_log_call keeps_log_update)
  note rest = silent_log [OF this]
  from assms [unfolded publish_order_def Let_def] show ?thesis
  proof (cases rule: bnd_cases)
    case (1 e)
    then show ?thesis by (simp add: stream_fields_silent)
  next
    case (2 fs v)
    have "xadds (log v) = xadds (log w)" by (rule stream_fields_silent [OF 2(1)])
    moreover obtain cid' where "fs = dset (map (\<lambda>(k, v). (k, py_str v))
        (order_dump (order_of_signal s (d_lots d)))) ''correlation_id'' cid'"
      using stream_fields_value [OF 2(1)] by blast
    moreover have "xadds (log w') = xadds (log v) @ [XAdd exec_stream fs]"
      using 2(2) by (cases rule: bnd_cases) (auto simp: call_run dest: rest)
    ultimately show ?thesis by (intro disjI2 exI [of _ cid']) simp
  qed
qed

lemma publish_rejection_xadds:
  assumes "publish_rejection ev cid s d w = (r, w')"
  shows "\<exists>cs. xadds (log w') = xadds (log w) @ cs \<and> (\<forall>fs. XAdd exec_stream fs \<notin> set cs)"
proof (cases "d_reason d")
  case None
  then show ?thesis using assms by (auto simp: publish_rejection_def)
next
  case (Some why)
  show ?thesis
    using assms [unfolded publish_rejection_def Some option.case]
  proof (cases rule: bnd_cases)
    case (1 e)
    have "xadds (log w') = xadds (log w)" by (rule stream_fields_silent [OF 1(1)])
    then show ?thesis by auto
  next
    case (2 fs v)
    have "xadds (log v) = xadds (log w)" by (rule stream_fields_silent [OF 2(1)])
    with 2(2) show ?thesis
      by (cases rule: bnd_cases) (auto simp: call_run exec_stream_def)
  qed
qed

lemma risk_body_order:
  assumes "risk_body ev cfg decoded cid w = (r, w')"
  shows "\<exists>cs. xadds (log w') = xadds (log w) @ cs \<and>
    (\<forall>fs. XAdd exec_stream fs \<in> set cs \<longrightarrow> (\<exists>s d v cid'.
       parse_signal (rc_codec cfg) decoded = Inr (Some s) \<and> decide ev cfg s w = (Inr d, v) \<and> d_approved d \<and>
       fs = dset (map (\<lambda>(k, v). (k, py_str v)) (order_dump (order_of_signal s (d_lots d)))) ''correlation_id'' cid'))"
proof -
  obtain p where p: "lift_res (parse_signal (rc_codec cfg) decoded) w = (p, w)" by simp
  show ?thesis
  proof (cases "parse_signal (rc_codec cfg) decoded")
    case (Inl e)
    then show ?thesis using assms by (auto simp: risk_body_def bnd_def)
  next
    case (Inr parsed)
    show ?thesis
    proof (cases parsed)
      case None
      then show ?thesis using assms Inr by (auto simp: risk_body_def bnd_def)
    next
      case (Some s)
      have "bnd (decide ev cfg s) (\<lambda>d. if d_approved d then publish_order ev cfg cid s d
          else publish_rejection ev cid s d) w = (r, w')"
        using assms Inr Some by (simp add: risk_body_def bnd_def)
      then show ?thesis
      proof (cases rule: bnd_cases)
        case (1 e)
        then show ?thesis using silent_log [OF decide_publishes_nothing 1(1)] by auto
      next
        case (2 d v)
        have same: "xadds (log v) = xadds (log w)" by (rule silent_log [OF decide_publishes_nothing 2(1)])
        show ?thesis
        proof (cases "d_approved d")
          case True
          then show ?thesis
            using publish_order_xadds [of ev cfg cid s d v r w'] 2 same Inr Some by fastforce
        next
          case False
          then show ?thesis
            using publish_rejection_xadds [of ev cid s d v r w'] 2 same by auto
        qed
      qed
    qed
  qed
qed

lemma risk_handle_order:
  fixes w :: "'x risk_world_scheme"
  assumes "risk_handle ev cfg mid decoded w = (r, w')" "XAdd exec_stream fs \<in> set (new_calls w w')"
  obtains s d cid and u v :: "'x risk_world_scheme" where
    "parse_signal (rc_codec cfg) decoded = Inr (Some s)" "decide ev cfg s u = (Inr d, v)" "d_approved d"
    "fs = dset (map (\<lambda>(k, v). (k, py_str v)) (order_dump (order_of_signal s (d_lots d)))) ''correlation_id'' cid"
  using assms(1) [unfolded risk_handle_def]
proof (cases rule: with_correlation_cases)
  case (1 e)
  then have "log_grows (\<lambda>c. \<not> is_xadd c) w w'"
    by (auto intro: keepsD [OF lgc.keeps_get_or_create])
  then show ?thesis using assms(2) log_grows_new_calls by fastforce
next
  case (2 cid l s v)
  let ?u = "w\<lparr>log := log w @ l, ctx := Some cid\<rparr>"
  have lg: "log w' = log v"
    by (rule finally_unbind_log [OF 2(3)]) simp
  obtain cs where cs: "xadds (log v) = xadds (log ?u) @ cs" and
    all: "\<forall>fs. XAdd exec_stream fs \<in> set cs \<longrightarrow> (\<exists>s d v cid'.
       parse_signal (rc_codec cfg) decoded = Inr (Some s) \<and> decide ev cfg s ?u = (Inr d, v) \<and> d_approved d \<and>
       fs = dset (map (\<lambda>(k, v). (k, py_str v)) (order_dump (order_of_signal s (d_lots d)))) ''correlation_id'' cid')"
    using risk_body_order [OF 2(1)] by blast
  obtain new where new: "log w' = log w @ new"
  proof -
    have "keeps (log_grows (\<lambda>c. True)) (risk_handle ev cfg mid decoded)"
      unfolding risk_handle_def risk_body_def decide_def balance_hint_def load_account_def
        load_symbol_constraints_def cached_text_def preflight_def refresh_def publish_order_def
        publish_rejection_def register_exposure_def register_def Let_def
      by (intro lgc.keeps_with_correlation)
        (auto split: option.splits intro!: keeps_log_call keeps_log_update)
    from keepsD [OF this assms(1)] show ?thesis using that by (auto simp: log_grows_def)
  qed
  have "xadds l = []" using 2(2) by auto
  then have "xadds (log w') = xadds (log w) @ cs" using cs lg by simp
  then have "xadds new = cs" using new by simp
  moreover have "XAdd exec_stream fs \<in> set (xadds new)"
    using assms(2) new by (simp add: new_calls_def xadds_def)
  ultimately show ?thesis using all that by blast
qed

definition same_processed :: "'x risk_world_scheme \<Rightarrow> 'x risk_world_scheme \<Rightarrow> bool" where
  "same_processed w w' \<longleftrightarrow> rk_processed w' = rk_processed w"

interpretation unprocessed: call_relation same_processed "\<lambda>c. True"
  by unfold_locales (auto simp: same_processed_def)

lemma unprocessed_update: "(\<And>w. rk_processed (f w) = rk_processed w) \<Longrightarrow> keeps same_processed (update f)"
  by (rule unprocessed.keeps_update) (simp add: same_processed_def)

lemma body_not_processed: "keeps same_processed (risk_body ev cfg decoded cid)"
  unfolding risk_body_def decide_def balance_hint_def load_account_def load_symbol_constraints_def
    cached_text_def preflight_def refresh_def publish_order_def publish_rejection_def
    register_exposure_def register_def Let_def
  by (auto split: option.splits intro!: unprocessed_update)

subsection \<open>Properties\<close>

text \<open>
  C19. The number of registered open positions never exceeds \<open>max_open_trades\<close>: if it does not
  before, it does not after any sequence of deliveries, whatever the caches, the streams and the
  database answer and whichever calls fail, as long as no one else writes the hash.
\<close>

theorem open_positions_capped:
  assumes "own_registry ev" "tk_redis (rc_tracker cfg)"
    and "registered ev (log w) ps" "int (length ps) \<le> tk_max_trades (rc_tracker cfg)"
  shows "\<exists>ps'. registered ev (log (deliver_signals ev cfg ms w)) ps' \<and>
    int (length ps') \<le> tk_max_trades (rc_tracker cfg)"
  using deliver_signals_capped [OF assms(1,2), of w ms] assms(3,4)
  unfolding cap_kept_def capped_registry_def by blast


text \<open>
  C21. Every valid signal is answered exactly once: a run of the handler that returns on a message
  with a valid signal adds exactly one stream entry, an order request or a rejection with its
  reason, counts it in exactly one of the two counters, counts the message as processed and
  unbinds the correlation id.
\<close>

theorem every_signal_answered:
  assumes "payload_correlation decoded = Some cid" "text_nonempty cid"
    and "parse_signal (rc_codec cfg) decoded = Inr (Some s)"
    and "risk_handle ev cfg mid decoded w = (Inr (), w')"
  shows "\<exists>strm fs. xadds (log w') = xadds (log w) @ [XAdd strm fs] \<and>
    dget fs ''signal_id'' = Some (T (s_id s)) \<and> dget fs ''correlation_id'' = Some cid \<and>
    (strm = ''order.request'' \<and> rk_approved w' = Suc (rk_approved w) \<and> rk_rejected w' = rk_rejected w \<or>
     strm = ''signal.rejected'' \<and> rk_approved w' = rk_approved w \<and> rk_rejected w' = Suc (rk_rejected w) \<and>
       (\<exists>why. dget fs ''rejected_reason'' = Some (T (rejection_value why)))) \<and>
    rk_processed w' = Suc (rk_processed w) \<and> ctx w' = None"
proof -
  from risk_handle_run [OF assms(1,2,4)] obtain v where
    b: "risk_body ev cfg decoded cid (w\<lparr>ctx := Some cid\<rparr>) = (Inr (), v)"
    and w': "w' = v\<lparr>rk_processed := Suc (rk_processed v), ctx := None\<rparr>"
    by (metis sum.distinct(1))

  obtain d u where d: "decide ev cfg s (w\<lparr>ctx := Some cid\<rparr>) = (Inr d, u)"
    and res: "if d_approved d
     then xadds (log v) = xadds (log w) @ [XAdd exec_stream (dset (map (\<lambda>(k, v). (k, py_str v))
            (order_dump (order_of_signal s (d_lots d)))) ''correlation_id'' cid)] \<and>
          rk_approved v = Suc (rk_approved w) \<and> rk_rejected v = rk_rejected w
     else (\<exists>why. d_reason d = Some why \<and>
            xadds (log v) = xadds (log w) @ [XAdd ''signal.rejected'' (dset (map (\<lambda>(k, v). (k, py_str v))
              (rejection_payload s why (d_detail d))) ''correlation_id'' cid)]) \<and>
          rk_approved v = rk_approved w \<and> rk_rejected v = Suc (rk_rejected w)"
    using risk_body_answers [OF b assms(2,3)] by (simp cong: if_cong split del: if_split) blast
  have "rk_processed w' = Suc (rk_processed w)" "ctx w' = None" "log w' = log v"
    "rk_approved w' = rk_approved v" "rk_rejected w' = rk_rejected v"
    using keepsD [OF body_not_processed b] w' by (simp_all add: same_processed_def)
  then show ?thesis
    using res
    by (cases "d_approved d")
      (auto simp: exec_stream_def order_dump_def order_of_signal_def rejection_payload_def)
qed

subsection \<open>A concrete run\<close>

definition demo_signal :: signal where
  "demo_signal = \<lparr>s_id = ''00112233445566778899aabbccddeeff'', s_created = 0, s_symbol = ''V75'',
     s_timeframe = ''M5'', s_direction = BUY, s_entry = Fin 500, s_sl = Fin 490, s_tp1 = Fin 520,
     s_tp2 = Fin 530, s_score = 6, s_max_score = 7, s_components = no_components,
     s_p_win = Some (Fin (3 / 4)), s_status = PROPOSED\<rparr>"

definition signal_codec :: codec where
  "signal_codec = strict_codec\<lparr>cd_signal := (\<lambda>v. if v = JObj (signal_dump demo_signal)
     then Inr demo_signal else Inl (ValueError ''signal''))\<rparr>"

definition spec_json :: "constraints \<Rightarrow> json dict" where
  "spec_json c = [(''volume_min'', JNum (volume_min c)), (''volume_max'', JNum (volume_max c)),
     (''volume_step'', JNum (volume_step c)), (''tick_size'', JNum (tick_size c)),
     (''tick_value'', JNum (tick_value c)), (''point'', JNum (point c)),
     (''stops_level_points'', JInt (stops_level_points c)), (''margin_per_lot'', JNum (margin_per_lot c))]"

definition cached_env :: env where
  \<comment> \<open>every call succeeds; the caches hold an account of 1000 and the contract\<close>
  "cached_env = memory_redis \<lparr>reply = (\<lambda>l c. case c of
       RedisGet k \<Rightarrow> AText (TJson (JObj (if k = account_key
         then [(''balance'', JNum (Fin 1000)), (''equity'', JNum (Fin 1000)), (''margin_free'', JNum (Fin 800))]
         else spec_json coarse_contract)))
     | ReadClock \<Rightarrow> AInt 0 | NewId \<Rightarrow> AText (T ''id'') | _ \<Rightarrow> AUnit)\<rparr>"

lemma cached_env_reply [simp]:
  "reply cached_env l (RedisGet k) = AText (TJson (JObj (if k = account_key
     then [(''balance'', JNum (Fin 1000)), (''equity'', JNum (Fin 1000)), (''margin_free'', JNum (Fin 800))]
     else spec_json coarse_contract)))"
  "reply cached_env l (RedisHGetAll open_key) = AFields (registry cached_env l)"
  "reply cached_env l (XAdd s fs) = AUnit" "reply cached_env l ReadClock = AInt 0"
  "reply cached_env l (RedisHSet h k v) = AUnit"
  by (simp_all add: cached_env_def memory_redis_def)
    (simp add: registry_memory [unfolded memory_redis_def])

definition demo_risk_config :: risk_config where
  "demo_risk_config = \<lparr>rc_tracker = demo_tracker signal_codec, rc_redis = True, rc_codec = signal_codec,
     rc_risk_pct = Fin 1, rc_margin_cap = Fin (1 / 2)\<rparr>"

definition signal_message :: fields where
  "signal_message = [(''signal'', TJson (JObj (signal_dump demo_signal))), (''correlation_id'', T ''c1'')]"

lemma demo_parse: "parse_signal (rc_codec demo_risk_config) signal_message = Inr (Some demo_signal)"
  by (simp add: parse_signal_def demo_risk_config_def signal_message_def signal_codec_def signal_dump_def)

definition demo_account :: account where
  "demo_account = \<lparr>a_balance = Fin 1000, a_equity = Fin 1000, a_margin_free = Fin 800\<rparr>"

lemma demo_account_loaded:
  "load_account cached_env demo_risk_config w = (Inr (Some demo_account), w\<lparr>log := log w @ [RedisGet account_key]\<rparr>)"
  by (simp add: load_account_def cached_text_def demo_risk_config_def bnd_def call_run parse_account_def
      json_float_item_def getitem_def none_if_malformed_def demo_account_def)

lemma demo_constraints_loaded:
  "load_symbol_constraints cached_env demo_risk_config ''V75'' w =
     (Inr (Some coarse_contract), w\<lparr>log := log w @ [RedisGet (symbol_key ''V75'')]\<rparr>)"
  by (simp add: load_symbol_constraints_def cached_text_def demo_risk_config_def bnd_def call_run
      parse_constraints_def json_float_item_def getitem_def none_if_malformed_def spec_json_def
      required_spec_fields_def dhas_def account_key_def symbol_key_def)

lemma demo_sized:
  "sizing_decision demo_risk_config demo_signal demo_account coarse_contract = Inr (approve (Fin 1) (Fin 10))"
  by (simp add: sizing_decision_def check_stops_def size_position_def compute_lots_def demo_signal_def
      demo_account_def demo_risk_config_def coarse_contract_def validate_stop_distances_def
      floor_to_step_def margin_stage_def shrink_lots.simps float_of_int_def py_div_def zero_eq_Fin
      risk_amount_of_def f64_eval)

lemma demo_decided:
  "decide cached_env demo_risk_config demo_signal (start_risk_world\<lparr>ctx := Some (T ''c1'')\<rparr>) =
     (Inr (approve (Fin 1) (Fin 10)), start_risk_world\<lparr>ctx := Some (T ''c1''),
        log := [RedisGet account_key, RedisHGetAll open_key, RedisGet account_key, RedisGet (symbol_key ''V75'')]\<rparr>)"
proof -
  have t: "rc_tracker demo_risk_config = demo_tracker signal_codec" "s_symbol demo_signal = ''V75''"
    "a_balance demo_account = Fin 1000"
    by (simp_all add: demo_risk_config_def demo_signal_def demo_account_def)
  show ?thesis
    by (simp add: decide_def balance_hint_def bnd_def demo_account_loaded demo_constraints_loaded t
        preflight_def refresh_def demo_tracker_def call_run decode_positions_def exposure_verdict_def
        open_count_def total_open_risk_def py_sum_def py_div_def demo_sized start_risk_world_def
        zero_eq_Fin f64_eval registry_def)
qed

definition demo_entry :: fields where
  "demo_entry = dset (map (\<lambda>(k, v). (k, py_str v)) (order_dump (order_of_signal demo_signal (Fin 1))))
     ''correlation_id'' (T ''c1'')"

lemma demo_handled:
  "\<exists>w. risk_handle cached_env demo_risk_config ''1-0'' signal_message start_risk_world = (Inr (), w) \<and>
     XAdd exec_stream demo_entry \<in> set (new_calls start_risk_world w)"
proof -
  have c: "payload_correlation signal_message = Some (T ''c1'')"
    by (simp add: payload_correlation_def signal_message_def)
  have t: "tk_redis (rc_tracker demo_risk_config)" "log start_risk_world = []"
    by (simp_all add: demo_risk_config_def demo_tracker_def start_risk_world_def)
  show ?thesis
    by (simp add: risk_handle_def with_correlation_def get_or_create_correlation_id_def c bnd_def
        bind_correlation_id_def unbind_correlation_id_def finally_do_def risk_body_def demo_parse
        demo_decided publish_order_def stream_fields_def call_run register_exposure_def register_def t
        new_calls_def demo_entry_def Let_def)
qed

theorem open_positions_capped_witness:
  "\<exists>ps. registered cached_env (log (deliver_signals cached_env demo_risk_config
       [(''1-0'', signal_message), (''2-0'', signal_message)] start_risk_world)) ps \<and> length ps \<le> 1"
proof -
  have "own_registry cached_env" by (simp add: cached_env_def own_memory)
  moreover have "tk_redis (rc_tracker demo_risk_config)" "tk_max_trades (rc_tracker demo_risk_config) = 1"
    by (simp_all add: demo_risk_config_def demo_tracker_def)
  ultimately show ?thesis
    using open_positions_capped [OF _ _ start_registered, of cached_env demo_risk_config
        "[(''1-0'', signal_message), (''2-0'', signal_message)]"] by auto
qed


theorem every_signal_answered_witness:
  "\<exists>w strm fs. risk_handle cached_env demo_risk_config ''1-0'' signal_message start_risk_world = (Inr (), w) \<and>
     xadds (log w) = [XAdd strm fs] \<and> dget fs ''signal_id'' = Some (T (s_id demo_signal))"
proof -
  obtain w where w: "risk_handle cached_env demo_risk_config ''1-0'' signal_message start_risk_world = (Inr (), w)"
    using demo_handled by blast
  have c: "payload_correlation signal_message = Some (T ''c1'')" "text_nonempty (T ''c1'')"
    "xadds (log start_risk_world) = []"
    by (simp_all add: payload_correlation_def signal_message_def start_risk_world_def)
  show ?thesis using w every_signal_answered [OF c(1,2) demo_parse w] c(3) by auto
qed

end
