(* ===== verification/Scoring.thy ===== *)
theory Scoring
  imports Schemas
begin

text \<open>
  \<open>vix_core/scoring.py\<close>: the confluence score, its six components and the hard gates. The
  integer score is compared with the float threshold exactly, as Python compares an \<open>int\<close>
  with a \<open>float\<close>.
\<close>

subsection \<open>Inputs and result\<close>

record confluence_inputs =
  i_direction :: direction
  i_htf_trend :: string
  i_regime :: regime_state
  i_zone_kind :: "zone_kind option"
  i_bbma :: bool
  i_rsi_divergence :: bool
  i_p_win :: "f64 option"
  i_allow_s0_fade :: bool

record confluence_result =
  c_passed :: bool
  c_score :: int
  c_max_score :: int
  c_components :: components
  c_rejections :: "pytext list"

subsection \<open>The scorer\<close>

record scorer =
  min_score :: f64
  scorer_min_p_win :: f64

definition zone_matches :: "confluence_inputs \<Rightarrow> bool" where
  "zone_matches i \<longleftrightarrow>
     i_zone_kind i \<noteq> None \<and>
     (i_direction i = BUY \<and> i_zone_kind i = Some DEMAND \<or>
      i_direction i = SELL \<and> i_zone_kind i = Some SUPPLY)"

definition trend_or_fade :: "confluence_inputs \<Rightarrow> bool" where
  "trend_or_fade i \<longleftrightarrow>
     (i_direction i = BUY \<and> i_htf_trend i = ''up'' \<or>
      i_direction i = SELL \<and> i_htf_trend i = ''down'') \<or>
     i_allow_s0_fade i \<and> i_regime i = S0_RANGE"

definition regime_fits :: "confluence_inputs \<Rightarrow> bool" where
  "regime_fits i \<longleftrightarrow>
     i_direction i = BUY \<and> i_regime i = S1_TREND_UP \<or>
     i_direction i = SELL \<and> i_regime i = S2_TREND_DOWN \<or>
     i_allow_s0_fade i \<and> i_regime i = S0_RANGE"

type_synonym tally = "components \<times> int \<times> pytext list"

text \<open>One \<open>if\<close> of the scorer: mark the component and add its weight, or note the rejection.\<close>

definition tick_component ::
  "bool \<Rightarrow> (components \<Rightarrow> components) \<Rightarrow> int \<Rightarrow> pytext \<Rightarrow> tally \<Rightarrow> tally" where
  "tick_component ok mark weight why t =
     (case t of (c, score, rej) \<Rightarrow>
        if ok then (mark c, score + weight, rej) else (c, score, rej @ [why]))"

definition scorer_evaluate :: "scorer \<Rightarrow> confluence_inputs \<Rightarrow> confluence_result" where
  "scorer_evaluate sc i =
     (let zone_ok = zone_matches i;
          t1 = tick_component zone_ok (\<lambda>c. c\<lparr>zone_touch := True\<rparr>) 2
                 (T ''no matching S/D zone touch'') (no_components, 0, []);
          t2 = tick_component (trend_or_fade i) (\<lambda>c. c\<lparr>htf_trend_aligned := True\<rparr>) 1
                 (T ''direction counter to HTF trend without fade mode'') t1;
          t3 = tick_component (i_bbma i) (\<lambda>c. c\<lparr>bbma_confirm := True\<rparr>) 1
                 (T ''BBMA confirmation missing'') t2;
          t4 = tick_component (i_rsi_divergence i) (\<lambda>c. c\<lparr>rsi_divergence := True\<rparr>) 1
                 (T ''RSI divergence missing'') t3;
          t5 = tick_component (regime_fits i) (\<lambda>c. c\<lparr>regime_ok := True\<rparr>) 1
                 (TCat [T ''HMM regime '', T (regime_value (i_regime i)), T '' blocks '',
                        T (direction_value (i_direction i))]) t4;
          t6 = tick_component
                 (case i_p_win i of None \<Rightarrow> False | Some p \<Rightarrow> scorer_min_p_win sc < p)
                 (\<lambda>c. c\<lparr>meta_label_ok := True\<rparr>) 1
                 (case i_p_win i of None \<Rightarrow> T ''meta-label missing/below threshold''
                  | Some p \<Rightarrow> TCat [T ''P(win)='', TFix 3 p, T '' <= '', TFlt (scorer_min_p_win sc)])
                 t5
      in case t6 of (c, score, rej) \<Rightarrow>
        let hard_fail = (\<not> zone_ok \<or> \<not> regime_ok c \<or>
              (case i_p_win i of None \<Rightarrow> True | Some p \<Rightarrow> p \<le> scorer_min_p_win sc));
            passed = (\<not> hard_fail \<and> min_score sc \<le> Fin (of_int score))
        in \<lparr>c_passed = passed, c_score = score, c_max_score = 7, c_components = c,
            c_rejections = rej\<rparr>)"

definition calculate_score :: "f64 \<Rightarrow> f64 \<Rightarrow> confluence_inputs \<Rightarrow> confluence_result" where
  "calculate_score min_sc min_p i =
     scorer_evaluate \<lparr>min_score = min_sc, scorer_min_p_win = min_p\<rparr> i"

subsection \<open>Weights and gates\<close>

definition weighted_score :: "components \<Rightarrow> int" where
  "weighted_score c = 2 * of_bool (zone_touch c) + of_bool (htf_trend_aligned c) +
     of_bool (bbma_confirm c) + of_bool (rsi_divergence c) + of_bool (regime_ok c) +
     of_bool (meta_label_ok c)"

definition missing_components :: "components \<Rightarrow> nat" where
  "missing_components c = length (filter Not [zone_touch c, htf_trend_aligned c, bbma_confirm c,
     rsi_divergence c, regime_ok c, meta_label_ok c])"

lemma tick_component_simps [simp]:
  "tick_component True mark w why (c, s, r) = (mark c, s + w, r)"
  "tick_component False mark w why (c, s, r) = (c, s, r @ [why])"
  by (simp_all add: tick_component_def)

lemmas tick_split = tick_component_def

lemma scorer_components:
  "c_components (scorer_evaluate sc i) =
     \<lparr>htf_trend_aligned = trend_or_fade i, zone_touch = zone_matches i, bbma_confirm = i_bbma i,
      rsi_divergence = i_rsi_divergence i, regime_ok = regime_fits i,
      meta_label_ok = (case i_p_win i of None \<Rightarrow> False | Some p \<Rightarrow> scorer_min_p_win sc < p)\<rparr>"
  by (auto simp: scorer_evaluate_def tick_component_def no_components_def Let_def)

lemma scorer_score: "c_score (scorer_evaluate sc i) = weighted_score (c_components (scorer_evaluate sc i))"
  unfolding scorer_components weighted_score_def
  by (auto simp: scorer_evaluate_def tick_component_def no_components_def Let_def)

lemma scorer_rejections:
  "length (c_rejections (scorer_evaluate sc i)) =
     missing_components (c_components (scorer_evaluate sc i))"
  unfolding scorer_components missing_components_def
  by (auto simp: scorer_evaluate_def tick_component_def no_components_def Let_def)

lemma scorer_passed:
  "c_passed (scorer_evaluate sc i) \<longleftrightarrow>
     zone_matches i \<and> regime_fits i \<and>
     (case i_p_win i of None \<Rightarrow> False | Some p \<Rightarrow> \<not> p \<le> scorer_min_p_win sc) \<and>
     min_score sc \<le> Fin (of_int (c_score (scorer_evaluate sc i)))"
  by (auto simp: scorer_evaluate_def tick_component_def no_components_def Let_def split: option.splits)

lemma weighted_score_bounds: "0 \<le> weighted_score c \<and> weighted_score c \<le> 7"
  by (auto simp: weighted_score_def)

subsection \<open>Properties\<close>

text \<open>
  C12. The score is the weighted sum of the confirmed components (zone touch counts two, the
  other five one each), it lies between 0 and the maximum of 7, and there is exactly one
  rejection text per missing component, so no rejection at all means a full score.
\<close>

theorem calculate_score_weights:
  "let r = calculate_score min_sc min_p i in
     c_score r = weighted_score (c_components r) \<and>
     0 \<le> c_score r \<and> c_score r \<le> c_max_score r \<and> c_max_score r = 7 \<and>
     length (c_rejections r) = missing_components (c_components r) \<and>
     (c_rejections r = [] \<longleftrightarrow> c_score r = c_max_score r)"
proof -
  let ?r = "calculate_score min_sc min_p i"
  have m: "c_max_score ?r = 7"
    by (simp add: calculate_score_def scorer_evaluate_def Let_def split: prod.splits)
  have s: "c_score ?r = weighted_score (c_components ?r)"
    and l: "length (c_rejections ?r) = missing_components (c_components ?r)"
    unfolding calculate_score_def by (rule scorer_score, rule scorer_rejections)
  have "missing_components c = 0 \<longleftrightarrow> weighted_score c = 7" for c
    by (auto simp: missing_components_def weighted_score_def)
  then have "c_rejections ?r = [] \<longleftrightarrow> c_score ?r = 7"
    using l s by (metis length_0_conv)
  then show ?thesis using m s l weighted_score_bounds by (simp add: Let_def)
qed


text \<open>
  C3. The meta-label gate is closed by a missing probability and by one at or below the
  threshold, but not by NaN: a NaN probability passes the hard gate although its component
  stays unconfirmed, because \<open>nan <= min_p_win\<close> is false.
\<close>

theorem nan_p_win_passes_gate:
  "c_passed (calculate_score (mk (45 / 10)) (mk (55 / 100))
     \<lparr>i_direction = BUY, i_htf_trend = ''up'', i_regime = S1_TREND_UP, i_zone_kind = Some DEMAND,
      i_bbma = True, i_rsi_divergence = False, i_p_win = Some NaN, i_allow_s0_fade = False\<rparr>) \<and>
   \<not> meta_label_ok (c_components (calculate_score (mk (45 / 10)) (mk (55 / 100))
     \<lparr>i_direction = BUY, i_htf_trend = ''up'', i_regime = S1_TREND_UP, i_zone_kind = Some DEMAND,
      i_bbma = True, i_rsi_divergence = False, i_p_win = Some NaN, i_allow_s0_fade = False\<rparr>))"
  by (simp add: calculate_score_def scorer_evaluate_def tick_component_def no_components_def
      zone_matches_def trend_or_fade_def regime_fits_def f64_eval)

end
