(* ===== verification/SignalEngine.thy ===== *)
theory SignalEngine
  imports Scoring
begin

text \<open>
  \<open>services/signal-service/app/engine.py\<close>: the confluence engine that turns an LTF snapshot
  and the market context into a signal or a list of rejections. The id that
  \<open>Signal\<close> draws from \<open>uuid4\<close> is the argument \<open>new_id\<close>.
\<close>

subsection \<open>Inputs and result\<close>

record ltf_snapshot =
  t_symbol :: string
  t_timeframe :: string
  t_ts :: int
  t_close :: f64
  t_atr :: f64
  t_rsi :: f64
  t_ema50 :: f64
  t_ema200 :: f64
  t_zones :: "zone list"

record market_context =
  m_htf_trend :: string
  m_regime :: string
  m_p_win :: "f64 option"
  m_rsi_divergence :: "bool option"

record evaluation =
  e_signal :: "signal option"
  e_score :: f64
  e_max_score :: int
  e_rejections :: "pytext list"

record signal_engine =
  g_min_confluence :: f64
  g_min_p_win :: f64
  g_allow_s0_fade :: bool
  g_sl_atr_buffer :: f64
  g_rr_tp_1 :: f64
  g_rr_tp_2 :: f64

definition default_engine :: signal_engine where
  "default_engine = \<lparr>g_min_confluence = mk (45 / 10), g_min_p_win = mk (55 / 100),
     g_allow_s0_fade = False, g_sl_atr_buffer = mk (1 / 2), g_rr_tp_1 = mk 2, g_rr_tp_2 = mk 3\<rparr>"

subsection \<open>Operations\<close>

definition htf_trend_from_emas :: "f64 \<Rightarrow> f64 \<Rightarrow> string" where
  "htf_trend_from_emas ema50 ema200 =
     (if ema200 < ema50 then ''up'' else if ema50 < ema200 then ''down'' else ''flat'')"

definition reject_evaluation :: "pytext \<Rightarrow> evaluation" where
  "reject_evaluation reason =
     \<lparr>e_signal = None, e_score = 0, e_max_score = 7, e_rejections = [reason]\<rparr>"

definition inside_zone :: "f64 \<Rightarrow> zone \<Rightarrow> bool" where
  "inside_zone price z \<longleftrightarrow> z_bottom z \<le> price \<and> price \<le> z_top z"

fun zone_touch_of :: "f64 \<Rightarrow> zone list \<Rightarrow> (zone_kind \<times> direction) option" where
  "zone_touch_of price [] = None"
| "zone_touch_of price (z # zs) =
     (if z_state z = BROKEN \<or> z_state z = MITIGATED then zone_touch_of price zs
      else if \<not> inside_zone price z then zone_touch_of price zs
      else case z_kind z of DEMAND \<Rightarrow> Some (DEMAND, BUY) | SUPPLY \<Rightarrow> Some (SUPPLY, SELL))"

definition bbma_proxy :: "ltf_snapshot \<Rightarrow> bool" where
  "bbma_proxy l \<longleftrightarrow>
     t_ema50 l \<le> t_close l \<and> t_rsi l < mk 70 \<or> t_close l \<le> t_ema50 l \<and> mk 30 < t_rsi l"

definition resolve_regime :: "string \<Rightarrow> regime_state option" where
  "resolve_regime raw = (case regime_of_value raw of Inl e \<Rightarrow> None | Inr r \<Rightarrow> Some r)"

fun zone_edge :: "zone_kind \<Rightarrow> f64 \<Rightarrow> zone list \<Rightarrow> f64" where
  "zone_edge k price [] = price"
| "zone_edge k price (z # zs) =
     (if z_kind z = k \<and> inside_zone price z
      then (case k of DEMAND \<Rightarrow> z_bottom z | SUPPLY \<Rightarrow> z_top z)
      else zone_edge k price zs)"

definition stop_and_targets ::
  "signal_engine \<Rightarrow> direction \<Rightarrow> f64 \<Rightarrow> f64 \<Rightarrow> f64 \<Rightarrow> f64 \<times> f64 \<times> f64" where
  "stop_and_targets g d entry edge a =
     (case d of
        BUY \<Rightarrow>
          let sl = py_min (edge - g_sl_atr_buffer g * a) (entry - mk (1 / 10) * a);
              risk = entry - sl
          in (sl, entry + g_rr_tp_1 g * risk, entry + g_rr_tp_2 g * risk)
      | SELL \<Rightarrow>
          let sl = py_max (edge + g_sl_atr_buffer g * a) (entry + mk (1 / 10) * a);
              risk = sl - entry
          in (sl, entry - g_rr_tp_1 g * risk, entry - g_rr_tp_2 g * risk))"

definition build_signal ::
  "signal_engine \<Rightarrow> string \<Rightarrow> ltf_snapshot \<Rightarrow> direction \<Rightarrow> zone_kind \<Rightarrow> int \<Rightarrow> components \<Rightarrow> signal" where
  "build_signal g new_id l d k score comps =
     (let entry = t_close l;
          edge = zone_edge k entry (t_zones l)
      in case stop_and_targets g d entry edge (t_atr l) of (sl, tp1, tp2) \<Rightarrow>
        \<lparr>s_id = new_id, s_created = t_ts l, s_symbol = t_symbol l, s_timeframe = t_timeframe l,
         s_direction = d, s_entry = py_round 5 entry, s_sl = py_round 5 sl,
         s_tp1 = py_round 5 tp1, s_tp2 = py_round 5 tp2, s_score = score, s_max_score = 7,
         s_components = comps, s_p_win = None, s_status = PROPOSED\<rparr>)"

definition trend_aligned :: "direction \<Rightarrow> string \<Rightarrow> bool" where
  "trend_aligned d trend \<longleftrightarrow> d = BUY \<and> trend = ''up'' \<or> d = SELL \<and> trend = ''down''"

definition engine_inputs ::
  "signal_engine \<Rightarrow> ltf_snapshot \<Rightarrow> market_context \<Rightarrow> direction \<Rightarrow> zone_kind \<Rightarrow> regime_state \<Rightarrow>
   confluence_inputs" where
  "engine_inputs g l m d k r =
     \<lparr>i_direction = d, i_htf_trend = m_htf_trend m, i_regime = r, i_zone_kind = Some k,
      i_bbma = bbma_proxy l, i_rsi_divergence = (m_rsi_divergence m = Some True),
      i_p_win = m_p_win m, i_allow_s0_fade = g_allow_s0_fade g\<rparr>"

definition engine_evaluate ::
  "signal_engine \<Rightarrow> string \<Rightarrow> ltf_snapshot \<Rightarrow> market_context \<Rightarrow> evaluation" where
  "engine_evaluate g new_id l m =
     (case zone_touch_of (t_close l) (t_zones l) of
        None \<Rightarrow> reject_evaluation (T ''no_active_zone_touch'')
      | Some (k, d) \<Rightarrow>
          (case resolve_regime (m_regime m) of
             None \<Rightarrow> reject_evaluation (TCat [T ''invalid_signal'', T '': unknown HMM regime '',
                       TRepr (JStr (T (m_regime m))), T '' (fail-closed)''])
           | Some r \<Rightarrow>
               if r = S0_RANGE \<and> \<not> g_allow_s0_fade g then
                 reject_evaluation (TCat [T ''regime_gate_blocked: '', T (regime_value r)])
               else if \<not> trend_aligned d (m_htf_trend m) \<and> \<not> g_allow_s0_fade g then
                 reject_evaluation (TCat [T ''htf_alignment_blocked: '', T (direction_value d),
                   T '' against '', T (m_htf_trend m), T '' macro trend''])
               else
                 let result = calculate_score (g_min_confluence g) (g_min_p_win g)
                       (engine_inputs g l m d k r)
                 in if \<not> c_passed result then
                      \<lparr>e_signal = None, e_score = Fin (of_int (c_score result)),
                       e_max_score = c_max_score result, e_rejections = c_rejections result\<rparr>
                    else
                      \<lparr>e_signal = Some (build_signal g new_id l d k (c_score result)
                         (c_components result)),
                       e_score = Fin (of_int (c_score result)),
                       e_max_score = c_max_score result, e_rejections = []\<rparr>))"

subsection \<open>Zones and gates\<close>

definition active_zone :: "zone \<Rightarrow> bool" where
  "active_zone z \<longleftrightarrow> z_state z = FRESH \<or> z_state z = TESTED"

fun zone_side :: "zone_kind \<Rightarrow> direction" where
  "zone_side DEMAND = BUY"
| "zone_side SUPPLY = SELL"

lemma zone_touch_ofD:
  "zone_touch_of price zs = Some (k, d) \<Longrightarrow>
     d = zone_side k \<and> (\<exists>z \<in> set zs. active_zone z \<and> inside_zone price z \<and> z_kind z = k)"
proof (induction zs)
  case (Cons z zs)
  then show ?case
    by (cases "z_state z") (auto simp: active_zone_def split: if_splits zone_kind.splits)
qed simp

lemma zone_touch_of_None:
  "zone_touch_of price zs = None \<longleftrightarrow> (\<forall>z \<in> set zs. active_zone z \<longrightarrow> \<not> inside_zone price z)"
proof (induction zs)
  case (Cons z zs)
  then show ?case
    by (cases "z_state z") (auto simp: active_zone_def split: zone_kind.splits)
qed simp

lemma zone_edge_bounds:
  assumes "price \<noteq> NaN"
  shows "zone_edge DEMAND price zs \<le> price" "price \<le> zone_edge SUPPLY price zs"
  using assms by (induction zs) (auto simp: inside_zone_def f64_le_refl)

lemma engine_evaluate_Some:
  assumes "e_signal (engine_evaluate g new_id l m) = Some s"
  obtains k d r where
    "zone_touch_of (t_close l) (t_zones l) = Some (k, d)"
    "resolve_regime (m_regime m) = Some r"
    "r = S0_RANGE \<longrightarrow> g_allow_s0_fade g"
    "trend_aligned d (m_htf_trend m) \<or> g_allow_s0_fade g"
    "c_passed (calculate_score (g_min_confluence g) (g_min_p_win g) (engine_inputs g l m d k r))"
    "s = build_signal g new_id l d k
       (c_score (calculate_score (g_min_confluence g) (g_min_p_win g) (engine_inputs g l m d k r)))
       (c_components (calculate_score (g_min_confluence g) (g_min_p_win g)
         (engine_inputs g l m d k r)))"
  using assms
  by (auto simp: engine_evaluate_def reject_evaluation_def Let_def split: option.splits if_splits)

lemma build_signal_simps [simp]:
  "s_direction (build_signal g n l d k sc cs) = d" "s_id (build_signal g n l d k sc cs) = n"
  "s_symbol (build_signal g n l d k sc cs) = t_symbol l"
  "s_timeframe (build_signal g n l d k sc cs) = t_timeframe l"
  "s_entry (build_signal g n l d k sc cs) = py_round 5 (t_close l)"
  "s_score (build_signal g n l d k sc cs) = sc" "s_max_score (build_signal g n l d k sc cs) = 7"
  "s_components (build_signal g n l d k sc cs) = cs" "s_p_win (build_signal g n l d k sc cs) = None"
  "s_status (build_signal g n l d k sc cs) = PROPOSED"
  by (simp_all add: build_signal_def Let_def split: prod.split)

subsection \<open>Stop and targets\<close>

definition good_engine :: "signal_engine \<Rightarrow> bool" where
  "good_engine g \<longleftrightarrow> is_fin (g_sl_atr_buffer g) \<and> 0 \<le> g_sl_atr_buffer g \<and> is_fin (g_rr_tp_1 g) \<and> is_fin (g_rr_tp_2 g) \<and>
     0 < g_rr_tp_1 g \<and> g_rr_tp_1 g \<le> g_rr_tp_2 g"

lemma targets_above:
  assumes "good_engine g" "is_fin e" "fok e" "0 \<le> risk"
  shows "e \<le> e + g_rr_tp_1 g * risk" "e + g_rr_tp_1 g * risk \<le> e + g_rr_tp_2 g * risk"
  using assms unfolding good_engine_def
  by (auto intro!: f64_le_add_nonneg f64_add_left_mono f64_scale_mono f64_scale_nonneg)

lemma targets_below:
  assumes "good_engine g" "is_fin e" "fok e" "0 \<le> risk"
  shows "e - g_rr_tp_1 g * risk \<le> e" "e - g_rr_tp_2 g * risk \<le> e - g_rr_tp_1 g * risk"
  using assms unfolding good_engine_def
  by (auto intro!: f64_sub_nonneg_le f64_diff_left_mono f64_scale_mono f64_scale_nonneg)

lemma shifted_not_NaN:
  assumes "is_fin c" "is_fin a" "0 \<le> a" "0 \<le> c" "b \<noteq> NaN"
  shows "b \<noteq> PInf \<Longrightarrow> b - c * a \<noteq> NaN" "b \<noteq> NInf \<Longrightarrow> b + c * a \<noteq> NaN"
  using assms mk_nonneg [of "fval c * fval a"]
  by (cases a; cases c; cases b; cases "mk (fval c * fval a)"; simp)+

lemma py_min_le_left: "a \<noteq> NaN \<Longrightarrow> b \<noteq> NaN \<Longrightarrow> py_min a b \<le> a"
  and py_min_le_right: "a \<noteq> NaN \<Longrightarrow> b \<noteq> NaN \<Longrightarrow> py_min a b \<le> b"
  and py_max_ge_left: "a \<noteq> NaN \<Longrightarrow> b \<noteq> NaN \<Longrightarrow> a \<le> py_max a b"
  and py_max_ge_right: "a \<noteq> NaN \<Longrightarrow> b \<noteq> NaN \<Longrightarrow> b \<le> py_max a b"
  using py_min_le py_max_ge by blast+

lemma tenth: "is_fin (mk (1 / 10))" "0 \<le> mk (1 / 10)"
  by (simp_all add: f64_eval)

lemma stop_below:
  assumes e: "is_fin e" "fok e" and a: "is_fin a" "0 \<le> a"
    and g: "good_engine g" and edge: "edge \<le> e"
    and t: "stop_and_targets g BUY e edge a = (sl, tp1, tp2)"
  shows "sl \<le> e" "sl \<le> edge - g_sl_atr_buffer g * a" "e \<le> tp1" "tp1 \<le> tp2"
proof -
  have n: "edge \<noteq> NaN" "edge \<noteq> PInf" "e \<noteq> NaN" "e \<noteq> PInf" using e edge by (cases e; auto)+
  have A: "edge - g_sl_atr_buffer g * a \<noteq> NaN"
    using g a n by (intro shifted_not_NaN) (simp_all add: good_engine_def)
  have B: "e - mk (1 / 10) * a \<noteq> NaN"
    using a n tenth by (intro shifted_not_NaN)
  have sl: "sl = py_min (edge - g_sl_atr_buffer g * a) (e - mk (1 / 10) * a)"
    and tp: "tp1 = e + g_rr_tp_1 g * (e - sl)" "tp2 = e + g_rr_tp_2 g * (e - sl)"
    using t by (auto simp: stop_and_targets_def Let_def)
  show "sl \<le> edge - g_sl_atr_buffer g * a" unfolding sl by (rule py_min_le_left [OF A B])
  have "sl \<le> e - mk (1 / 10) * a" unfolding sl by (rule py_min_le_right [OF A B])
  also have "\<dots> \<le> e"
    using e a tenth by (intro f64_sub_nonneg_le f64_mult_nonneg)
  finally (f64_le_trans) show le: "sl \<le> e" .
  have "0 \<le> e - sl" using le e by (intro f64_diff_nonneg) simp_all
  then show "e \<le> tp1" "tp1 \<le> tp2" unfolding tp by (rule targets_above [OF g e])+
qed

lemma stop_above:
  assumes e: "is_fin e" "fok e" and a: "is_fin a" "0 \<le> a"
    and g: "good_engine g" and edge: "e \<le> edge"
    and t: "stop_and_targets g SELL e edge a = (sl, tp1, tp2)"
  shows "e \<le> sl" "edge + g_sl_atr_buffer g * a \<le> sl" "tp1 \<le> e" "tp2 \<le> tp1"
proof -
  have n: "edge \<noteq> NaN" "edge \<noteq> NInf" "e \<noteq> NaN" "e \<noteq> NInf" using e edge by (cases e; auto)+
  have A: "edge + g_sl_atr_buffer g * a \<noteq> NaN"
    using g a n by (intro shifted_not_NaN) (simp_all add: good_engine_def)
  have B: "e + mk (1 / 10) * a \<noteq> NaN"
    using a n tenth by (intro shifted_not_NaN)
  have sl: "sl = py_max (edge + g_sl_atr_buffer g * a) (e + mk (1 / 10) * a)"
    and tp: "tp1 = e - g_rr_tp_1 g * (sl - e)" "tp2 = e - g_rr_tp_2 g * (sl - e)"
    using t by (auto simp: stop_and_targets_def Let_def)
  show "edge + g_sl_atr_buffer g * a \<le> sl" unfolding sl by (rule py_max_ge_left [OF A B])
  have "e \<le> e + mk (1 / 10) * a"
    using e a tenth by (intro f64_le_add_nonneg f64_mult_nonneg)
  also have "\<dots> \<le> sl" unfolding sl by (rule py_max_ge_right [OF A B])
  finally (f64_le_trans) show le: "e \<le> sl" .
  have "0 \<le> sl - e" using le e by (intro f64_diff_nonneg) simp_all
  then show "tp1 \<le> e" "tp2 \<le> tp1" unfolding tp by (rule targets_below [OF g e])+
qed

subsection \<open>Properties\<close>

text \<open>
  C9. The engine fails closed: it emits a signal only when an active (fresh or tested) zone
  contains the close, the regime label is one of the three known ones and fits the side, the
  macro trend agrees unless fading is on, and a win probability is present and not at or
  below the threshold; the signal goes in the direction of that zone and reaches the minimum score.
\<close>

theorem engine_signal_gated:
  assumes "e_signal (engine_evaluate g new_id l m) = Some s"
  shows "(\<exists>z \<in> set (t_zones l). (z_state z = FRESH \<or> z_state z = TESTED) \<and>
      z_bottom z \<le> t_close l \<and> t_close l \<le> z_top z \<and> s_direction s = zone_side (z_kind z)) \<and>
    (\<exists>r. m_regime m = regime_value r \<and>
      ((s_direction s, r) \<in> {(BUY, S1_TREND_UP), (SELL, S2_TREND_DOWN)} \<or>
       r = S0_RANGE \<and> g_allow_s0_fade g)) \<and>
    (trend_aligned (s_direction s) (m_htf_trend m) \<or> g_allow_s0_fade g) \<and>
    (\<exists>p. m_p_win m = Some p \<and> \<not> p \<le> g_min_p_win g) \<and>
    g_min_confluence g \<le> Fin (of_int (s_score s)) \<and> s_score s = weighted_score (s_components s)"
proof -
  obtain k d r where touch: "zone_touch_of (t_close l) (t_zones l) = Some (k, d)"
    and reg: "resolve_regime (m_regime m) = Some r"
    and trend: "trend_aligned d (m_htf_trend m) \<or> g_allow_s0_fade g"
    and pass: "c_passed (calculate_score (g_min_confluence g) (g_min_p_win g) (engine_inputs g l m d k r))"
    and s: "s = build_signal g new_id l d k
       (c_score (calculate_score (g_min_confluence g) (g_min_p_win g) (engine_inputs g l m d k r)))
       (c_components (calculate_score (g_min_confluence g) (g_min_p_win g) (engine_inputs g l m d k r)))"
    using engine_evaluate_Some [OF assms] by metis
  note gates = pass [unfolded calculate_score_def scorer_passed]
  have "m_regime m = regime_value r"
    using reg by (auto simp: resolve_regime_def regime_of_value_def split: sum.splits if_splits)
  moreover have "\<exists>z \<in> set (t_zones l). (z_state z = FRESH \<or> z_state z = TESTED) \<and>
      z_bottom z \<le> t_close l \<and> t_close l \<le> z_top z \<and> d = zone_side (z_kind z)"
    using zone_touch_ofD [OF touch] unfolding active_zone_def inside_zone_def by metis
  ultimately show ?thesis
    using gates trend scorer_score s
    by (auto simp: engine_inputs_def regime_fits_def calculate_score_def split: option.splits)
qed

definition demo_ltf :: ltf_snapshot where
  "demo_ltf = \<lparr>t_symbol = ''Volatility 75 Index'', t_timeframe = ''M15'', t_ts = 1700000000000000,
     t_close = mk 50000, t_atr = mk 100, t_rsi = mk 55, t_ema50 = mk 49900, t_ema200 = mk 49000,
     t_zones = [\<lparr>z_id = ''a1'', z_kind = DEMAND, z_top = mk 50050, z_bottom = mk 49950,
       z_created = 1690000000000000, z_state = FRESH, z_touches = 0, z_score = 2\<rparr>]\<rparr>"

definition demo_market :: market_context where
  "demo_market = \<lparr>m_htf_trend = ''up'', m_regime = ''S1_trend_up'', m_p_win = Some (mk (6 / 10)),
     m_rsi_divergence = None\<rparr>"

lemma demo_signal:
  "\<exists>s. e_signal (engine_evaluate default_engine ''ab'' demo_ltf demo_market) = Some s \<and> s_direction s = BUY"
  by (simp add: engine_evaluate_def demo_ltf_def demo_market_def default_engine_def inside_zone_def
      resolve_regime_def regime_of_value_def trend_aligned_def calculate_score_def scorer_evaluate_def
      tick_component_def no_components_def zone_matches_def trend_or_fade_def regime_fits_def
      engine_inputs_def bbma_proxy_def f64_eval)

theorem engine_signal_gated_witness:
  "\<exists>s. e_signal (engine_evaluate default_engine ''ab'' demo_ltf demo_market) = Some s \<and>
     g_min_confluence default_engine \<le> Fin (of_int (s_score s)) \<and>
     s_score s = weighted_score (s_components s)"
  using demo_signal engine_signal_gated by blast

text \<open>
  C10. On finite prices with a non-negative ATR, every signal orders its levels: the stop is on
  the losing side of the entry and at least the ATR buffer beyond the zone edge, the targets on
  the winning side with the second one no nearer than the first, after rounding to 5 decimals.
\<close>

theorem engine_levels_ordered:
  assumes "e_signal (engine_evaluate g new_id l m) = Some s" and "good_engine g"
    and "is_fin (t_close l)" "fok (t_close l)" "is_fin (t_atr l)" "0 \<le> t_atr l"
  shows "case s_direction s of
      BUY \<Rightarrow> s_sl s \<le> s_entry s \<and> s_entry s \<le> s_tp1 s \<and> s_tp1 s \<le> s_tp2 s \<and>
        s_sl s \<le> py_round 5 (zone_edge DEMAND (t_close l) (t_zones l) - g_sl_atr_buffer g * t_atr l)
    | SELL \<Rightarrow> s_entry s \<le> s_sl s \<and> s_tp1 s \<le> s_entry s \<and> s_tp2 s \<le> s_tp1 s \<and>
        py_round 5 (zone_edge SUPPLY (t_close l) (t_zones l) + g_sl_atr_buffer g * t_atr l) \<le> s_sl s"
proof -
  obtain k d sc cs where touch: "zone_touch_of (t_close l) (t_zones l) = Some (k, d)"
    and s: "s = build_signal g new_id l d k sc cs"
    using engine_evaluate_Some [OF assms(1)] by metis
  obtain sl tp1 tp2 where t:
    "stop_and_targets g d (t_close l) (zone_edge k (t_close l) (t_zones l)) (t_atr l) = (sl, tp1, tp2)"
    by (metis prod_cases3)
  have r: "s_direction s = d" "s_entry s = py_round 5 (t_close l)" "s_sl s = py_round 5 sl"
    "s_tp1 s = py_round 5 tp1" "s_tp2 s = py_round 5 tp2"
    using t by (simp_all add: s build_signal_def Let_def)
  have n: "t_close l \<noteq> NaN" using assms(3) by auto
  show ?thesis
  proof (cases k)
    case DEMAND
    with touch have "d = BUY" by (auto dest: zone_touch_ofD)
    with stop_below [OF assms(3-6,2) zone_edge_bounds(1) [OF n]] t DEMAND show ?thesis
      by (auto simp: r intro: py_round_mono)
  next
    case SUPPLY
    with touch have "d = SELL" by (auto dest: zone_touch_ofD)
    with stop_above [OF assms(3-6,2) zone_edge_bounds(2) [OF n]] t SUPPLY show ?thesis
      by (auto simp: r intro: py_round_mono)
  qed
qed

theorem engine_levels_ordered_witness:
  "\<exists>s. e_signal (engine_evaluate default_engine ''ab'' demo_ltf demo_market) = Some s \<and>
     s_direction s = BUY \<and> s_sl s \<le> s_entry s \<and> s_entry s \<le> s_tp1 s"
proof -
  obtain s where s: "e_signal (engine_evaluate default_engine ''ab'' demo_ltf demo_market) = Some s"
    "s_direction s = BUY"
    using demo_signal by blast
  have "good_engine default_engine"
    by (simp add: good_engine_def default_engine_def f64_eval)
  moreover have "is_fin (t_close demo_ltf)" "fok (t_close demo_ltf)" "is_fin (t_atr demo_ltf)"
    "0 \<le> t_atr demo_ltf"
    by (simp_all add: demo_ltf_def f64_eval)
  ultimately show ?thesis using engine_levels_ordered [OF s(1)] s by fastforce
qed

end
