(* ===== verification/SignalService.thy ===== *)
theory SignalService
  imports SignalEngine Execution Rows
begin

text \<open>
  The signal service around the engine: \<open>db.py\<close> (feature rows, trend votes, the signals table),
  the consumer \<open>feature.computed\<close> to \<open>signal.generated\<close> of \<open>consumer.py\<close> and the routes.
  \<open>Zone.model_validate\<close> is the parameter \<open>sc_zone\<close>; a symbol is literal text.
\<close>

subsection \<open>Configuration and state\<close>

record signal_config =
  sc_engine :: signal_engine
  sc_codec :: codec
  sc_zone :: "json \<Rightarrow> zone res"
  sc_ltf :: "string list"
  sc_htf :: "string list"

record signal_world = world +
  sg_processed :: nat
  sg_fired :: nat

type_synonym ('x, 'a) signal_act = "('x signal_world_ext, 'a) act"

definition signal_stream :: string where "signal_stream = ''feature.computed''"
definition signal_group :: string where "signal_group = ''signal-service''"

definition signal_service_config :: "settings \<Rightarrow> codec \<Rightarrow> (json \<Rightarrow> zone res) \<Rightarrow> signal_config" where
  "signal_service_config st cd zr = \<lparr>
     sc_engine = \<lparr>g_min_confluence = confluence_min st, g_min_p_win = min_p_win st,
       g_allow_s0_fade = allow_s0_fade st, g_sl_atr_buffer = sl_atr_buffer st,
       g_rr_tp_1 = tp_rr_1 st, g_rr_tp_2 = tp_rr_2 st\<rparr>,
     sc_codec = cd, sc_zone = zr, sc_ltf = ltf_timeframes st, sc_htf = htf_timeframes st\<rparr>"

subsection \<open>Feature rows\<close>

definition signal_db_connect :: "env \<Rightarrow> ('x, unit) act" where
  "signal_db_connect ev = db_connect ev"

definition signal_db_close :: "env \<Rightarrow> ('x, unit) act" where
  "signal_db_close ev = db_close ev"

definition signal_db_ping :: "env \<Rightarrow> ('x, bool) act" where
  "signal_db_ping ev = db_ping ev"

fun json_iter :: "json \<Rightarrow> json list res" where
  \<comment> \<open>\<open>for z in v\<close>; the characters of a text stand as one text, refused like each of them\<close>
  "json_iter (JArr vs) = Inr vs"
| "json_iter (JObj d) = Inr (map (\<lambda>(k, v). JStr (T k)) d)"
| "json_iter (JStr t) = Inr (if text_nonempty t then [JStr t] else [])"
| "json_iter v = Inl (TypeError ''not iterable'')"

definition zones_of_column :: "signal_config \<Rightarrow> json \<Rightarrow> zone list res" where
  "zones_of_column cfg raw =
     res_bind (case raw of
         JStr t \<Rightarrow> json_loads (sc_codec cfg) t
       | _ \<Rightarrow> Inr (if json_truthy raw then raw else JArr [])) (\<lambda>data.
     res_bind (json_iter data) (res_map (sc_zone cfg)))"

definition row_to_snapshot :: "signal_config \<Rightarrow> string \<Rightarrow> string \<Rightarrow> json list \<Rightarrow> ltf_snapshot res" where
  "row_to_snapshot cfg symb tf row =
     (let cd = sc_codec cfg in
      res_bind (res_bind (row_item row 0) json_ts) (\<lambda>ts.
      res_bind (res_bind (row_item row 8) (zones_of_column cfg)) (\<lambda>zones.
      res_bind (row_float cd row 1) (\<lambda>close.
      res_bind (row_float cd row 2) (\<lambda>a.
      res_bind (row_float cd row 3) (\<lambda>r.
      res_bind (row_float cd row 4) (\<lambda>e50.
      res_bind (row_float cd row 5) (\<lambda>e200.
      Inr \<lparr>t_symbol = symb, t_timeframe = tf, t_ts = ts, t_close = close, t_atr = a, t_rsi = r,
           t_ema50 = e50, t_ema200 = e200, t_zones = zones\<rparr>))))))))"

definition fetch_feature :: "env \<Rightarrow> string \<Rightarrow> string \<Rightarrow> ('x, json list option) act" where
  \<comment> \<open>\<open>_FETCH_FEATURE_SQL\<close> with \<open>fetchone\<close>\<close>
  "fetch_feature ev symb tf =
     bnd (call ev ans_rows (SqlRows ''fetch_feature'' [JStr (T symb), JStr (T tf)])) (\<lambda>rows.
     ret (case rows of [] \<Rightarrow> None | row # _ \<Rightarrow> Some row))"

definition fetch_ltf_row :: "env \<Rightarrow> signal_config \<Rightarrow> string \<Rightarrow> string \<Rightarrow> ('x, ltf_snapshot option) act" where
  "fetch_ltf_row ev cfg symb tf =
     bnd (db_ensure ev) (\<lambda>_.
     bnd (fetch_feature ev symb tf) (\<lambda>row.
     case row of
       None \<Rightarrow> ret None
     | Some r \<Rightarrow> bnd (lift_res (row_to_snapshot cfg symb tf r)) (\<lambda>l. ret (Some l))))"

definition row_vote :: "codec \<Rightarrow> json list option \<Rightarrow> string option res" where
  "row_vote cd row =
     (case row of
        None \<Rightarrow> Inr None
      | Some r \<Rightarrow>
          res_bind (row_item r 4) (\<lambda>a.
          if a = JNull then Inr None
          else res_bind (row_item r 5) (\<lambda>b.
            if b = JNull then Inr None
            else res_bind (json_float cd a) (\<lambda>e50.
                 res_bind (json_float cd b) (\<lambda>e200.
                 Inr (Some (htf_trend_from_emas e50 e200)))))))"

fun htf_votes :: "env \<Rightarrow> codec \<Rightarrow> string \<Rightarrow> string list \<Rightarrow> ('x, string list) act" where
  "htf_votes ev cd symb [] = ret []"
| "htf_votes ev cd symb (tf # tfs) =
     bnd (fetch_feature ev symb tf) (\<lambda>row.
     bnd (lift_res (row_vote cd row)) (\<lambda>vote.
     bnd (htf_votes ev cd symb tfs) (\<lambda>votes.
     ret (case vote of None \<Rightarrow> votes | Some v \<Rightarrow> v # votes))))"

definition trend_of_votes :: "string list \<Rightarrow> string" where
  "trend_of_votes votes =
     (if ''up'' \<in> set votes \<and> ''down'' \<notin> set votes then ''up''
      else if ''down'' \<in> set votes \<and> ''up'' \<notin> set votes then ''down''
      else case votes of v # _ \<Rightarrow> v | [] \<Rightarrow> ''flat'')"

definition fetch_htf_trend :: "env \<Rightarrow> codec \<Rightarrow> string \<Rightarrow> string list \<Rightarrow> ('x, string) act" where
  "fetch_htf_trend ev cd symb tfs =
     bnd (db_ensure ev) (\<lambda>_.
     bnd (htf_votes ev cd symb tfs) (\<lambda>votes. ret (trend_of_votes votes)))"

subsection \<open>The signals table\<close>

definition signal_params :: "string \<Rightarrow> signal \<Rightarrow> json list" where
  "signal_params uid s = [
     JStr (T uid), JInt (s_created s), JStr (T (s_symbol s)), JStr (T (s_timeframe s)),
     JStr (T (direction_value (s_direction s))), JNum (s_entry s), JNum (s_sl s), JNum (s_tp1 s),
     JNum (s_tp2 s), JInt (s_score s), JInt (s_max_score s), JObj (components_dump (s_components s)),
     json_opt JNum (s_p_win s)]"

definition insert_signal :: "env \<Rightarrow> signal \<Rightarrow> ('x, bool) act" where
  "insert_signal ev s =
     bnd (db_ensure ev) (\<lambda>_.
     bnd (lift_res (uuid_from_hex (s_id s))) (\<lambda>uid.
     bnd (call ev ans_int (SqlRun ''insert_signal'' (signal_params uid s))) (\<lambda>rowcount.
     ret (rowcount = 1))))"

definition history_keys :: "string list" where
  "history_keys = [''id'', ''created_ts'', ''symbol'', ''ltf_timeframe'', ''direction'', ''entry'', ''sl'',
     ''tp1'', ''tp2'', ''score'', ''max_score'', ''p_win'', ''status'']"

definition signal_history :: "env \<Rightarrow> string option \<Rightarrow> int \<Rightarrow> ('x, json dict list) act" where
  "signal_history ev symb limit =
     (let p = json_opt (\<lambda>s. JStr (T s)) symb in
      bnd (db_ensure ev) (\<lambda>_.
      bnd (call ev ans_rows (SqlRows ''signal_history'' [p, p, JInt limit])) (\<lambda>rows.
      lift_res (res_map (zip_strict history_keys) rows))))"

subsection \<open>Market context\<close>

definition regime_or_unknown :: "pytext \<Rightarrow> string" where
  \<comment> \<open>\<open>try: RegimeState(candidate).value except ValueError: "unknown"\<close>\<close>
  "regime_or_unknown t =
     (case text_plain t of
        None \<Rightarrow> ''unknown''
      | Some s \<Rightarrow> (case regime_of_value s of Inl e \<Rightarrow> ''unknown'' | Inr r \<Rightarrow> regime_value r))"

definition cached_regime :: "codec \<Rightarrow> pytext option \<Rightarrow> string res" where
  "cached_regime cd raw =
     (case raw of
        None \<Rightarrow> Inr ''unknown''
      | Some t \<Rightarrow>
          res_bind (json_loads cd t) (\<lambda>data.
          res_bind (json_get data ''regime'') (\<lambda>v.
          Inr (regime_or_unknown (case v of None \<Rightarrow> T '''' | Some x \<Rightarrow> py_str x)))))"

fun json_number :: "json \<Rightarrow> bool" where
  \<comment> \<open>\<open>isinstance(v, (int, float))\<close>; \<open>bool\<close> is a subclass of \<open>int\<close>\<close>
  "json_number (JInt n) = True"
| "json_number (JNum x) = True"
| "json_number (JBool b) = True"
| "json_number v = False"

definition cached_p_win :: "codec \<Rightarrow> pytext option \<Rightarrow> f64 option res" where
  "cached_p_win cd raw =
     (case raw of
        None \<Rightarrow> Inr None
      | Some t \<Rightarrow>
          res_bind (json_loads cd t) (\<lambda>meta.
          res_bind (json_get meta ''p_up'') (\<lambda>up.
          res_bind (json_get meta ''p_down'') (\<lambda>down.
          case (up, down) of
            (Some u, Some d) \<Rightarrow>
              if json_number u \<and> json_number d then
                res_bind (json_float cd u) (\<lambda>pu.
                res_bind (json_float cd d) (\<lambda>pd.
                res_bind (py_div pu (py_max (pu + pd) (mk (1 / 1000000000)))) (\<lambda>p.
                Inr (Some p))))
              else Inr None
          | _ \<Rightarrow> Inr None))))"

definition market_context_of :: "env \<Rightarrow> signal_config \<Rightarrow> string \<Rightarrow> ('x, market_context) act" where
  "market_context_of ev cfg symb =
     bnd (call ev ans_text (RedisGet ''regime:current'')) (\<lambda>regime_raw.
     bnd (call ev ans_text (RedisGet ''meta_label:current'')) (\<lambda>meta_raw.
     bnd (lift_res (cached_regime (sc_codec cfg) regime_raw)) (\<lambda>regime.
     bnd (lift_res (cached_p_win (sc_codec cfg) meta_raw)) (\<lambda>p_win.
     bnd (fetch_htf_trend ev (sc_codec cfg) symb (sc_htf cfg)) (\<lambda>trend.
     ret \<lparr>m_htf_trend = trend, m_regime = regime, m_p_win = p_win, m_rsi_divergence = None\<rparr>)))))"

subsection \<open>The consumer\<close>

definition plain_field :: "fields \<Rightarrow> string \<Rightarrow> string res" where
  \<comment> \<open>\<open>decoded.get(k, "")\<close>\<close>
  "plain_field decoded k =
     (case dget decoded k of
        None \<Rightarrow> Inr ''''
      | Some t \<Rightarrow> (case text_plain t of Some s \<Rightarrow> Inr s | None \<Rightarrow> Inl BadAnswer))"

definition draw_evaluation ::
  "env \<Rightarrow> signal_engine \<Rightarrow> ltf_snapshot \<Rightarrow> market_context \<Rightarrow> ('x, evaluation) act" where
  \<comment> \<open>\<open>engine.evaluate\<close>; the id is drawn when the signal is built\<close>
  "draw_evaluation ev g l m =
     (if e_signal (engine_evaluate g '''' l m) = None then ret (engine_evaluate g '''' l m)
      else bnd (call ev ans_text NewId) (\<lambda>t.
           case t of
             Some (T n) \<Rightarrow> ret (engine_evaluate g n l m)
           | _ \<Rightarrow> throw BadAnswer))"

definition publish_signal :: "env \<Rightarrow> pytext \<Rightarrow> signal \<Rightarrow> ('x, unit) signal_act" where
  "publish_signal ev cid s =
     bnd (insert_signal ev s) (\<lambda>_.
     bnd (stream_fields ev [(''signal'', JStr (TJson (JObj (signal_dump s))))] (Some cid)) (\<lambda>fs.
     bnd (call ev ans_unit (XAdd ''signal.generated'' fs)) (\<lambda>_.
     update (\<lambda>w. w\<lparr>sg_processed := Suc (sg_processed w), sg_fired := Suc (sg_fired w)\<rparr>))))"

definition signal_body :: "env \<Rightarrow> signal_config \<Rightarrow> fields \<Rightarrow> pytext \<Rightarrow> ('x, unit) signal_act" where
  "signal_body ev cfg decoded cid =
     bnd (lift_res (plain_field decoded ''symbol'')) (\<lambda>symb.
     bnd (lift_res (plain_field decoded ''timeframe'')) (\<lambda>tf.
     if tf \<notin> set (sc_ltf cfg) then ret ()
     else
       bnd (market_context_of ev cfg symb) (\<lambda>market.
       bnd (fetch_ltf_row ev cfg symb tf) (\<lambda>ltf.
       case ltf of
         None \<Rightarrow> ret ()
       | Some l \<Rightarrow>
           bnd (draw_evaluation ev (sc_engine cfg) l market) (\<lambda>evaluation.
           case e_signal evaluation of
             None \<Rightarrow> ret ()
           | Some s \<Rightarrow> publish_signal ev cid s)))))"

definition signal_handle :: "env \<Rightarrow> signal_config \<Rightarrow> string \<Rightarrow> fields \<Rightarrow> ('x, unit) signal_act" where
  "signal_handle ev cfg message_id decoded =
     with_correlation ev decoded (signal_body ev cfg decoded) (ret ())"

definition signal_drain :: "env \<Rightarrow> signal_config \<Rightarrow> ('x, nat) signal_act" where
  "signal_drain ev cfg = drain_stream ev signal_stream signal_group (signal_handle ev cfg)"

definition signal_run_once :: "env \<Rightarrow> signal_config \<Rightarrow> ('x, nat) signal_act" where
  "signal_run_once ev cfg = consumer_run_once ev signal_stream signal_group (signal_handle ev cfg)"

definition signal_run_forever :: "env \<Rightarrow> signal_config \<Rightarrow> f64 \<Rightarrow> nat \<Rightarrow> ('x, unit) signal_act" where
  "signal_run_forever ev cfg poll n =
     consumer_run_forever ev signal_stream signal_group poll (signal_handle ev cfg) n"

subsection \<open>Routes\<close>

definition signal_health :: "env \<Rightarrow> ('x, json dict) signal_act" where
  "signal_health ev =
     bnd (signal_db_ping ev) (\<lambda>ok.
     look (\<lambda>w. [
       (''service'', JStr (T ''signal-service'')),
       (''status'', JStr (T (if ok then ''ok'' else ''degraded''))),
       (''database'', JStr (T (if ok then ''up'' else ''down''))),
       (''events_processed'', JInt (int (sg_processed w))),
       (''signals_fired'', JInt (int (sg_fired w)))]))"

definition history_route :: "env \<Rightarrow> string option \<Rightarrow> int \<Rightarrow> ('x, json dict) act" where
  "history_route ev symb limit =
     bnd (signal_history ev symb limit) (\<lambda>rows.
     ret [(''count'', JInt (int (length rows))), (''signals'', JArr (map JObj rows))])"

subsection \<open>What a published signal rests on\<close>

lemma log_act: "\<And>c. keeps (log_grows P) (call ev rd c)" if "\<And>c. P c"
  by (rule keeps_log_call) (rule that)

lemma grows_htf_votes [intro!]:
  "(\<And>n ps. P (SqlRows n ps)) \<Longrightarrow> keeps (log_grows P) (htf_votes ev cd symb tfs)"
  by (induction tfs) (auto simp: fetch_feature_def split: option.split)

lemma grows_market [intro!]:
  "(\<And>n ps. P (SqlRows n ps)) \<Longrightarrow> (\<And>n ps. P (SqlRun n ps)) \<Longrightarrow> (\<And>k. P (RedisGet k)) \<Longrightarrow>
     keeps (log_grows P) (market_context_of ev cfg symb)"
  unfolding market_context_of_def fetch_htf_trend_def by auto

lemma grows_ltf_row [intro!]:
  "(\<And>n ps. P (SqlRows n ps)) \<Longrightarrow> (\<And>n ps. P (SqlRun n ps)) \<Longrightarrow> keeps (log_grows P) (fetch_ltf_row ev cfg symb tf)"
  unfolding fetch_ltf_row_def fetch_feature_def by (auto split: list.split)

lemma grows_draw [intro!]: "P NewId \<Longrightarrow> keeps (log_grows P) (draw_evaluation ev g l m)"
  unfolding draw_evaluation_def by (auto split: pytext.split)

lemma grows_publish [intro!]:
  "(\<And>n ps. P (SqlRun n ps)) \<Longrightarrow> P NewId \<Longrightarrow> (\<And>s fs. P (XAdd s fs)) \<Longrightarrow>
     keeps (log_grows P) (publish_signal ev cid s)"
  unfolding publish_signal_def insert_signal_def by (auto intro!: keeps_log_update)

lemma grows_signal_body: "keeps (log_grows (\<lambda>c. True)) (signal_body ev cfg decoded cid)"
  unfolding signal_body_def by auto

lemma draw_evaluation_Some:
  assumes "draw_evaluation ev g l m w = (Inr u, w')" "e_signal u = Some s"
  shows "\<exists>n. u = engine_evaluate g n l m"
proof (cases "e_signal (engine_evaluate g '''' l m) = None")
  case True
  then show ?thesis using assms by (auto simp: draw_evaluation_def)
next
  case False
  then obtain t v where "(case t of Some (T n) \<Rightarrow> ret (engine_evaluate g n l m) | _ \<Rightarrow> throw BadAnswer) v = (Inr u, w')"
    using assms(1) unfolding draw_evaluation_def if_not_P [OF False] bnd_Inr_iff by blast
  then show ?thesis by (cases t) (auto split: pytext.splits)
qed

lemma market_context_regime:
  assumes "market_context_of ev cfg symb w = (Inr m, w')"
  shows "\<exists>raw. ans_text (reply ev (log w) (RedisGet ''regime:current'')) = Inr raw \<and>
    cached_regime (sc_codec cfg) raw = Inr (m_regime m)"
  using assms by (auto simp: market_context_of_def bnd_Inr_iff call_run)

lemma stream_fields_log:
  assumes "stream_fields ev p c w = (r, w')"
  shows "\<exists>mid. w' = w\<lparr>log := log w @ mid\<rparr> \<and> (mid = [] \<or> mid = [NewId])"
proof -
  have "w' = w\<lparr>log := log w @ []\<rparr> \<or> w' = w\<lparr>log := log w @ [NewId]\<rparr>"
    using assms by (auto simp: stream_fields_def new_correlation_id_def bnd_def call_run
        split: option.splits if_splits sum.splits)
  then show ?thesis by blast
qed

lemma insert_signal_run:
  assumes "insert_signal ev s w = (Inr b, v)"
  shows "\<exists>uid pre. uuid_from_hex (s_id s) = Inr uid \<and> log v = log w @ pre @ [SqlRun ''insert_signal'' (signal_params uid s)]"
proof -
  obtain u uid n where u: "db_ensure ev w = (Inr (), u)" "uuid_from_hex (s_id s) = Inr uid"
    "call ev ans_int (SqlRun ''insert_signal'' (signal_params uid s)) u = (Inr n, v)"
    using assms by (auto simp: insert_signal_def bnd_Inr_iff)
  then show ?thesis using db_ensure_frame [OF u(1)] by (auto simp: call_run)
qed

lemma publish_signal_emits:
  assumes "publish_signal ev cid s w = (r, w')" "XAdd strm fs \<in> set (new_calls w w')"
  shows "\<exists>uid pre mid. uuid_from_hex (s_id s) = Inr uid \<and> strm = ''signal.generated'' \<and>
    dget fs ''signal'' = Some (TJson (JObj (signal_dump s))) \<and>
    new_calls w w' = pre @ SqlRun ''insert_signal'' (signal_params uid s) # mid @ [XAdd strm fs] \<and>
    (mid = [] \<or> mid = [NewId])"
proof -
  obtain b u where u: "insert_signal ev s w = (Inr b, u)"
    and r1: "bnd (stream_fields ev [(''signal'', JStr (TJson (JObj (signal_dump s))))] (Some cid)) (\<lambda>fs.
      bnd (call ev ans_unit (XAdd ''signal.generated'' fs)) (\<lambda>_.
      update (\<lambda>w. w\<lparr>sg_processed := Suc (sg_processed w), sg_fired := Suc (sg_fired w)\<rparr>))) u = (r, w')"
    and e1: "XAdd strm fs \<in> set (new_calls u w')"
    by (rule bnd_emits [OF assms(1) [unfolded publish_signal_def] assms(2), of is_xadd])
      (auto simp: insert_signal_def intro!: keeps_log_update)
  obtain gs v where v: "stream_fields ev [(''signal'', JStr (TJson (JObj (signal_dump s))))] (Some cid) u = (Inr gs, v)"
    and r2: "bnd (call ev ans_unit (XAdd ''signal.generated'' gs)) (\<lambda>_.
      update (\<lambda>w. w\<lparr>sg_processed := Suc (sg_processed w), sg_fired := Suc (sg_fired w)\<rparr>)) v = (r, w')"
    and e2: "XAdd strm fs \<in> set (new_calls v w')"
    by (rule bnd_emits [OF r1 e1, of is_xadd]) (auto intro!: keeps_log_update)
  have w': "log w' = log v @ [XAdd ''signal.generated'' gs]"
    using r2 by (auto simp: bnd_def call_run split: sum.splits)
  obtain mid where mid: "log v = log u @ mid" "mid = [] \<or> mid = [NewId]" using stream_fields_log [OF v] by auto
  obtain uid pre where ins: "uuid_from_hex (s_id s) = Inr uid"
    "log u = log w @ pre @ [SqlRun ''insert_signal'' (signal_params uid s)]"
    using insert_signal_run [OF u] by blast
  have "strm = ''signal.generated''" "fs = gs" using e2 w' by (auto simp: new_calls_def)
  moreover have "dget gs ''signal'' = Some (TJson (JObj (signal_dump s)))" using stream_fields_value [OF v] by auto
  moreover have "new_calls w w' = pre @ SqlRun ''insert_signal'' (signal_params uid s) # mid @ [XAdd ''signal.generated'' gs]"
    using w' mid(1) ins(2) by (simp add: new_calls_def)
  ultimately show ?thesis using ins(1) mid(2) by blast
qed

lemma signal_body_emits:
  fixes w :: "'x signal_world_scheme"
  assumes "signal_body ev cfg decoded cid w = (r, w')" "XAdd strm fs \<in> set (new_calls w w')"
  obtains symb m l n s and u v :: "'x signal_world_scheme" where
    "market_context_of ev cfg symb w = (Inr m, u)"
    "e_signal (engine_evaluate (sc_engine cfg) n l m) = Some s"
    "publish_signal ev cid s v = (r, w')" "XAdd strm fs \<in> set (new_calls v w')"
    "\<exists>pre. log v = log w @ pre"
proof -
  let ?draw = "\<lambda>m l. bnd (draw_evaluation ev (sc_engine cfg) l m) (\<lambda>e.
      case e_signal e of None \<Rightarrow> ret () | Some s \<Rightarrow> publish_signal ev cid s) :: ('x, unit) signal_act"
  let ?row = "\<lambda>m ltf. case ltf of None \<Rightarrow> ret () | Some l \<Rightarrow> ?draw m l"
  obtain symb tf where run: "bnd (market_context_of ev cfg symb) (\<lambda>m. bnd (fetch_ltf_row ev cfg symb tf) (?row m)) w = (r, w')"
    using assms by (cases "plain_field decoded ''symbol''"; cases "plain_field decoded ''timeframe''")
      (auto simp: signal_body_def bnd_def new_calls_def split: if_splits)
  obtain m w1 where m: "market_context_of ev cfg symb w = (Inr m, w1)"
    and r1: "bnd (fetch_ltf_row ev cfg symb tf) (?row m) w1 = (r, w')" and e1: "XAdd strm fs \<in> set (new_calls w1 w')"
    by (rule bnd_emits [OF run assms(2), of is_xadd]) auto
  obtain ltf w2 where f: "fetch_ltf_row ev cfg symb tf w1 = (Inr ltf, w2)"
    and r2: "?row m ltf w2 = (r, w')" and e2: "XAdd strm fs \<in> set (new_calls w2 w')"
    by (rule bnd_emits [OF r1 e1, of is_xadd]) auto
  obtain l where l: "ltf = Some l" using r2 e2 by (cases ltf) (auto simp: new_calls_def)
  obtain u w3 where d: "draw_evaluation ev (sc_engine cfg) l m w2 = (Inr u, w3)"
    and r3: "(case e_signal u of None \<Rightarrow> ret () | Some s \<Rightarrow> publish_signal ev cid s) w3 = (r, w')"
    and e3: "XAdd strm fs \<in> set (new_calls w3 w')"
    by (rule bnd_emits [OF r2 [unfolded l option.case] e2, of is_xadd]) auto
  obtain s where s: "e_signal u = Some s" using r3 e3 by (cases "e_signal u") (auto simp: new_calls_def)
  obtain n where n: "u = engine_evaluate (sc_engine cfg) n l m" using draw_evaluation_Some [OF d s] by blast
  let ?any = "log_grows (\<lambda>c. True) :: 'x signal_world_scheme \<Rightarrow> 'x signal_world_scheme \<Rightarrow> bool"
  have "keeps ?any (market_context_of ev cfg symb)" "keeps ?any (fetch_ltf_row ev cfg symb tf)"
    "keeps ?any (draw_evaluation ev (sc_engine cfg) l m)" by auto
  from this [THEN keepsD] m f d have "?any w w1" "?any w1 w2" "?any w2 w3" by blast+
  then have "\<exists>pre. log w3 = log w @ pre" by (auto simp: log_grows_def)
  then show ?thesis using that [OF m, of n l s w3] s n r3 e3 by simp
qed

lemma regime_or_unknown_values: "regime_or_unknown t = ''unknown'' \<or> (\<exists>r. regime_or_unknown t = regime_value r)"
  by (auto simp: regime_or_unknown_def split: option.splits sum.splits)

lemma cached_regime_values:
  "cached_regime cd raw = Inr v \<Longrightarrow> v = ''unknown'' \<or> (\<exists>r. v = regime_value r)"
  using regime_or_unknown_values by (auto simp: cached_regime_def res_bind_Inr_iff split: option.splits)

lemma unknown_unresolved [simp]: "resolve_regime ''unknown'' = None"
  by (simp add: resolve_regime_def regime_of_value_def)

subsection \<open>Properties\<close>


text \<open>
  The counters of the service move together: over any deliveries \<open>events_processed\<close> and
  \<open>signals_fired\<close> grow by the same amount, so an event that fires no signal is never counted.
\<close>

definition counts_together :: "'x signal_world_scheme \<Rightarrow> 'x signal_world_scheme \<Rightarrow> bool" where
  "counts_together w w' \<longleftrightarrow> sg_processed w' + sg_fired w = sg_fired w' + sg_processed w"

interpretation together: call_relation counts_together "\<lambda>c. True"
  by unfold_locales (auto simp: counts_together_def)

lemma together_votes [intro!]: "keeps counts_together (htf_votes ev cd symb tfs)"
proof (induction tfs)
  case Nil
  show ?case unfolding htf_votes.simps by (rule together.keeps_ret)
next
  case (Cons tf tfs)
  then show ?case unfolding htf_votes.simps fetch_feature_def by (auto split: option.split)
qed

lemma together_handle: "keeps counts_together (signal_handle ev cfg mid decoded)"
proof -
  have "keeps counts_together (update (\<lambda>w. w\<lparr>sg_processed := Suc (sg_processed w), sg_fired := Suc (sg_fired w)\<rparr>))"
    by (rule together.keeps_update) (simp add: counts_together_def)
  then show ?thesis
    unfolding signal_handle_def signal_body_def market_context_of_def fetch_htf_trend_def
      fetch_ltf_row_def fetch_feature_def draw_evaluation_def publish_signal_def insert_signal_def
    by (auto split: option.split list.split pytext.split)
qed

fun deliver_features ::
  "env \<Rightarrow> signal_config \<Rightarrow> (string \<times> fields) list \<Rightarrow> 'x signal_world_scheme \<Rightarrow> 'x signal_world_scheme" where
  "deliver_features ev cfg [] w = w"
| "deliver_features ev cfg ((mid, fs) # ms) w = deliver_features ev cfg ms (snd (signal_handle ev cfg mid fs w))"

lemma processed_counts_only_signals:
  "counts_together w (deliver_features ev cfg ms w)"
proof (induction ms arbitrary: w)
  case (Cons m ms)
  obtain mid fs where m: "m = (mid, fs)" by (cases m)
  obtain r v where v: "signal_handle ev cfg mid fs w = (r, v)" by (metis surj_pair)
  have "counts_together w v" by (rule keepsD [OF together_handle v])
  then show ?case using together.R_trans [OF _ Cons [of v]] v by (simp add: m)
qed (simp add: together.R_refl)

text \<open>Mixed votes: the first timeframe asked wins, which by default is H4.\<close>

lemma mixed_votes_first: "trend_of_votes (''up'' # ''down'' # vs) = ''up''"
  by (simp add: trend_of_votes_def)

subsection \<open>A concrete run\<close>

definition demo_row_json :: "json list" where
  "demo_row_json = [JInt (t_ts demo_ltf), JNum (t_close demo_ltf), JNum (t_atr demo_ltf), JNum (t_rsi demo_ltf),
     JNum (t_ema50 demo_ltf), JNum (t_ema200 demo_ltf), JNull, JNull,
     JArr (map (\<lambda>z. JObj (zone_dump z)) (t_zones demo_ltf))]"

definition demo_signal_config :: signal_config where
  "demo_signal_config = \<lparr>sc_engine = default_engine,
     sc_codec = \<lparr>cd_json = (\<lambda>t. Inl JSONDecodeError), cd_float = (\<lambda>t. Inl (ValueError ''float'')),
       cd_int = (\<lambda>t. Inl (ValueError ''int'')), cd_signal = (\<lambda>v. Inl (ValueError ''signal'')),
       cd_order = (\<lambda>v. Inl (ValueError ''order''))\<rparr>,
     sc_zone = (\<lambda>v. if v = JObj (zone_dump (hd (t_zones demo_ltf))) then Inr (hd (t_zones demo_ltf))
                    else Inl (ValueError ''zone'')),
     sc_ltf = [''M15''], sc_htf = [''H4'']\<rparr>"

definition features_env :: "string \<Rightarrow> env" where
  "features_env regime = \<lparr>reply = (\<lambda>l c. case c of
       RedisGet k \<Rightarrow> if k = ''regime:current'' then AText (TJson (JObj [(''regime'', JStr (T regime))]))
         else AText (TJson (JObj [(''p_up'', JNum (Fin (3 / 4))), (''p_down'', JNum (Fin (1 / 4)))]))
     | SqlRows n ps \<Rightarrow> ARows [demo_row_json]
     | SqlRun n ps \<Rightarrow> AInt (if n = ''closed'' then 0 else 1)
     | NewId \<Rightarrow> AText (T ''00112233445566778899aabbccddeeff'') | _ \<Rightarrow> AUnit)\<rparr>"

definition feature_message :: fields where
  "feature_message = [(''symbol'', T ''Volatility 75 Index''), (''timeframe'', T ''M15''),
     (''correlation_id'', T ''c1'')]"

definition start_signal_world :: signal_world where
  "start_signal_world = \<lparr>log = [], ctx = None, conn = False, sg_processed = 0, sg_fired = 0\<rparr>"

definition demo_context :: market_context where
  "demo_context = \<lparr>m_htf_trend = ''up'', m_regime = ''S1_trend_up'', m_p_win = Some (Fin (3 / 4)),
     m_rsi_divergence = None\<rparr>"

lemma features_ensure [simp]:
  "db_ensure (features_env r) w =
    (Inr (), w\<lparr>log := log w @ [SqlRun (if conn w then ''closed'' else ''connect'') []], conn := True\<rparr>)"
  by (rule db_ensure_steady) (simp_all add: features_env_def)

lemma features_feature [simp]:
  "fetch_feature (features_env r) symb tf w =
    (Inr (Some demo_row_json), w\<lparr>log := log w @ [SqlRows ''fetch_feature'' [JStr (T symb), JStr (T tf)]]\<rparr>)"
  by (simp add: fetch_feature_def bnd_def call_run features_env_def)

lemma demo_context_read:
  "\<exists>v. market_context_of (features_env ''S1_trend_up'') demo_signal_config symb w = (Inr demo_context, v)"
proof -
  have "reply (features_env ''S1_trend_up'') l (RedisGet k) =
      (if k = ''regime:current'' then AText (TJson (JObj [(''regime'', JStr (T ''S1_trend_up''))]))
       else AText (TJson (JObj [(''p_up'', JNum (Fin (3 / 4))), (''p_down'', JNum (Fin (1 / 4)))])))" for l k
    by (simp add: features_env_def)
  then show ?thesis
    by (simp add: market_context_of_def bnd_def call_run demo_signal_config_def
      cached_regime_def cached_p_win_def regime_or_unknown_def regime_of_value_def fetch_htf_trend_def
      row_vote_def row_item_def demo_row_json_def demo_ltf_def htf_trend_from_emas_def
      trend_of_votes_def demo_context_def py_div_def zero_eq_Fin py_max_def f64_eval)
qed

lemma demo_row_read:
  "\<exists>v. fetch_ltf_row (features_env r) demo_signal_config ''Volatility 75 Index'' ''M15'' w = (Inr (Some demo_ltf), v)"
  by (simp add: fetch_ltf_row_def bnd_def row_to_snapshot_def
      row_item_def row_float_def zones_of_column_def demo_signal_config_def demo_row_json_def demo_ltf_def
      zone_dump_def eval_nat_numeral)

lemma demo_fires:
  "\<exists>s. e_signal (engine_evaluate default_engine n demo_ltf demo_context) = Some s \<and> s_id s = n"
  by (simp add: engine_evaluate_def demo_ltf_def demo_context_def default_engine_def inside_zone_def
      resolve_regime_def regime_of_value_def trend_aligned_def calculate_score_def scorer_evaluate_def
      tick_component_def no_components_def zone_matches_def trend_or_fade_def regime_fits_def
      engine_inputs_def bbma_proxy_def f64_eval)

definition generated_entry :: "signal \<Rightarrow> fields" where
  "generated_entry s = [(''signal'', TJson (JObj (signal_dump s))), (''correlation_id'', T ''c1'')]"

definition demo_id :: string where "demo_id = ''00112233445566778899aabbccddeeff''"

lemma demo_drawn:
  "\<exists>v. draw_evaluation (features_env r) default_engine demo_ltf demo_context w =
     (Inr (engine_evaluate default_engine demo_id demo_ltf demo_context), v)"
proof -
  obtain s where "e_signal (engine_evaluate default_engine '''' demo_ltf demo_context) = Some s" using demo_fires by blast
  then show ?thesis by (simp add: draw_evaluation_def bnd_def call_run features_env_def demo_id_def)
qed

lemma demo_announced:
  assumes "s_id s = demo_id"
  shows "\<exists>v pre. publish_signal (features_env r) (T ''c1'') s w = (Inr (), v) \<and>
     log v = pre @ [XAdd ''signal.generated'' (generated_entry s)]"
proof -
  obtain uid where uid: "uuid_from_hex (s_id s) = Inr uid"
    unfolding assms demo_id_def by (simp add: uuid_from_hex_def hex_digits_def)
  have "reply (features_env r) l (SqlRun ''insert_signal'' ps) = AInt 1" "reply (features_env r) l (XAdd t fs) = AUnit" for l ps t fs
    by (simp_all add: features_env_def)
  then show ?thesis
    using uid by (simp add: publish_signal_def insert_signal_def stream_fields_def bnd_def call_run generated_entry_def)
qed

lemma demo_published:
  "\<exists>w n s. signal_handle (features_env ''S1_trend_up'') demo_signal_config ''1-0'' feature_message start_signal_world =
     (Inr (), w) \<and> e_signal (engine_evaluate default_engine n demo_ltf demo_context) = Some s \<and>
     XAdd ''signal.generated'' (generated_entry s) \<in> set (new_calls start_signal_world w)"
proof -
  let ?ev = "features_env ''S1_trend_up''" and ?u = "start_signal_world\<lparr>ctx := Some (T ''c1'')\<rparr>"
  have c: "payload_correlation feature_message = Some (T ''c1'')"
    "plain_field feature_message ''symbol'' = Inr ''Volatility 75 Index''"
    "plain_field feature_message ''timeframe'' = Inr ''M15''" "''M15'' \<in> set (sc_ltf demo_signal_config)"
    "sc_engine demo_signal_config = default_engine"
    by (simp_all add: payload_correlation_def feature_message_def plain_field_def demo_signal_config_def)
  obtain s where s: "e_signal (engine_evaluate default_engine demo_id demo_ltf demo_context) = Some s" "s_id s = demo_id"
    using demo_fires by blast
  obtain v1 where m: "market_context_of ?ev demo_signal_config ''Volatility 75 Index'' ?u = (Inr demo_context, v1)"
    using demo_context_read by blast
  obtain v2 where f: "fetch_ltf_row ?ev demo_signal_config ''Volatility 75 Index'' ''M15'' v1 = (Inr (Some demo_ltf), v2)"
    using demo_row_read by blast
  obtain v3 where d: "draw_evaluation ?ev default_engine demo_ltf demo_context v2 =
      (Inr (engine_evaluate default_engine demo_id demo_ltf demo_context), v3)"
    using demo_drawn by blast
  obtain v pre where p: "publish_signal ?ev (T ''c1'') s v3 = (Inr (), v)"
    "log v = pre @ [XAdd ''signal.generated'' (generated_entry s)]"
    using demo_announced [OF s(2)] by blast
  have "signal_body ?ev demo_signal_config feature_message (T ''c1'') ?u = (Inr (), v)"
    using c m f d s(1) p(1) by (simp add: signal_body_def bnd_def)
  then have "signal_handle ?ev demo_signal_config ''1-0'' feature_message start_signal_world = (Inr (), v\<lparr>ctx := None\<rparr>)"
    using c by (simp add: signal_handle_def with_correlation_def get_or_create_correlation_id_def bnd_def
        bind_correlation_id_def unbind_correlation_id_def finally_do_def)
  moreover have "XAdd ''signal.generated'' (generated_entry s) \<in> set (new_calls start_signal_world (v\<lparr>ctx := None\<rparr>))"
    using p(2) by (simp add: new_calls_def start_signal_world_def)
  ultimately show ?thesis using s(1) by blast
qed


end
