(* ===== verification/Artifacts.thy ===== *)
theory Artifacts
  imports Prelude
begin

text \<open>
  \<open>vix_core/artifacts.py\<close>: model files with a SHA-256 sidecar, loaded only when the digest
  matches. A file system is a dictionary from normalised paths to bytes (a \<open>char\<close> is a byte).
  \<open>hashlib.sha256\<close>, \<open>joblib\<close> and UTF-8 decoding are the parameters of \<open>artifact_lib\<close>.
\<close>

subsection \<open>Files and paths\<close>

type_synonym files = "string dict"

record 'o artifact_lib =
  al_digest :: "string \<Rightarrow> string"           \<comment> \<open>\<open>sha256(bytes).hexdigest()\<close>\<close>
  al_dump :: "'o \<Rightarrow> string res"             \<comment> \<open>\<open>joblib.dump\<close>\<close>
  al_load :: "string \<Rightarrow> 'o res"             \<comment> \<open>\<open>joblib.load\<close>\<close>
  al_decode :: "string \<Rightarrow> string res"       \<comment> \<open>UTF-8 decoding\<close>

definition path_name :: "string \<Rightarrow> string" where
  "path_name p = rev (takeWhile (\<lambda>c. c \<noteq> CHR ''/'') (rev p))"

definition path_suffix :: "string \<Rightarrow> string" where
  \<comment> \<open>\<open>Path.suffix\<close>: from the last dot of the name, unless it is its first or last character\<close>
  "path_suffix p =
     (let n = path_name p; t = takeWhile (\<lambda>c. c \<noteq> CHR ''.'') (rev n) in
      if length t + 1 < length n \<and> t \<noteq> [] then CHR ''.'' # rev t else [])"

definition with_suffix :: "string \<Rightarrow> string \<Rightarrow> string" where
  "with_suffix p s = take (length p - length (path_suffix p)) p @ s"

definition artifact_target :: "string \<Rightarrow> string" where
  "artifact_target p =
     (if path_suffix p \<noteq> ''.joblib'' then with_suffix p ''.joblib'' else p)"

definition sidecar_of :: "string \<Rightarrow> string" where
  \<comment> \<open>\<open>target.with_name(target.name + ".sha256")\<close>\<close>
  "sidecar_of p = p @ ''.sha256''"

subsection \<open>Operations\<close>

definition artifact_digest :: "'o artifact_lib \<Rightarrow> string \<Rightarrow> files \<Rightarrow> string res" where
  "artifact_digest lib path fs =
     (case dget fs path of
        None \<Rightarrow> Inl (RuntimeError ''FileNotFoundError'')
      | Some bytes \<Rightarrow> Inr (al_digest lib bytes))"

definition manifest_line :: "string \<Rightarrow> string \<Rightarrow> string" where
  "manifest_line digest name = digest @ ''  '' @ name @ [CHR 0x0A]"

text \<open>The writes of \<open>save_artifact\<close>, in order, so that a crash between them can be stated.\<close>

definition save_writes :: "'o artifact_lib \<Rightarrow> 'o \<Rightarrow> string \<Rightarrow> (string \<times> string) list res" where
  "save_writes lib obj path =
     (let target = artifact_target path in
      res_bind (al_dump lib obj) (\<lambda>bytes.
      Inr [(target, bytes),
           (sidecar_of target, manifest_line (al_digest lib bytes) (path_name target))]))"

definition apply_writes :: "(string \<times> string) list \<Rightarrow> files \<Rightarrow> files" where
  "apply_writes ws fs = foldl (\<lambda>d (p, b). dset d p b) fs ws"

definition save_artifact :: "'o artifact_lib \<Rightarrow> 'o \<Rightarrow> string \<Rightarrow> files \<Rightarrow> (string \<times> files) res" where
  "save_artifact lib obj path fs =
     res_bind (save_writes lib obj path) (\<lambda>ws. Inr (artifact_target path, apply_writes ws fs))"

definition is_space :: "char \<Rightarrow> bool" where
  "is_space c \<longleftrightarrow> c \<in> {CHR '' '', CHR 0x09, CHR 0x0A, CHR 0x0B, CHR 0x0C, CHR 0x0D,
     CHR 0x1C, CHR 0x1D, CHR 0x1E, CHR 0x1F}"

definition strip :: "string \<Rightarrow> string" where
  "strip s = rev (dropWhile is_space (rev (dropWhile is_space s)))"

definition is_hex :: "char \<Rightarrow> bool" where
  "is_hex c \<longleftrightarrow> c \<in> set ''0123456789abcdefABCDEF''"

definition is_word :: "char \<Rightarrow> bool" where
  \<comment> \<open>\<open>\w\<close>; bytes above 127 belong to letters or symbols that the manifest never holds\<close>
  "is_word c \<longleftrightarrow> c \<in> set ''0123456789abcdefghijklmnopqrstuvwxyzABCDEFGHIJKLMNOPQRSTUVWXYZ_''"

definition lower_hex :: "char \<Rightarrow> char" where
  "lower_hex c =
     (case map_of (zip ''ABCDEF'' ''abcdef'') c of None \<Rightarrow> c | Some d \<Rightarrow> d)"

definition read_expected_digest :: "'o artifact_lib \<Rightarrow> string \<Rightarrow> string res" where
  "read_expected_digest lib bytes =
     res_bind (al_decode lib bytes) (\<lambda>raw.
       let s = strip raw in
       if 64 \<le> length s \<and> list_all is_hex (take 64 s) \<and> (length s = 64 \<or> \<not> is_word (s ! 64))
       then Inr (map lower_hex (take 64 s))
       else Inl (ArtifactIntegrityError ''malformed checksum manifest''))"

definition verify_artifact :: "'o artifact_lib \<Rightarrow> string \<Rightarrow> files \<Rightarrow> unit res" where
  "verify_artifact lib path fs =
     (if \<not> dhas fs path then Inl (ArtifactIntegrityError ''artifact missing'')
      else case dget fs (sidecar_of path) of
        None \<Rightarrow> Inl (ArtifactIntegrityError ''checksum sidecar missing'')
      | Some side \<Rightarrow>
          res_bind (read_expected_digest lib side) (\<lambda>expected.
          res_bind (artifact_digest lib path fs) (\<lambda>actual.
          if expected = actual then Inr ()
          else Inl (ArtifactIntegrityError ''checksum mismatch''))))"

definition load_artifact :: "'o artifact_lib \<Rightarrow> string \<Rightarrow> files \<Rightarrow> 'o res" where
  "load_artifact lib path fs =
     res_bind (verify_artifact lib path fs) (\<lambda>_.
     case dget fs path of
       None \<Rightarrow> Inl (RuntimeError ''FileNotFoundError'')
     | Some bytes \<Rightarrow> al_load lib bytes)"

subsection \<open>The manifest\<close>

definition hex_digest :: "string \<Rightarrow> bool" where
  \<comment> \<open>64 lower-case hexadecimal digits\<close>
  "hex_digest d \<longleftrightarrow> length d = 64 \<and> set d \<subseteq> set ''0123456789abcdef''"

definition ascii :: "string \<Rightarrow> bool" where
  "ascii s \<longleftrightarrow> (\<forall>c \<in> set s. of_char c < (128 :: nat))"

text \<open>The documented behaviour of the libraries that the store relies on.\<close>

definition sound_lib :: "'o artifact_lib \<Rightarrow> bool" where
  "sound_lib lib \<longleftrightarrow> (\<forall>b. hex_digest (al_digest lib b)) \<and>
     (\<forall>s. ascii s \<longrightarrow> al_decode lib s = Inr s) \<and>
     (\<forall>x b. al_dump lib x = Inr b \<longrightarrow> al_load lib b = Inr x)"

lemma hex_chars:
  assumes "c \<in> set ''0123456789abcdef''"
  shows "is_hex c" "\<not> is_space c" "lower_hex c = c" "of_char c < (128 :: nat)"
  using assms by (auto simp: is_hex_def is_space_def lower_hex_def)

lemma strip_manifest:
  assumes "hex_digest d" "name \<noteq> []" "\<forall>c \<in> set name. \<not> is_space c"
  shows "strip (manifest_line d name) = d @ ''  '' @ name"
proof -
  obtain c cs where d: "d = c # cs" using assms(1) by (cases d) (auto simp: hex_digest_def)
  have "\<not> is_space c" using assms(1) hex_chars(2) by (auto simp: d hex_digest_def)
  then have l: "dropWhile is_space (manifest_line d name) = manifest_line d name"
    by (simp add: manifest_line_def d)
  obtain x xs where n: "name = xs @ [x]" using assms(2) by (metis rev_exhaust)
  have "\<not> is_space x" "is_space (CHR 0x0A)" using assms(3) by (simp_all add: n is_space_def)
  then show ?thesis by (simp add: strip_def l) (simp add: manifest_line_def n)
qed

lemma read_manifest:
  assumes "sound_lib lib" "hex_digest d" "name \<noteq> []" "\<forall>c \<in> set name. \<not> is_space c" "ascii name"
  shows "read_expected_digest lib (manifest_line d name) = Inr d"
proof -
  have sub: "set d \<subseteq> set ''0123456789abcdef''" and len: "length d = 64"
    using assms(2) by (simp_all only: hex_digest_def)
  have hex: "\<forall>c \<in> set d. is_hex c \<and> lower_hex c = c" using sub hex_chars(1,3) by blast
  have "\<forall>c \<in> set d. of_char c < (128 :: nat)" using sub hex_chars(4) by blast
  then have "ascii (manifest_line d name)"
    using assms(5) by (auto simp: ascii_def manifest_line_def)
  then have dec: "al_decode lib (manifest_line d name) = Inr (manifest_line d name)"
    using assms(1) by (simp add: sound_lib_def)
  let ?s = "d @ ''  '' @ name"
  have "(d @ ''  '' @ name) ! 64 = CHR '' ''" using len by (simp add: nth_append)
  then have "\<not> is_word (?s ! 64)" by (simp only: is_word_def) simp
  moreover have "map lower_hex d = d" using hex by (simp add: map_idI)
  moreover have "take 64 ?s = d" "64 \<le> length ?s" using len by simp_all
  moreover have "Ball (set d) is_hex" using hex by blast
  ultimately show ?thesis
    unfolding read_expected_digest_def dec res_bind_simps Let_def strip_manifest [OF assms(2-4)]
    by (simp only: list_all_iff if_True simp_thms) (rule if_P)
qed

lemma sidecar_neq [simp]: "sidecar_of p \<noteq> p" "p \<noteq> sidecar_of p"
  by (simp_all add: sidecar_of_def)

lemma dhas_dset [simp]: "dhas (dset d k v) k' \<longleftrightarrow> k' = k \<or> dhas d k'"
  by (simp add: dhas_dget)

subsection \<open>Properties\<close>

text \<open>
  C24. What is saved is what is loaded: after \<open>save_artifact\<close> returns, loading the path it
  returned verifies the checksum and gives the saved object, whatever files there were before,
  and it leaves every other file alone.
\<close>

theorem artifact_roundtrip:
  assumes "sound_lib lib" "save_artifact lib obj path fs = Inr (target, fs')"
    and "path_name target \<noteq> []" "\<forall>c \<in> set (path_name target). \<not> is_space c" "ascii (path_name target)"
  shows "load_artifact lib target fs' = Inr obj \<and>
    (\<forall>p. p \<noteq> target \<and> p \<noteq> sidecar_of target \<longrightarrow> dget fs' p = dget fs p)"
proof -
  obtain b where b: "al_dump lib obj = Inr b" "target = artifact_target path"
    and fs': "fs' = dset (dset fs target b) (sidecar_of target)
        (manifest_line (al_digest lib b) (path_name target))"
    using assms(2)
    by (auto simp: save_artifact_def save_writes_def apply_writes_def res_bind_Inr_iff Let_def)
  have "read_expected_digest lib (manifest_line (al_digest lib b) (path_name target)) = Inr (al_digest lib b)"
    by (rule read_manifest) (use assms in \<open>simp_all add: sound_lib_def\<close>)
  moreover have "al_load lib b = Inr obj" using assms(1) b(1) by (simp add: sound_lib_def)
  ultimately show ?thesis
    by (simp add: fs' load_artifact_def verify_artifact_def artifact_digest_def)
qed

text \<open>Loading fails closed: an object comes only from bytes whose digest the sidecar states.\<close>

lemma load_fails_closed:
  assumes "load_artifact lib path fs = Inr obj"
  shows "\<exists>bytes side. dget fs path = Some bytes \<and> dget fs (sidecar_of path) = Some side \<and>
    read_expected_digest lib side = Inr (al_digest lib bytes) \<and> al_load lib bytes = Inr obj"
  using assms
  by (auto simp: load_artifact_def verify_artifact_def artifact_digest_def res_bind_Inr_iff
      split: if_splits option.splits)


text \<open>A library with a constant digest, for the concrete runs.\<close>

definition plain_lib :: "string artifact_lib" where
  "plain_lib = \<lparr>al_digest = (\<lambda>b. replicate 64 (CHR ''a'')), al_dump = Inr, al_load = Inr,
     al_decode = (\<lambda>s. if ascii s then Inr s else Inl (ValueError ''utf-8''))\<rparr>"

lemma plain_sound: "sound_lib plain_lib"
  by (auto simp: sound_lib_def plain_lib_def hex_digest_def)

theorem artifact_roundtrip_witness:
  "\<exists>fs. save_artifact plain_lib ''weights'' ''models/m'' [] = Inr (''models/m.joblib'', fs) \<and>
     load_artifact plain_lib ''models/m.joblib'' fs = Inr ''weights''"
proof -
  have t: "artifact_target ''models/m'' = ''models/m.joblib''"
    by (simp add: artifact_target_def path_suffix_def path_name_def with_suffix_def)
  have n: "path_name ''models/m.joblib'' = ''m.joblib''" by (simp add: path_name_def)
  obtain fs where fs: "save_artifact plain_lib ''weights'' ''models/m'' [] = Inr (''models/m.joblib'', fs)"
    by (simp add: save_artifact_def save_writes_def t plain_lib_def Let_def)
  have "path_name ''models/m.joblib'' \<noteq> []" "\<forall>c \<in> set (path_name ''models/m.joblib''). \<not> is_space c"
    "ascii (path_name ''models/m.joblib'')"
    by (simp_all add: n is_space_def ascii_def)
  from artifact_roundtrip [OF plain_sound fs this] fs show ?thesis by blast
qed


end
