(* ===== verification/MetaLabel.thy ===== *)
theory MetaLabel
  imports Schemas Artifacts
begin

text \<open>
  \<open>services/ml-service/app/meta_label.py\<close> and \<open>hmm.py\<close>: triple-barrier labels as the vectorised
  scan computes them, the design matrices, training with its checks, and inference. A one
  dimensional numpy array is a list, a matrix a list of rows; the numeric kernels of numpy
  (sine, cosine, logarithm, standard deviation), hmmlearn and LightGBM are the parameters of
  \<open>ml_lib\<close>.
\<close>

subsection \<open>Triple-barrier labels\<close>

definition vertical_bars :: nat where "vertical_bars = 12"
definition atr_mult :: f64 where "atr_mult = Fin 2"

definition mark_hits :: "nat \<Rightarrow> bool list \<Rightarrow> f64 list \<Rightarrow> f64 list" where
  \<comment> \<open>\<open>step[valid][hit & ~isfinite(step[valid])] = k\<close> with \<open>valid = slice(0, len(hit))\<close>\<close>
  "mark_hits k hits steps =
     map2 (\<lambda>h s. if h \<and> \<not> is_fin s then Fin (of_nat k) else s) hits (take (length hits) steps) @
     drop (length hits) steps"

definition barrier_pass ::
  "f64 list \<Rightarrow> f64 list \<Rightarrow> f64 list \<Rightarrow> nat \<Rightarrow> f64 list \<times> f64 list \<Rightarrow> f64 list \<times> f64 list" where
  "barrier_pass close upper lower k st =
     (case st of (up_step, dn_step) \<Rightarrow>
        let future_close = drop k close;
            hit_up = map2 (\<lambda>c u. u \<le> c) future_close (take (length close - k) upper);
            hit_dn = map2 (\<lambda>c l. c \<le> l) future_close (take (length close - k) lower)
        in (mark_hits k hit_up up_step, mark_hits k hit_dn dn_step))"

fun barrier_scan ::
  "f64 list \<Rightarrow> f64 list \<Rightarrow> f64 list \<Rightarrow> nat list \<Rightarrow> f64 list \<times> f64 list \<Rightarrow> f64 list \<times> f64 list" where
  "barrier_scan close upper lower [] st = st"
| "barrier_scan close upper lower (k # ks) st =
     (if length close \<le> k then st
      else barrier_scan close upper lower ks (barrier_pass close upper lower k st))"

definition barrier_label :: "f64 \<Rightarrow> f64 \<Rightarrow> int" where
  \<comment> \<open>\<open>labels[up_first] = 1; labels[dn_first] = -1\<close>\<close>
  "barrier_label up dn =
     (let has_up = is_fin up; has_dn = is_fin dn;
          up_first = has_up \<and> (\<not> has_dn \<or> up \<le> dn);
          dn_first = has_dn \<and> (\<not> has_up \<or> dn < up)
      in if dn_first then -1 else if up_first then 1 else 0)"

definition apply_triple_barrier :: "nat \<Rightarrow> f64 \<Rightarrow> f64 list \<Rightarrow> f64 list \<Rightarrow> int list res" where
  "apply_triple_barrier horizon mult close atr_values =
     (if length close \<noteq> length atr_values then Inl (ValueError ''close/atrs shape mismatch'')
      else
        let n = length close;
            upper = map2 (\<lambda>c a. c + mult * a) close atr_values;
            lower = map2 (\<lambda>c a. c - mult * a) close atr_values
        in case barrier_scan close upper lower [1..<Suc horizon] (replicate n PInf, replicate n PInf) of
             (up_step, dn_step) \<Rightarrow> Inr (map2 barrier_label up_step dn_step))"

subsection \<open>The scan computes first contacts\<close>

text \<open>The reference: one bar at a time, the first later close outside the two barriers.\<close>

definition first_contact :: "(nat \<Rightarrow> bool) \<Rightarrow> nat \<Rightarrow> nat option" where
  "first_contact hit horizon = find_first hit [1..<Suc horizon]"

definition reference_label :: "nat \<Rightarrow> f64 \<Rightarrow> f64 list \<Rightarrow> f64 list \<Rightarrow> nat \<Rightarrow> int" where
  "reference_label horizon mult close atr_values t =
     (let up = close ! t + mult * atr_values ! t;
          dn = close ! t - mult * atr_values ! t;
          ahead = (\<lambda>k. t + k < length close)
      in case first_contact (\<lambda>k. ahead k \<and> (up \<le> close ! (t + k) \<or> close ! (t + k) \<le> dn)) horizon of
           None \<Rightarrow> 0
         | Some k \<Rightarrow> if up \<le> close ! (t + k) then 1 else -1)"

definition contact_step :: "nat option \<Rightarrow> f64" where
  "contact_step r = (case r of None \<Rightarrow> PInf | Some k \<Rightarrow> Fin (of_nat k))"

lemma length_mark_hits [simp]: "length (mark_hits k hits steps) = max (length steps) (min (length hits) (length steps))"
  by (simp add: mark_hits_def)

lemma nth_mark_hits:
  "t < length steps \<Longrightarrow> length hits \<le> length steps \<Longrightarrow> mark_hits k hits steps ! t =
     (if t < length hits \<and> hits ! t \<and> \<not> is_fin (steps ! t) then Fin (of_nat k) else steps ! t)"
  by (auto simp: mark_hits_def nth_append min_def)

lemma find_first_append:
  "find_first P (xs @ ys) = (case find_first P xs of None \<Rightarrow> find_first P ys | Some x \<Rightarrow> Some x)"
  by (induction xs) auto

lemma first_contact_Suc:
  "first_contact hit (Suc k) =
     (case first_contact hit k of None \<Rightarrow> if hit (Suc k) then Some (Suc k) else None | Some j \<Rightarrow> Some j)"
  unfolding first_contact_def by (simp add: find_first_append split: option.split)

definition up_contact :: "f64 list \<Rightarrow> f64 list \<Rightarrow> nat \<Rightarrow> nat \<Rightarrow> bool" where
  "up_contact close upper t k \<longleftrightarrow> t + k < length close \<and> upper ! t \<le> close ! (t + k)"

definition dn_contact :: "f64 list \<Rightarrow> f64 list \<Rightarrow> nat \<Rightarrow> nat \<Rightarrow> bool" where
  "dn_contact close lower t k \<longleftrightarrow> t + k < length close \<and> close ! (t + k) \<le> lower ! t"

definition scanned :: "f64 list \<Rightarrow> f64 list \<Rightarrow> f64 list \<Rightarrow> nat \<Rightarrow> f64 list \<times> f64 list \<Rightarrow> bool" where
  "scanned close upper lower k st \<longleftrightarrow> length (fst st) = length close \<and> length (snd st) = length close \<and>
     (\<forall>t < length close. fst st ! t = contact_step (first_contact (up_contact close upper t) k) \<and>
        snd st ! t = contact_step (first_contact (dn_contact close lower t) k))"

lemma contact_step_fin [simp]: "is_fin (contact_step r) \<longleftrightarrow> r \<noteq> None"
  by (cases r) (simp_all add: contact_step_def)

lemma mark_step:
  assumes "length hits \<le> length steps" "t < length steps"
    and "steps ! t = contact_step (first_contact hit k)"
    and "hit (Suc k) \<longleftrightarrow> t < length hits \<and> hits ! t"
  shows "mark_hits (Suc k) hits steps ! t = contact_step (first_contact hit (Suc k))"
  using assms by (auto simp: nth_mark_hits first_contact_Suc contact_step_def split: option.splits)

lemma pass_scanned:
  assumes "scanned close upper lower k st" "length upper = length close" "length lower = length close"
    and "Suc k < length close"
  shows "scanned close upper lower (Suc k) (barrier_pass close upper lower (Suc k) st)"
proof -
  obtain ups dns where st: "st = (ups, dns)" by (cases st)
  let ?hu = "map2 (\<lambda>c u. u \<le> c) (drop (Suc k) close) (take (length close - Suc k) upper)"
  let ?hd = "map2 (\<lambda>c l. c \<le> l) (drop (Suc k) close) (take (length close - Suc k) lower)"
  have len: "length ups = length close" "length dns = length close" using assms(1) by (simp_all add: st scanned_def)
  have lh: "length ?hu = length close - Suc k" "length ?hd = length close - Suc k"
    using assms(2,3) by simp_all
  have "mark_hits (Suc k) ?hu ups ! t = contact_step (first_contact (up_contact close upper t) (Suc k))"
    "mark_hits (Suc k) ?hd dns ! t = contact_step (first_contact (dn_contact close lower t) (Suc k))"
    if t: "t < length close" for t
  proof -
    have "up_contact close upper t (Suc k) \<longleftrightarrow> t < length ?hu \<and> ?hu ! t"
      "dn_contact close lower t (Suc k) \<longleftrightarrow> t < length ?hd \<and> ?hd ! t"
      using assms(2-4) t by (auto simp: up_contact_def dn_contact_def add.commute)
    moreover have "ups ! t = contact_step (first_contact (up_contact close upper t) k)"
      "dns ! t = contact_step (first_contact (dn_contact close lower t) k)"
      using assms(1) t by (simp_all add: st scanned_def)
    ultimately show
      "mark_hits (Suc k) ?hu ups ! t = contact_step (first_contact (up_contact close upper t) (Suc k))"
      "mark_hits (Suc k) ?hd dns ! t = contact_step (first_contact (dn_contact close lower t) (Suc k))"
      using t len lh by (simp_all only: mark_step)
  qed
  then show ?thesis using len lh by (simp add: st scanned_def barrier_pass_def Let_def)
qed

lemma contact_beyond:
  assumes "\<And>j. k < j \<Longrightarrow> \<not> hit j" "k \<le> h"
  shows "first_contact hit h = first_contact hit k"
  using assms(2)
proof (induction h)
  case (Suc h)
  then show ?case using assms(1) by (cases "k = Suc h") (auto simp: first_contact_Suc split: option.splits)
qed simp

lemma scan_scanned:
  assumes "scanned close upper lower k st" "length upper = length close" "length lower = length close" "k \<le> h"
  shows "scanned close upper lower h (barrier_scan close upper lower [Suc k..<Suc h] st)"
  using assms(1,4)
proof (induction "h - k" arbitrary: k st)
  case 0
  then show ?case by simp
next
  case (Suc m)
  then have kh: "k < h" by simp
  then have u: "[Suc k..<Suc h] = Suc k # [Suc (Suc k)..<Suc h]" by (simp add: upt_conv_Cons)
  show ?case
  proof (cases "length close \<le> Suc k")
    case True
    have "first_contact (up_contact close upper t) h = first_contact (up_contact close upper t) k"
      "first_contact (dn_contact close lower t) h = first_contact (dn_contact close lower t) k" for t
      by (rule contact_beyond; use True Suc.prems in \<open>auto simp: up_contact_def dn_contact_def\<close>)+
    then show ?thesis using Suc.prems True by (simp add: u scanned_def del: upt_Suc)
  next
    case False
    then have "scanned close upper lower (Suc k) (barrier_pass close upper lower (Suc k) st)"
      using pass_scanned [OF Suc.prems(1) assms(2,3)] by simp
    then show ?thesis using Suc.hyps(1) [of "Suc k"] Suc.hyps(2) kh False by (simp add: u del: upt_Suc)
  qed
qed

lemma first_contact_cases:
  "(case first_contact hit h of None \<Rightarrow> \<forall>k. 1 \<le> k \<and> k \<le> h \<longrightarrow> \<not> hit k
    | Some k \<Rightarrow> 1 \<le> k \<and> k \<le> h \<and> hit k \<and> (\<forall>j. 1 \<le> j \<and> j < k \<longrightarrow> \<not> hit j))"
proof (induction h)
  case 0
  show ?case by (simp add: first_contact_def)
next
  case (Suc h)
  then show ?case by (auto simp: first_contact_Suc le_Suc_eq split: option.splits)
qed

lemma first_contact_or:
  "first_contact (\<lambda>k. p k \<or> q k) h =
     (case (first_contact p h, first_contact q h) of
        (None, r) \<Rightarrow> r | (r, None) \<Rightarrow> r | (Some i, Some j) \<Rightarrow> Some (min i j))"
proof (induction h)
  case (Suc h)
  then show ?case
    using first_contact_cases [where hit = p and h = h] first_contact_cases [where hit = q and h = h]
    by (auto simp: first_contact_Suc split: option.splits)
qed (simp add: first_contact_def)

lemma barrier_label_steps:
  "barrier_label (contact_step a) (contact_step b) =
     (case (a, b) of (None, None) \<Rightarrow> 0 | (Some i, None) \<Rightarrow> 1 | (None, Some j) \<Rightarrow> -1
      | (Some i, Some j) \<Rightarrow> if i \<le> j then 1 else -1)"
  by (cases a; cases b) (auto simp: barrier_label_def contact_step_def)

lemma label_of_contacts:
  "(case first_contact (\<lambda>k. p k \<or> q k) h of None \<Rightarrow> 0 | Some k \<Rightarrow> if p k then 1 else -1) =
     barrier_label (contact_step (first_contact p h)) (contact_step (first_contact q h))"
  using first_contact_cases [where hit = p and h = h] first_contact_cases [where hit = q and h = h]
  unfolding barrier_label_steps first_contact_or
  by (auto simp: min_def split: option.splits)

lemma labels_are_reference:
  assumes "length close = length atr_values"
  shows "apply_triple_barrier horizon mult close atr_values =
    Inr (map (reference_label horizon mult close atr_values) [0..<length close])"
proof -
  let ?n = "length close"
  let ?up = "map2 (\<lambda>c a. c + mult * a) close atr_values"
  let ?dn = "map2 (\<lambda>c a. c - mult * a) close atr_values"
  let ?st = "barrier_scan close ?up ?dn [Suc 0..<Suc horizon] (replicate ?n PInf, replicate ?n PInf)"
  have "scanned close ?up ?dn 0 (replicate ?n PInf, replicate ?n PInf)"
    by (simp add: scanned_def first_contact_def contact_step_def)
  then have sc: "scanned close ?up ?dn horizon ?st"
    by (rule scan_scanned) (use assms in simp_all)
  obtain ups dns where st: "?st = (ups, dns)" by (cases ?st)
  have "map2 barrier_label ups dns = map (reference_label horizon mult close atr_values) [0..<?n]"
  proof (rule nth_equalityI)
    show "length (map2 barrier_label ups dns) = length (map (reference_label horizon mult close atr_values) [0..<?n])"
      using sc by (simp add: st scanned_def del: upt_Suc)
  next
    fix t assume "t < length (map2 barrier_label ups dns)"
    then have t: "t < ?n" using sc by (simp add: st scanned_def del: upt_Suc)
    let ?p = "up_contact close ?up t" and ?q = "dn_contact close ?dn t"
    have l: "map2 barrier_label ups dns ! t =
        barrier_label (contact_step (first_contact ?p horizon)) (contact_step (first_contact ?q horizon))"
      using sc t by (simp add: st scanned_def del: upt_Suc)
    have r: "(\<lambda>k. t + k < ?n \<and> (close ! t + mult * atr_values ! t \<le> close ! (t + k) \<or>
        close ! (t + k) \<le> close ! t - mult * atr_values ! t)) = (\<lambda>k. ?p k \<or> ?q k)"
      using t assms by (auto simp: up_contact_def dn_contact_def)
    have u: "close ! t + mult * atr_values ! t \<le> close ! (t + k) \<longleftrightarrow> ?p k" if "t + k < ?n" for k
      using t assms that by (simp add: up_contact_def)
    have "reference_label horizon mult close atr_values t =
        (case first_contact (\<lambda>k. ?p k \<or> ?q k) horizon of None \<Rightarrow> 0 | Some k \<Rightarrow> if ?p k then 1 else -1)"
    proof (cases "first_contact (\<lambda>k. ?p k \<or> ?q k) horizon")
      case None
      then show ?thesis by (simp add: reference_label_def Let_def r)
    next
      case (Some k)
      have "t + k < ?n"
        using first_contact_cases [where hit = "\<lambda>k. ?p k \<or> ?q k" and h = horizon] Some
        by (auto simp: up_contact_def dn_contact_def)
      then show ?thesis using Some u by (simp add: reference_label_def Let_def r)
    qed
    then show "map2 barrier_label ups dns ! t = map (reference_label horizon mult close atr_values) [0..<?n] ! t"
      using t l label_of_contacts [of ?p ?q horizon] by simp
  qed
  then show ?thesis using assms st by (simp add: apply_triple_barrier_def Let_def del: upt_Suc)
qed

lemma last_label_vertical:
  assumes "apply_triple_barrier horizon mult close atr_values = Inr labels" "close \<noteq> []"
  shows "labels \<noteq> [] \<and> last labels = 0"
proof -
  have len: "length close = length atr_values"
    using assms(1) by (simp add: apply_triple_barrier_def split: if_splits)
  have "first_contact (\<lambda>k. length close - 1 + k < length close \<and> P k) horizon = None" for P
    unfolding first_contact_def find_first_None using assms(2) by auto
  then have "reference_label horizon mult close atr_values (length close - 1) = 0"
    by (simp add: reference_label_def Let_def)
  moreover have "labels = map (reference_label horizon mult close atr_values) [0..<length close]"
    using labels_are_reference [OF len, of horizon mult] assms(1) by simp
  ultimately show ?thesis using assms(2) by (simp add: last_map)
qed



subsection \<open>Design matrices\<close>

type_synonym matrix = "f64 list list"

record hmm_params =
  hp_components :: nat
  hp_covariance :: string
  hp_iter :: nat
  hp_tol :: f64
  hp_min_covar :: f64
  hp_seed :: int
  hp_init :: string
  hp_start :: "f64 list"                                             \<comment> \<open>\<open>startprob_\<close> and \<open>transmat_\<close>, set before the fit\<close>
  hp_trans :: matrix

record lgbm_params =
  lp_objective :: string
  lp_classes :: nat
  lp_estimators :: nat
  lp_rate :: f64
  lp_leaves :: nat
  lp_min_child :: nat
  lp_subsample :: f64
  lp_colsample :: f64
  lp_lambda :: f64
  lp_seed :: int

record ('h, 'm) ml_lib =
  ml_sin :: "f64 \<Rightarrow> f64"
  ml_cos :: "f64 \<Rightarrow> f64"
  ml_log :: "f64 \<Rightarrow> f64"
  ml_std :: "f64 list \<Rightarrow> f64"                                    \<comment> \<open>\<open>std(ddof=1)\<close>\<close>
  ml_hmm_fit :: "hmm_params \<Rightarrow> matrix \<Rightarrow> ('h \<times> matrix) res"    \<comment> \<open>the fitted model and its \<open>means_\<close>\<close>
  ml_hmm_score :: "'h \<Rightarrow> matrix \<Rightarrow> f64 res"
  ml_hmm_posterior :: "'h \<Rightarrow> matrix \<Rightarrow> matrix res"
  ml_splits :: "nat \<Rightarrow> nat \<Rightarrow> (nat list \<times> nat list) list res"    \<comment> \<open>\<open>TimeSeriesSplit(n).split\<close> of so many rows\<close>
  ml_log_loss :: "int list \<Rightarrow> matrix \<Rightarrow> int list \<Rightarrow> f64 res"
  ml_lgbm_fit :: "lgbm_params \<Rightarrow> matrix \<Rightarrow> int list \<Rightarrow> 'm res"
  ml_lgbm_proba :: "'m \<Rightarrow> matrix \<Rightarrow> matrix res"

definition np_pi :: f64 where "np_pi = Fin (884279719003555 / 281474976710656)"

definition hour_of :: "int \<Rightarrow> int" where
  \<comment> \<open>\<open>ts.astype("datetime64[h]").astype(int64) % 24\<close> of microseconds\<close>
  "hour_of ts = (ts div 3600000000) mod 24"

definition hour_angle :: "int \<Rightarrow> f64" where
  "hour_angle ts = Fin 2 * np_pi * Fin (of_int (hour_of ts)) / Fin 24"

fun hstack :: "matrix list \<Rightarrow> matrix res" where
  "hstack [] = Inl (ValueError ''need at least one array to concatenate'')"
| "hstack [b] = Inr b"
| "hstack (b # bs) =
     res_bind (hstack bs) (\<lambda>rest.
     if length b \<noteq> length rest then Inl (ValueError ''array dimensions must match'')
     else Inr (map2 (@) b rest))"

definition build_meta_features ::
  "('h, 'm) ml_lib \<Rightarrow> string list \<Rightarrow> matrix \<Rightarrow> matrix option \<Rightarrow> int list option \<Rightarrow> (string list \<times> matrix) res" where
  "build_meta_features lib columns features regime_probs timestamps =
     (let tod = (case timestamps of
            Some ts \<Rightarrow> if ts \<noteq> [] then [map (\<lambda>t. [ml_sin lib (hour_angle t)]) ts, map (\<lambda>t. [ml_cos lib (hour_angle t)]) ts]
                       else []
          | None \<Rightarrow> []);
          reg = (case regime_probs of Some p \<Rightarrow> if concat p \<noteq> [] then [p] else [] | None \<Rightarrow> []);
          names = columns @ (if tod \<noteq> [] then [''tod_sin'', ''tod_cos''] else []) @
            (if reg \<noteq> [] then [''p_s0'', ''p_s1'', ''p_s2''] else [])
      in res_bind (hstack ([features] @ tod @ reg)) (\<lambda>x. Inr (names, x)))"

subsection \<open>The meta-label model\<close>

definition classes :: "int list" where "classes = [-1, 0, 1]"
definition meta_path :: string where "meta_path = ''models/meta_label_lgbm.joblib''"

record 'm meta_bundle =
  mb_model :: 'm
  mb_classes :: "int list"
  mb_names :: "string list"
  mb_losses :: "f64 list"
  mb_horizon :: nat
  mb_mult :: f64

definition lgbm_settings :: lgbm_params where
  "lgbm_settings = \<lparr>lp_objective = ''multiclass'', lp_classes = 3, lp_estimators = 300, lp_rate = mk (5 / 100),
     lp_leaves = 31, lp_min_child = 40, lp_subsample = mk (9 / 10), lp_colsample = mk (9 / 10), lp_lambda = 1,
     lp_seed = 42\<rparr>"

definition cv_fold :: "('h, 'm) ml_lib \<Rightarrow> matrix \<Rightarrow> int list \<Rightarrow> nat list \<times> nat list \<Rightarrow> f64 res" where
  \<comment> \<open>one fold of the cross-validation: its log loss\<close>
  "cv_fold lib x y split_pair =
     (case split_pair of (train_idx, test_idx) \<Rightarrow>
        res_bind (ml_lgbm_fit lib lgbm_settings (map ((!) x) train_idx) (map ((!) y) train_idx)) (\<lambda>model.
        res_bind (ml_lgbm_proba lib model (map ((!) x) test_idx)) (\<lambda>proba.
        ml_log_loss lib (map ((!) y) test_idx) proba classes)))"

definition train_meta_label ::
  "('h, 'm) ml_lib \<Rightarrow> 'm meta_bundle artifact_lib \<Rightarrow> matrix \<Rightarrow> int list \<Rightarrow> string list \<Rightarrow> string \<Rightarrow> files \<Rightarrow>
   ('m meta_bundle \<times> files) res" where
  "train_meta_label lib al x y names path fs =
     (if x = [] then Inl (ValueError ''X must be a non-empty 2-D array'')
      else if \<not> set y \<subseteq> set classes then Inl (ValueError ''labels must be subset of classes'')
      else
        res_bind (ml_splits lib 5 (length x)) (\<lambda>folds.
        res_bind (res_map (cv_fold lib x y) folds) (\<lambda>losses.
        res_bind (ml_lgbm_fit lib lgbm_settings x y) (\<lambda>final.
        let bundle = \<lparr>mb_model = final, mb_classes = classes, mb_names = names, mb_losses = losses,
              mb_horizon = vertical_bars, mb_mult = atr_mult\<rparr>
        in res_bind (save_artifact al bundle path fs) (\<lambda>(target, fs'). Inr (bundle, fs'))))))"

definition load_meta_model :: "'m meta_bundle artifact_lib \<Rightarrow> string \<Rightarrow> files \<Rightarrow> 'm meta_bundle res" where
  "load_meta_model al path fs = load_artifact al path fs"

fun index_of :: "'a \<Rightarrow> 'a list \<Rightarrow> nat res" where
  \<comment> \<open>\<open>xs.index(x)\<close>\<close>
  "index_of x [] = Inl (ValueError ''not in list'')"
| "index_of x (y # ys) = (if x = y then Inr 0 else res_bind (index_of x ys) (\<lambda>i. Inr (Suc i)))"

definition at_index :: "'a list \<Rightarrow> nat \<Rightarrow> 'a res" where
  "at_index xs i = (if i < length xs then Inr (xs ! i) else Inl IndexError)"

record meta_probs =
  pr_up :: f64
  pr_down :: f64

definition class_p :: "int list \<Rightarrow> f64 list \<Rightarrow> int \<Rightarrow> f64 res" where
  "class_p cs proba target =
     res_bind (index_of target cs) (\<lambda>i. res_bind (at_index proba i) (\<lambda>p. Inr (py_round 6 p)))"

definition predict_proba :: "('h, 'm) ml_lib \<Rightarrow> 'm meta_bundle \<Rightarrow> f64 list \<Rightarrow> meta_probs res" where
  "predict_proba lib bundle row =
     res_bind (ml_lgbm_proba lib (mb_model bundle) [row]) (\<lambda>rows.
     res_bind (at_index rows 0) (\<lambda>proba.
     res_bind (class_p (mb_classes bundle) proba 1) (\<lambda>up.
     res_bind (class_p (mb_classes bundle) proba (-1)) (\<lambda>down.
     Inr \<lparr>pr_up = up, pr_down = down\<rparr>))))"

subsection \<open>The regime model\<close>

definition regime_features :: "string list" where
  "regime_features = [''log_return'', ''atr_norm'', ''realized_vol'']"

definition realized_vol_window :: nat where "realized_vol_window = 21"
definition hmm_path :: string where "hmm_path = ''models/regime_hmm.joblib''"

fun diff :: "f64 list \<Rightarrow> f64 list" where
  \<comment> \<open>\<open>np.diff\<close>\<close>
  "diff (x # y # xs) = (y - x) # diff (y # xs)"
| "diff xs = []"

definition realized_vol :: "('h, 'm) ml_lib \<Rightarrow> f64 list \<Rightarrow> f64 list" where
  "realized_vol lib log_return =
     map (\<lambda>i. if i + 1 < realized_vol_window then NaN
              else ml_std lib (take realized_vol_window (drop (i + 1 - realized_vol_window) log_return)))
       [0..<length log_return]"

definition build_regime_matrix :: "('h, 'm) ml_lib \<Rightarrow> f64 list \<Rightarrow> f64 list \<Rightarrow> matrix res" where
  "build_regime_matrix lib close atr_values =
     (if length close \<noteq> length atr_values \<or> length close < realized_vol_window + 2
      then Inl (ValueError ''need matching close/atr arrays of length >= 23'')
      else
        let log_return = diff (map (ml_log lib) close);
            atr_norm = drop 1 (map2 (\<lambda>a c. a / c) atr_values close);
            vol = realized_vol lib log_return
        in Inr (map (\<lambda>(r, a, v). [r, a, v])
             (filter (\<lambda>(r, a, v). \<not> (np_isnan a \<or> np_isnan v)) (zip log_return (zip atr_norm vol)))))"

definition np_before :: "f64 \<Rightarrow> f64 \<Rightarrow> bool" where
  \<comment> \<open>numpy's sort order: NaN last\<close>
  "np_before a b \<longleftrightarrow> flt a b \<or> \<not> np_isnan a \<and> np_isnan b"

fun insert_index :: "f64 list \<Rightarrow> nat \<Rightarrow> nat list \<Rightarrow> nat list" where
  "insert_index xs i [] = [i]"
| "insert_index xs i (j # js) =
     (if np_before (xs ! i) (xs ! j) then i # j # js else j # insert_index xs i js)"

definition argsort :: "f64 list \<Rightarrow> nat list" where
  \<comment> \<open>\<open>np.argsort\<close>; arrays this short are sorted by insertion\<close>
  "argsort xs = foldl (\<lambda>js i. insert_index xs i js) [] [0..<length xs]"

definition canonical_order :: "f64 list \<Rightarrow> (string \<times> nat) list" where
  \<comment> \<open>of the first column of \<open>means_\<close>, three states\<close>
  "canonical_order mean_returns =
     (let ranking = argsort mean_returns in
      [(''S2'', ranking ! 0), (''S0'', ranking ! 1), (''S1'', ranking ! 2)])"

record 'h regime_bundle =
  rb_model :: 'h
  rb_order :: "(string \<times> nat) list"
  rb_features :: "string list"
  rb_path :: string

definition hmm_settings :: hmm_params where
  "hmm_settings = \<lparr>hp_components = 3, hp_covariance = ''diag'', hp_iter = 500, hp_tol = mk (1 / 10000),
     hp_min_covar = mk (1 / 1000000), hp_seed = 42, hp_init = ''c'',
     hp_start = replicate 3 (Fin 1 / Fin 3), hp_trans = replicate 3 (replicate 3 (Fin 1 / Fin 3))\<rparr>"

definition train_hmm ::
  "('h, 'm) ml_lib \<Rightarrow> 'h regime_bundle artifact_lib \<Rightarrow> matrix \<Rightarrow> string \<Rightarrow> files \<Rightarrow> ('h regime_bundle \<times> files) res" where
  "train_hmm lib al features path fs =
     (if list_ex (\<lambda>row. length row \<noteq> length regime_features) features
      then Inl (ValueError ''features must be (n, 3)'')
      else if length features < 100 then Inl (ValueError ''HMM training needs >= 100 complete feature rows'')
      else
        res_bind (ml_hmm_fit lib hmm_settings features) (\<lambda>(model, means).
        res_bind (ml_hmm_score lib model features) (\<lambda>score.
        let bundle = \<lparr>rb_model = model, rb_order = canonical_order (map hd means),
              rb_features = regime_features, rb_path = path\<rparr>
        in res_bind (save_artifact al bundle path fs) (\<lambda>(target, fs'). Inr (bundle, fs')))))"

definition load_regime_model :: "'h regime_bundle artifact_lib \<Rightarrow> string \<Rightarrow> files \<Rightarrow> 'h regime_bundle res" where
  "load_regime_model al path fs = load_artifact al path fs"

fun argmax_from :: "nat \<Rightarrow> nat \<Rightarrow> f64 \<Rightarrow> f64 list \<Rightarrow> nat" where
  "argmax_from i best m [] = best"
| "argmax_from i best m (x # xs) =
     (if np_isnan m then best
      else if np_isnan x \<or> m < x then argmax_from (Suc i) i x xs
      else argmax_from (Suc i) best m xs)"

definition np_argmax :: "f64 list \<Rightarrow> nat res" where
  \<comment> \<open>the first maximum, or the first NaN\<close>
  "np_argmax xs =
     (case xs of [] \<Rightarrow> Inl (ValueError ''attempt to get argmax of an empty sequence'')
      | x # r \<Rightarrow> Inr (argmax_from 1 0 x r))"

fun label_by_state :: "(string \<times> nat) list \<Rightarrow> nat \<Rightarrow> string option" where
  \<comment> \<open>\<open>{state: label for label, state in order.items()}\<close>; a later entry overwrites\<close>
  "label_by_state [] s = None"
| "label_by_state ((l, i) # d) s =
     (case label_by_state d s of Some l' \<Rightarrow> Some l' | None \<Rightarrow> if i = s then Some l else None)"

definition state_label :: "(string \<times> nat) list \<Rightarrow> nat \<Rightarrow> string res" where
  "state_label order s =
     (case label_by_state order s of None \<Rightarrow> Inl (KeyError ''state'') | Some l \<Rightarrow> Inr l)"

definition short_to_regime :: "string \<Rightarrow> string" where
  \<comment> \<open>\<open>_SHORT_TO_REGIME.get(label, label)\<close>\<close>
  "short_to_regime l =
     (if l = ''S0'' then regime_value S0_RANGE else if l = ''S1'' then regime_value S1_TREND_UP
      else if l = ''S2'' then regime_value S2_TREND_DOWN else l)"

definition order_prob :: "(string \<times> nat) list \<Rightarrow> f64 list \<Rightarrow> string \<Rightarrow> f64 res" where
  "order_prob order posterior l = res_bind (getitem order l) (at_index posterior)"

record regime_prediction =
  rp_label :: string
  rp_state :: nat
  rp_s0 :: f64
  rp_s1 :: f64
  rp_s2 :: f64

definition predict_regime :: "('h, 'm) ml_lib \<Rightarrow> 'h regime_bundle \<Rightarrow> f64 list \<Rightarrow> regime_prediction res" where
  "predict_regime lib bundle x =
     res_bind (ml_hmm_posterior lib (rb_model bundle) [x]) (\<lambda>rows.
     res_bind (at_index rows 0) (\<lambda>posterior.
     res_bind (np_argmax posterior) (\<lambda>best.
     res_bind (state_label (rb_order bundle) best) (\<lambda>short.
     res_bind (order_prob (rb_order bundle) posterior ''S0'') (\<lambda>p0.
     res_bind (order_prob (rb_order bundle) posterior ''S1'') (\<lambda>p1.
     res_bind (order_prob (rb_order bundle) posterior ''S2'') (\<lambda>p2.
     Inr \<lparr>rp_label = short_to_regime short, rp_state = best, rp_s0 = p0, rp_s1 = p1, rp_s2 = p2\<rparr>)))))))"

subsection \<open>The canonical order ranks the states by drift\<close>

lemma set_insert_index [simp]: "set (insert_index xs i js) = insert i (set js)"
  by (induction js) auto

lemma distinct_insert_index: "distinct js \<Longrightarrow> i \<notin> set js \<Longrightarrow> distinct (insert_index xs i js)"
  by (induction js) auto

lemma np_before_trans: "\<not> np_before c b \<Longrightarrow> \<not> np_before b a \<Longrightarrow> \<not> np_before c a"
  by (cases a; cases b; cases c) (auto simp: np_before_def np_isnan_def)

lemma np_before_asym: "np_before a b \<Longrightarrow> \<not> np_before b a"
  by (cases a; cases b) (auto simp: np_before_def np_isnan_def)

definition ranked :: "f64 list \<Rightarrow> nat list \<Rightarrow> bool" where
  "ranked xs js \<longleftrightarrow> sorted_wrt (\<lambda>i j. \<not> np_before (xs ! j) (xs ! i)) js"

lemma ranked_insert: "ranked xs js \<Longrightarrow> ranked xs (insert_index xs i js)"
proof (induction js)
  case (Cons j js)
  have js: "\<forall>k \<in> set js. \<not> np_before (xs ! k) (xs ! j)" "ranked xs js"
    using Cons.prems by (simp_all add: ranked_def)
  show ?case
  proof (cases "np_before (xs ! i) (xs ! j)")
    case True
    have "\<not> np_before (xs ! k) (xs ! i)" if "k \<in> set (j # js)" for k
      using that js(1) np_before_asym [OF True] np_before_trans [of "xs ! k" "xs ! j" "xs ! i"] by auto
    then show ?thesis using Cons.prems True by (simp add: ranked_def)
  next
    case False
    then show ?thesis using Cons.IH [OF js(2)] js(1) by (auto simp: ranked_def)
  qed
qed (simp add: ranked_def)

lemma argsort_upto:
  "k \<le> length xs \<Longrightarrow> (let js = foldl (\<lambda>js i. insert_index xs i js) [] [0..<k] in
     set js = {0..<k} \<and> distinct js \<and> ranked xs js)"
proof (induction k)
  case (Suc k)
  then show ?case
    using distinct_insert_index ranked_insert by (auto simp: Let_def)
qed (simp add: ranked_def)

lemma argsort_spec: "set (argsort xs) = {0..<length xs}" "distinct (argsort xs)" "ranked xs (argsort xs)"
  using argsort_upto [of "length xs" xs] by (simp_all add: argsort_def Let_def)

lemma short_regimes:
  "short_to_regime ''S0'' = regime_value S0_RANGE" "short_to_regime ''S1'' = regime_value S1_TREND_UP"
  "short_to_regime ''S2'' = regime_value S2_TREND_DOWN"
  by (simp_all add: short_to_regime_def)

lemma argsort_three:
  assumes "length xs = 3"
  obtains a b c where "argsort xs = [a, b, c]" "{a, b, c} = {0, 1, 2}" "distinct [a, b, c]"
    "\<not> np_before (xs ! b) (xs ! a)" "\<not> np_before (xs ! c) (xs ! b)"
proof -
  have "length (argsort xs) = 3"
    using distinct_card [OF argsort_spec(2) [of xs]] by (simp add: argsort_spec(1) assms)
  then obtain a b c where abc: "argsort xs = [a, b, c]"
    by (auto simp: numeral_3_eq_3 length_Suc_conv)
  have "{0..<3} = {0, 1, 2 :: nat}" by auto
  then have "{a, b, c} = {0, 1, 2}"
    using argsort_spec(1) [of xs] unfolding abc assms by simp
  moreover have "distinct [a, b, c]" using argsort_spec(2) [of xs] unfolding abc .
  moreover have "\<not> np_before (xs ! b) (xs ! a)" "\<not> np_before (xs ! c) (xs ! b)"
    using argsort_spec(3) [of xs] unfolding abc ranked_def by simp_all
  ultimately show ?thesis by (rule that [OF abc])
qed

text \<open>A run of \<open>predict_regime\<close> on a trained order, with the order as its three states.\<close>

lemma predict_regime_run:
  assumes "predict_regime lib bundle x = Inr p" "rb_order bundle = [(''S2'', a), (''S0'', b), (''S1'', c)]"
  shows "\<exists>posterior short. np_argmax posterior = Inr (rp_state p) \<and> rp_label p = short_to_regime short \<and>
    (rp_state p, short) \<in> {(a, ''S2''), (b, ''S0''), (c, ''S1'')} \<and>
    rp_s0 p = posterior ! b \<and> rp_s1 p = posterior ! c \<and> rp_s2 p = posterior ! a"
proof -
  obtain posterior best short p0 p1 p2 where
    post: "np_argmax posterior = Inr best" and short: "state_label (rb_order bundle) best = Inr short"
    and pr: "order_prob (rb_order bundle) posterior ''S0'' = Inr p0"
      "order_prob (rb_order bundle) posterior ''S1'' = Inr p1"
      "order_prob (rb_order bundle) posterior ''S2'' = Inr p2"
    and "Inr \<lparr>rp_label = short_to_regime short, rp_state = best, rp_s0 = p0, rp_s1 = p1, rp_s2 = p2\<rparr> = (Inr p :: regime_prediction res)"
    using assms(1) unfolding predict_regime_def res_bind_Inr_iff by blast
  then have p: "p = \<lparr>rp_label = short_to_regime short, rp_state = best, rp_s0 = p0, rp_s1 = p1, rp_s2 = p2\<rparr>"
    by simp
  have "p0 = posterior ! b" "p1 = posterior ! c" "p2 = posterior ! a"
    using pr by (auto simp: order_prob_def assms(2) getitem_def at_index_def res_bind_Inr_iff split: if_splits)
  moreover have "(best, short) \<in> {(a, ''S2''), (b, ''S0''), (c, ''S1'')}"
    using short by (auto simp: assms(2) state_label_def split: if_splits)
  ultimately show ?thesis using post by (intro exI [of _ posterior] exI [of _ short]) (simp add: p)
qed

lemma short_names_regime:
  assumes "(st, short) \<in> {(a, ''S2''), (b, ''S0''), (c, ''S1'')}"
  shows "\<exists>reg. regime_of_value (short_to_regime short) = Inr reg \<and>
    st = (case reg of S0_RANGE \<Rightarrow> b | S1_TREND_UP \<Rightarrow> c | S2_TREND_DOWN \<Rightarrow> a)"
proof -
  define reg where "reg = (if short = ''S2'' then S2_TREND_DOWN else if short = ''S0'' then S0_RANGE else S1_TREND_UP)"
  have "short_to_regime short = regime_value reg"
    "st = (case reg of S0_RANGE \<Rightarrow> b | S1_TREND_UP \<Rightarrow> c | S2_TREND_DOWN \<Rightarrow> a)"
    using assms by (auto simp: reg_def short_regimes)
  then show ?thesis by (intro exI [of _ reg]) simp
qed


definition demo_ml_lib :: "(unit, unit) ml_lib" where
  \<comment> \<open>a library whose model always finds the second state most likely\<close>
  "demo_ml_lib = \<lparr>ml_sin = (\<lambda>x. x), ml_cos = (\<lambda>x. x), ml_log = (\<lambda>x. x), ml_std = (\<lambda>xs. 1),
     ml_hmm_fit = (\<lambda>p m. Inr ((), [])), ml_hmm_score = (\<lambda>h m. Inr 0),
     ml_hmm_posterior = (\<lambda>h m. Inr (map (\<lambda>r. [Fin (1 / 8), Fin (3 / 4), Fin (1 / 8)]) m)),
     ml_splits = (\<lambda>k n. Inr []), ml_log_loss = (\<lambda>y p c. Inr 0), ml_lgbm_fit = (\<lambda>p m y. Inr ()),
     ml_lgbm_proba = (\<lambda>m rows. Inr (map (\<lambda>r. [Fin (1 / 4), 0, Fin (3 / 4)]) rows))\<rparr>"

definition demo_regime_bundle :: "unit regime_bundle" where
  "demo_regime_bundle = \<lparr>rb_model = (), rb_order = canonical_order [Fin (-1), Fin 1, 0],
     rb_features = regime_features, rb_path = hmm_path\<rparr>"

lemma demo_order: "canonical_order [Fin (-1), Fin 1, 0] = [(''S2'', 0), (''S0'', 2), (''S1'', 1)]"
  by (simp add: canonical_order_def argsort_def upt_conv_Cons np_before_def np_isnan_def zero_eq_Fin)

lemma demo_predict:
  "predict_regime demo_ml_lib demo_regime_bundle [] =
     Inr \<lparr>rp_label = ''S1_trend_up'', rp_state = 1, rp_s0 = Fin (1 / 8), rp_s1 = Fin (3 / 4), rp_s2 = Fin (1 / 8)\<rparr>"
proof -
  have "np_argmax [Fin (1 / 8), Fin (3 / 4), Fin (1 / 8)] = Inr 1"
    by (simp add: np_argmax_def np_isnan_def f64_eval)
  moreover have "order_prob (rb_order demo_regime_bundle) [Fin (1 / 8), Fin (3 / 4), Fin (1 / 8)] l =
      (if l = ''S2'' then Inr (Fin (1 / 8)) else if l = ''S0'' then Inr (Fin (1 / 8))
       else if l = ''S1'' then Inr (Fin (3 / 4)) else Inl (KeyError l))" for l
    by (simp add: order_prob_def demo_regime_bundle_def demo_order getitem_def at_index_def)
  moreover have "state_label (rb_order demo_regime_bundle) 1 = Inr ''S1''"
    by (simp add: state_label_def demo_regime_bundle_def demo_order)
  ultimately show ?thesis
    by (simp add: predict_regime_def short_to_regime_def at_index_def)
      (simp add: demo_ml_lib_def)
qed


end
