(* ===== verification/MlService.thy ===== *)
theory MlService
  imports MetaLabel Rows TradeStore
begin

text \<open>
  The ML service around the two models: \<open>db.py\<close> (feature matrices), the inference worker
  \<open>worker.py\<close> (\<open>feature.computed\<close> to the two Redis caches) and the routes of \<open>routes.py\<close>
  (training and prediction). Model files are the field \<open>ml_files\<close> of the state. A statement runs
  on a connection of its own, so one call stands for the whole \<open>with psycopg.connect(dsn)\<close> block.
\<close>

subsection \<open>State\<close>

record ('h, 'm) ml_config =
  mc_lib :: "('h, 'm) ml_lib"
  mc_hmm_store :: "'h regime_bundle artifact_lib"
  mc_meta_store :: "'m meta_bundle artifact_lib"
  mc_codec :: codec
  mc_symbol :: string

record ('h, 'm) ml_world = world +
  ml_files :: files
  ml_regime :: "'h regime_bundle option"
  ml_meta :: "'m meta_bundle option"
  ml_processed :: nat
  ml_training :: bool                  \<comment> \<open>\<open>_TRAIN_LOCK\<close> is held\<close>

type_synonym ('h, 'm, 'x, 'a) ml_act = "(('h, 'm, 'x) ml_world_ext, 'a) act"

subsection \<open>Feature matrices\<close>

definition feature_columns :: "string list" where
  "feature_columns = [''close'', ''atr'', ''atr_norm'', ''rsi'', ''ema50'', ''ema200'', ''bb_upper'', ''bb_mid'',
     ''bb_lower'', ''stoch_k'', ''stoch_d'', ''realized_vol'', ''log_return'']"

definition float_or_nan :: "codec \<Rightarrow> json \<Rightarrow> f64 res" where
  "float_or_nan cd v = (if v = JNull then Inr NaN else json_float cd v)"

definition complete_row :: "f64 list \<Rightarrow> bool" where
  "complete_row r \<longleftrightarrow> \<not> list_ex np_isnan r"

definition matrix_of_rows :: "codec \<Rightarrow> json list list \<Rightarrow> (int list \<times> matrix) res" where
  "matrix_of_rows cd rows =
     res_bind (res_map (\<lambda>r. res_bind (row_item r 0) json_ts) rows) (\<lambda>ts.
     res_bind (res_map (\<lambda>r. res_map (float_or_nan cd) (drop 1 r)) rows) (\<lambda>raw.
     let kept = filter (\<lambda>(t, r). complete_row r) (zip ts raw)
     in Inr (map fst kept, map snd kept)))"

definition fetch_feature_matrix ::
  "env \<Rightarrow> codec \<Rightarrow> string \<Rightarrow> string \<Rightarrow> int option \<Rightarrow> ('x, int list \<times> string list \<times> matrix) act" where
  "fetch_feature_matrix ev cd symb tf limit =
     bnd (call ev ans_rows (SqlRows ''feature_matrix'' [JStr (T symb), JStr (T tf)])) (\<lambda>all_rows.
     let rows = (case limit of None \<Rightarrow> all_rows | Some n \<Rightarrow> neg_slice n all_rows) in
     if rows = [] then ret ([], [], [])
     else bnd (lift_res (matrix_of_rows cd rows)) (\<lambda>(ts, m). ret (ts, feature_columns, m)))"

definition close_atr_of_rows :: "codec \<Rightarrow> json list list \<Rightarrow> (int list \<times> f64 list \<times> f64 list) res" where
  "close_atr_of_rows cd rows =
     res_bind (res_map (\<lambda>r. res_bind (row_item r 0) json_ts) rows) (\<lambda>ts.
     res_bind (res_map (\<lambda>r. row_float cd r 1) rows) (\<lambda>close.
     res_bind (res_map (\<lambda>r. row_float cd r 2) rows) (\<lambda>a. Inr (ts, close, a))))"

definition fetch_close_atr :: "env \<Rightarrow> codec \<Rightarrow> string \<Rightarrow> string \<Rightarrow> ('x, int list \<times> f64 list \<times> f64 list) act" where
  "fetch_close_atr ev cd symb tf =
     bnd (call ev ans_rows (SqlRows ''ohlcv_with_atr'' [JStr (T symb), JStr (T tf)])) (\<lambda>rows.
     lift_res (close_atr_of_rows cd rows))"

fun zip3_strict :: "int list \<Rightarrow> int list \<Rightarrow> matrix \<Rightarrow> (int \<times> int \<times> f64 list) list res" where
  "zip3_strict [] [] [] = Inr []"
| "zip3_strict (s # ss) (i # is) (p # ps) = res_bind (zip3_strict ss is ps) (\<lambda>r. Inr ((s, i, p) # r))"
| "zip3_strict ss is ps = Inl (ValueError ''zip() arguments differ in length'')"

definition save_regime_batch ::
  "env \<Rightarrow> string \<Rightarrow> string \<Rightarrow> int list \<Rightarrow> int list \<Rightarrow> matrix \<Rightarrow> ('x, int) act" where
  "save_regime_batch ev symb tf stamps ids probs =
     bnd (lift_res (zip3_strict stamps ids probs)) (\<lambda>rows.
     let payload = map (\<lambda>(s, i, p). JArr [JInt i, JArr (map JNum p), JStr (T symb), JStr (T tf), JInt s]) rows in
     bnd (call ev ans_int (SqlRun ''save_regime'' payload)) (\<lambda>rowcount.
     ret (if 0 < rowcount then rowcount else int (length payload))))"

definition ml_ping :: "env \<Rightarrow> ('x, bool) act" where
  \<comment> \<open>\<open>FeatureDatabaseML.ping\<close>; only the errors of the driver make it \<open>False\<close>\<close>
  "ml_ping ev =
     attempt (bnd (call ev ans_unit (SqlRun ''ping'' [])) (\<lambda>_. ret True))
       (\<lambda>e. if is_psycopg_error e then ret False else throw e)"

lemma ml_ping_answers:
  "ml_ping ev w = (r, w') \<Longrightarrow> r = Inr True \<or> r = Inr False \<or> (\<exists>e. r = Inl e \<and> \<not> is_psycopg_error e)"
  by (auto simp: ml_ping_def attempt_def bnd_def call_run split: sum.splits if_splits)

subsection \<open>The worker\<close>

definition ml_stream :: string where "ml_stream = ''feature.computed''"
definition ml_group :: string where "ml_group = ''ml-service''"
definition inference_timeframes :: "string list" where "inference_timeframes = [''M15'', ''H1'']"

definition load_models :: "('h, 'm) ml_config \<Rightarrow> ('h, 'm, 'x, bool) ml_act" where
  \<comment> \<open>\<open>_load_models\<close>: a bundle loaded before a failure stays\<close>
  "load_models cfg =
     attempt
       (bnd (look ml_files) (\<lambda>fs.
        bnd (lift_res (load_regime_model (mc_hmm_store cfg) hmm_path fs)) (\<lambda>r.
        bnd (update (\<lambda>w. w\<lparr>ml_regime := Some (r\<lparr>rb_path := hmm_path\<rparr>)\<rparr>)) (\<lambda>_.
        bnd (lift_res (load_meta_model (mc_meta_store cfg) meta_path fs)) (\<lambda>m.
        bnd (update (\<lambda>w. w\<lparr>ml_meta := Some m\<rparr>)) (\<lambda>_.
        ret True))))))
       (\<lambda>e. if is_exception e then ret False else throw e)"

record feature_window =
  fw_ts :: "int list"
  fw_matrix :: matrix
  fw_probs :: matrix

definition zero_posterior :: "f64 list" where "zero_posterior = [0, 0, 0]"

definition window_of ::
  "('h, 'm) ml_config \<Rightarrow> 'h regime_bundle \<Rightarrow> int list \<Rightarrow> matrix \<Rightarrow> f64 list \<Rightarrow> f64 list \<Rightarrow> feature_window res" where
  \<comment> \<open>the rest of \<open>_latest_feature_row\<close> once the rows are loaded\<close>
  "window_of cfg bundle ts m close a =
     res_bind (build_regime_matrix (mc_lib cfg) close a) (\<lambda>hmm_x.
     res_bind (if length m \<le> length hmm_x
               then ml_hmm_posterior (mc_lib cfg) (rb_model bundle) (neg_slice (int (length m)) hmm_x)
               else Inr (replicate (length m) zero_posterior)) (\<lambda>probs.
     let n = int (min (length m) (length probs))
     in Inr \<lparr>fw_ts = neg_slice n ts, fw_matrix = neg_slice n m, fw_probs = neg_slice n probs\<rparr>))"

definition latest_feature_row ::
  "env \<Rightarrow> ('h, 'm) ml_config \<Rightarrow> fields \<Rightarrow> string \<Rightarrow> string \<Rightarrow> ('h, 'm, 'x, feature_window option) ml_act" where
  "latest_feature_row ev cfg decoded symb tf =
     bnd (lift_res (getitem decoded ''symbol'')) (\<lambda>_.
     bnd (lift_res (getitem decoded ''timeframe'')) (\<lambda>_.
     bnd (fetch_feature_matrix ev (mc_codec cfg) symb tf (Some 64)) (\<lambda>(ts, cols, m).
     if m = [] then ret None
     else
       bnd (fetch_close_atr ev (mc_codec cfg) symb tf) (\<lambda>(ts2, close, a).
       bnd (look ml_regime) (\<lambda>bundle.
       case bundle of
         None \<Rightarrow> ret None
       | Some b \<Rightarrow> bnd (lift_res (window_of cfg b ts m close a)) (\<lambda>fw. ret (Some fw)))))))"

record inference =
  inf_label :: string
  inf_state :: nat
  inf_p0 :: f64
  inf_p1 :: f64
  inf_p2 :: f64
  inf_meta :: meta_probs

definition worker_label :: "(string \<times> nat) list \<Rightarrow> nat \<Rightarrow> string" where
  \<comment> \<open>\<open>str(label_by_state.get(best_state, "S0_range"))\<close>\<close>
  "worker_label order best = (case label_by_state order best of None \<Rightarrow> ''S0_range'' | Some l \<Rightarrow> l)"

definition infer ::
  "('h, 'm) ml_config \<Rightarrow> 'h regime_bundle \<Rightarrow> 'm meta_bundle \<Rightarrow> feature_window \<Rightarrow> inference res" where
  "infer cfg regime meta fw =
     (let posterior = (if fw_probs fw \<noteq> [] then last (fw_probs fw) else zero_posterior);
          order = rb_order regime
      in res_bind (np_argmax posterior) (\<lambda>best.
         res_bind (build_meta_features (mc_lib cfg) (mb_names meta) (fw_matrix fw) (Some (fw_probs fw))
                     (Some (fw_ts fw))) (\<lambda>(names, x).
         res_bind (if x = [] then Inl IndexError else Inr (last x)) (\<lambda>row.
         res_bind (predict_proba (mc_lib cfg) meta row) (\<lambda>mp.
         res_bind (order_prob order posterior ''S0'') (\<lambda>p0.
         res_bind (order_prob order posterior ''S1'') (\<lambda>p1.
         res_bind (order_prob order posterior ''S2'') (\<lambda>p2.
         Inr \<lparr>inf_label = worker_label order best, inf_state = best, inf_p0 = p0, inf_p1 = p1,
              inf_p2 = p2, inf_meta = mp\<rparr>))))))))"

definition regime_json :: "string \<Rightarrow> string \<Rightarrow> pytext \<Rightarrow> inference \<Rightarrow> pytext \<Rightarrow> json dict" where
  "regime_json symb tf ts_iso r cid = [
     (''symbol'', JStr (T symb)),
     (''timeframe'', JStr (T tf)),
     (''ts'', JStr ts_iso),
     (''regime'', JStr (T (inf_label r))),
     (''state'', JInt (int (inf_state r))),
     (''probabilities'', JArr [JNum (inf_p0 r), JNum (inf_p1 r), JNum (inf_p2 r)]),
     (''correlation_id'', JStr cid)]"

definition meta_json :: "string \<Rightarrow> string \<Rightarrow> meta_probs \<Rightarrow> json dict" where
  "meta_json symb tf p = [
     (''symbol'', JStr (T symb)), (''timeframe'', JStr (T tf)),
     (''p_up'', JNum (pr_up p)), (''p_down'', JNum (pr_down p))]"

definition numpy_stamp :: "int list \<Rightarrow> pytext res" where
  \<comment> \<open>\<open>str(ts[-1])\<close> of a numpy timestamp\<close>
  "numpy_stamp ts = (if ts = [] then Inl IndexError else Inr (TRepr (JInt (last ts))))"

definition plain_or_empty :: "fields \<Rightarrow> string \<Rightarrow> string res" where
  \<comment> \<open>\<open>decoded.get(k, "")\<close>; the text is literal\<close>
  "plain_or_empty decoded k =
     (case dget decoded k of
        None \<Rightarrow> Inr ''''
      | Some t \<Rightarrow> (case text_plain t of Some s \<Rightarrow> Inr s | None \<Rightarrow> Inl BadAnswer))"

definition worker_body :: "env \<Rightarrow> ('h, 'm) ml_config \<Rightarrow> fields \<Rightarrow> pytext \<Rightarrow> ('h, 'm, 'x, unit) ml_act" where
  "worker_body ev cfg decoded cid =
     bnd (lift_res (plain_or_empty decoded ''timeframe'')) (\<lambda>tf.
     bnd (lift_res (plain_or_empty decoded ''symbol'')) (\<lambda>symb.
     if tf \<notin> set inference_timeframes then ret ()
     else
       bnd (look (\<lambda>w. (ml_regime w, ml_meta w))) (\<lambda>bundles.
       case bundles of
         (Some regime, Some meta) \<Rightarrow>
           bnd (latest_feature_row ev cfg decoded symb tf) (\<lambda>row.
           case row of
             None \<Rightarrow> ret ()
           | Some fw \<Rightarrow>
               bnd (lift_res (numpy_stamp (fw_ts fw))) (\<lambda>stamp.
               bnd (lift_res (infer cfg regime meta fw)) (\<lambda>r.
               bnd (call ev ans_unit (RedisSet ''regime:current''
                      (TJson (JObj (regime_json symb tf stamp r cid))) None)) (\<lambda>_.
               bnd (call ev ans_unit (RedisSet ''meta_label:current''
                      (TJson (JObj (meta_json symb tf (inf_meta r)))) None)) (\<lambda>_.
               update (\<lambda>w. w\<lparr>ml_processed := Suc (ml_processed w)\<rparr>))))))
       | _ \<Rightarrow> ret ())))"

definition worker_handle :: "env \<Rightarrow> ('h, 'm) ml_config \<Rightarrow> string \<Rightarrow> fields \<Rightarrow> ('h, 'm, 'x, unit) ml_act" where
  "worker_handle ev cfg message_id decoded =
     with_correlation ev decoded (worker_body ev cfg decoded) (ret ())"

definition worker_deliver :: "env \<Rightarrow> ('h, 'm) ml_config \<Rightarrow> string \<times> fields \<Rightarrow> ('h, 'm, 'x, unit) ml_act" where
  \<comment> \<open>one message: an exception of the handler is logged and the message acknowledged\<close>
  "worker_deliver ev cfg m =
     (case m of (mid, fs) \<Rightarrow>
        bnd (attempt (worker_handle ev cfg mid fs) (\<lambda>e. if is_exception e then ret () else throw e)) (\<lambda>_.
        call ev ans_unit (XAck ml_stream ml_group mid)))"

definition worker_pause :: "env \<Rightarrow> ('x, (string \<times> fields) list option) act" where
  "worker_pause ev = bnd (call ev ans_unit (SleepFor (mk 2))) (\<lambda>_. ret None)"

definition worker_read :: "env \<Rightarrow> ('h, 'm) ml_config \<Rightarrow> ('h, 'm, 'x, (string \<times> fields) list option) ml_act" where
  \<comment> \<open>the \<open>try\<close> of the loop; \<open>None\<close> is \<open>continue\<close>\<close>
  "worker_read ev cfg =
     attempt
       (bnd (look (\<lambda>w. ml_regime w = None \<or> ml_meta w = None)) (\<lambda>missing.
        bnd (if missing then load_models cfg else ret True) (\<lambda>_.
        bnd (call ev ans_msgs (XReadGroup ml_stream ml_group)) (\<lambda>ms. ret (Some ms)))))
       (\<lambda>e. if is_response_error e \<and> contains ''NOGROUP'' (error_text e)
            then bnd (attempt (call ev ans_unit (XGroupCreate ml_stream ml_group))
                       (\<lambda>e2. if is_response_error e2 then ret () else throw e2)) (\<lambda>_.
                 worker_pause ev)
            else if is_exception e then worker_pause ev
            else throw e)"

definition worker_round :: "env \<Rightarrow> ('h, 'm) ml_config \<Rightarrow> ('h, 'm, 'x, unit) ml_act" where
  "worker_round ev cfg =
     bnd (worker_read ev cfg) (\<lambda>response.
     case response of None \<Rightarrow> ret () | Some ms \<Rightarrow> each (worker_deliver ev cfg) ms)"

fun worker_rounds :: "env \<Rightarrow> ('h, 'm) ml_config \<Rightarrow> nat \<Rightarrow> ('h, 'm, 'x, unit) ml_act" where
  "worker_rounds ev cfg 0 = ret ()"
| "worker_rounds ev cfg (Suc n) = bnd (worker_round ev cfg) (\<lambda>_. worker_rounds ev cfg n)"

definition worker_run_forever :: "env \<Rightarrow> ('h, 'm) ml_config \<Rightarrow> nat \<Rightarrow> ('h, 'm, 'x, unit) ml_act" where
  \<comment> \<open>the first \<open>n\<close> rounds\<close>
  "worker_run_forever ev cfg n =
     bnd (ensure_group ev ml_stream ml_group) (\<lambda>_. worker_rounds ev cfg n)"

subsection \<open>Routes\<close>

definition train_set ::
  "('h, 'm) ml_config \<Rightarrow> int list \<Rightarrow> string list \<Rightarrow> matrix \<Rightarrow> matrix \<Rightarrow> int list \<Rightarrow> (string list \<times> matrix \<times> int list) res" where
  \<comment> \<open>the alignment step of \<open>_train_sync\<close>: labels are those of the whole price series\<close>
  "train_set cfg ts columns m probs labels =
     (let n = int (min (length m) (length probs));
          y_all = neg_slice (int (length m)) labels;
          usable = min n (int (length y_all) - int vertical_bars)
      in res_bind (build_meta_features (mc_lib cfg) columns (neg_slice usable m)
                     (Some (neg_slice usable probs)) (Some (neg_slice usable ts))) (\<lambda>(names, x).
         Inr (names, x, neg_slice usable y_all)))"

definition train_regime :: "('h, 'm) ml_config \<Rightarrow> matrix \<Rightarrow> ('h, 'm, 'x, 'h regime_bundle) ml_act" where
  \<comment> \<open>\<open>train_hmm\<close> and the reload of its artifact\<close>
  "train_regime cfg hmm_x =
     bnd (look ml_files) (\<lambda>fs.
     bnd (lift_res (train_hmm (mc_lib cfg) (mc_hmm_store cfg) hmm_x hmm_path fs)) (\<lambda>(trained, fs1).
     bnd (update (\<lambda>w. w\<lparr>ml_files := fs1\<rparr>)) (\<lambda>_.
     lift_res (load_regime_model (mc_hmm_store cfg) hmm_path fs1))))"

definition train_meta :: "('h, 'm) ml_config \<Rightarrow> string list \<Rightarrow> matrix \<Rightarrow> int list \<Rightarrow> ('h, 'm, 'x, 'm meta_bundle) ml_act" where
  "train_meta cfg names x y =
     bnd (look ml_files) (\<lambda>fs.
     bnd (lift_res (train_meta_label (mc_lib cfg) (mc_meta_store cfg) x y names meta_path fs)) (\<lambda>(bundle, fs1).
     bnd (update (\<lambda>w. w\<lparr>ml_files := fs1\<rparr>)) (\<lambda>_.
     ret bundle)))"

definition train_sync :: "env \<Rightarrow> ('h, 'm) ml_config \<Rightarrow> string \<Rightarrow> ('h, 'm, 'x, f64 list) ml_act" where
  \<comment> \<open>\<open>_train_sync\<close>; the fold losses stand for their mean\<close>
  "train_sync ev cfg tf =
     bnd (fetch_feature_matrix ev (mc_codec cfg) (mc_symbol cfg) tf None) (\<lambda>(ts, columns, m).
     bnd (fetch_close_atr ev (mc_codec cfg) (mc_symbol cfg) tf) (\<lambda>(ts2, close, a).
     if length m < 500 then throw (RuntimeError ''insufficient training history'')
     else
       bnd (lift_res (build_regime_matrix (mc_lib cfg) close a)) (\<lambda>hmm_x.
       bnd (train_regime cfg hmm_x) (\<lambda>bundle.
       bnd (lift_res (ml_hmm_posterior (mc_lib cfg) (rb_model bundle) (neg_slice (int (length m)) hmm_x))) (\<lambda>probs.
       bnd (lift_res (apply_triple_barrier vertical_bars atr_mult close a)) (\<lambda>labels.
       bnd (lift_res (train_set cfg ts columns m probs labels)) (\<lambda>(names, x, y).
       bnd (train_meta cfg names x y) (\<lambda>meta.
       ret (mb_losses meta)))))))))"

definition train_job :: "env \<Rightarrow> ('h, 'm) ml_config \<Rightarrow> string \<Rightarrow> ('h, 'm, 'x, unit) ml_act" where
  "train_job ev cfg tf =
     bnd (look ml_training) (\<lambda>held.
     if held then ret ()
     else
       bnd (update (\<lambda>w. w\<lparr>ml_training := True\<rparr>)) (\<lambda>_.
       finally_do
         (attempt (bnd (train_sync ev cfg tf) (\<lambda>_. ret ()))
            (\<lambda>e. if is_exception e then ret () else throw e))
         (update (\<lambda>w. w\<lparr>ml_training := False\<rparr>))))"

definition train_route :: "env \<Rightarrow> string \<Rightarrow> ('x, json dict) act" where
  \<comment> \<open>the response; the job runs after it\<close>
  "train_route ev tf =
     (if tf \<notin> {''M5'', ''M15'', ''H1''} then throw (HTTPException 422 (''unsupported timeframe '' @ tf))
      else bnd (new_correlation_id ev) (\<lambda>cid.
           ret [(''queued'', JBool True), (''timeframe'', JStr (T tf)),
                (''artifacts'', JArr [JStr (T hmm_path), JStr (T meta_path)]),
                (''correlation_id'', JStr cid)]))"

definition load_both :: "('h, 'm) ml_config \<Rightarrow> files \<Rightarrow> ('h regime_bundle \<times> 'm meta_bundle) res" where
  "load_both cfg fs =
     (case res_bind (load_regime_model (mc_hmm_store cfg) hmm_path fs) (\<lambda>r.
           res_bind (load_meta_model (mc_meta_store cfg) meta_path fs) (\<lambda>m. Inr (r, m))) of
        Inl e \<Rightarrow> if is_exception e then Inl (HTTPException 503 ''models unavailable; POST /train first'') else Inl e
      | Inr p \<Rightarrow> Inr p)"

definition predict_view ::
  "('h, 'm) ml_config \<Rightarrow> string \<Rightarrow> 'h regime_bundle \<Rightarrow> 'm meta_bundle \<Rightarrow> int list \<Rightarrow> string list \<Rightarrow> matrix \<Rightarrow>
   f64 list \<Rightarrow> f64 list \<Rightarrow> json dict res" where
  "predict_view cfg tf regime meta ts columns m close a =
     res_bind (build_regime_matrix (mc_lib cfg) close a) (\<lambda>hmm_x.
     res_bind (if hmm_x = [] then Inl IndexError else Inr (last hmm_x)) (\<lambda>x_latest.
     res_bind (predict_regime (mc_lib cfg) regime x_latest) (\<lambda>p.
     res_bind (ml_hmm_posterior (mc_lib cfg) (rb_model regime) hmm_x) (\<lambda>posteriors.
     res_bind (build_meta_features (mc_lib cfg) columns m (Some (neg_slice (int (length m)) posteriors))
                 (Some ts)) (\<lambda>(names, x).
     res_bind (if x = [] then Inl IndexError else Inr (last x)) (\<lambda>row.
     res_bind (predict_proba (mc_lib cfg) meta row) (\<lambda>mp.
     res_bind (numpy_stamp ts) (\<lambda>stamp.
     Inr [(''symbol'', JStr (T (mc_symbol cfg))), (''timeframe'', JStr (T tf)), (''ts'', JStr stamp),
          (''regime'', JStr (T (rp_label p))), (''state_id'', JInt (int (rp_state p))),
          (''probabilities'', JObj [(''S0'', JNum (rp_s0 p)), (''S1'', JNum (rp_s1 p)), (''S2'', JNum (rp_s2 p))]),
          (''p_up'', JNum (pr_up mp)), (''p_down'', JNum (pr_down mp))]))))))))"

definition predict_route :: "env \<Rightarrow> ('h, 'm) ml_config \<Rightarrow> string \<Rightarrow> ('h, 'm, 'x, json dict) ml_act" where
  "predict_route ev cfg tf =
     bnd (look ml_files) (\<lambda>fs.
     bnd (lift_res (load_both cfg fs)) (\<lambda>(regime, meta).
     bnd (fetch_feature_matrix ev (mc_codec cfg) (mc_symbol cfg) tf (Some 64)) (\<lambda>(ts, columns, m).
     if m = [] then throw (HTTPException 503 ''no features stored yet'')
     else
       bnd (fetch_close_atr ev (mc_codec cfg) (mc_symbol cfg) tf) (\<lambda>(ts2, close, a).
       lift_res (predict_view cfg tf regime meta ts columns m close a)))))"

definition ml_health :: "json dict" where
  "ml_health = [(''service'', JStr (T ''ml-service'')), (''status'', JStr (T ''ok''))]"

subsection \<open>No message stalls the worker\<close>

definition ordinary_failures :: "env \<Rightarrow> ('h, 'm) ml_config \<Rightarrow> (string \<times> fields) list \<Rightarrow> bool" where
  \<comment> \<open>a handler run ends, by returning or by an \<open>Exception\<close>\<close>
  "ordinary_failures ev cfg ms \<longleftrightarrow> (\<forall>(mid, fs) \<in> set ms. \<forall>w :: ('h, 'm) ml_world. \<forall>e w'.
     worker_handle ev cfg mid fs w = (Inl e, w') \<longrightarrow> is_exception e)"

lemma worker_body_ackless: "keeps (log_grows (\<lambda>c. \<not> is_ack c)) (worker_body ev cfg decoded cid)"
  unfolding worker_body_def latest_feature_row_def fetch_feature_matrix_def fetch_close_atr_def Let_def
  by (auto intro!: keeps_log_update keeps_log_call split: option.split prod.split)

lemma worker_handle_ackless: "keeps (log_grows (\<lambda>c. \<not> is_ack c)) (worker_handle ev cfg mid decoded)"
  unfolding worker_handle_def by (intro lgc.keeps_with_correlation worker_body_ackless lg.keeps_ret) simp

lemma deliver_acks:
  fixes w :: "('h, 'm) ml_world"
  assumes "\<And>w :: ('h, 'm) ml_world. \<And>e w'. worker_handle ev cfg mid fs w = (Inl e, w') \<Longrightarrow> is_exception e"
    and "\<And>l. ans_unit (reply ev l (XAck ml_stream ml_group mid)) = Inr ()"
  shows "\<exists>w'. worker_deliver ev cfg (mid, fs) w = (Inr (), w') \<and>
    acks (log w') = acks (log w) @ [XAck ml_stream ml_group mid]"
proof -
  obtain r v where h: "worker_handle ev cfg mid fs w = (r, v)" by (metis surj_pair)
  have a: "acks (log v) = acks (log w)" by (rule ackless_log [OF worker_handle_ackless h])
  have "attempt (worker_handle ev cfg mid fs) (\<lambda>e. if is_exception e then ret () else throw e) w = (Inr (), v)"
    using h assms(1) [of w _ v] by (cases r) (auto simp: attempt_def)
  then show ?thesis using a assms(2) by (simp add: worker_deliver_def bnd_def call_run)
qed

lemma delivers_acks:
  fixes w :: "('h, 'm) ml_world"
  assumes "ordinary_failures ev cfg ms"
    and "\<And>l i. ans_unit (reply ev l (XAck ml_stream ml_group i)) = Inr ()"
  shows "\<exists>w'. each (worker_deliver ev cfg) ms w = (Inr (), w') \<and>
    acks (log w') = acks (log w) @ map (\<lambda>(i, fs). XAck ml_stream ml_group i) ms"
  using assms(1)
proof (induction ms arbitrary: w)
  case (Cons m ms)
  obtain i fs where m: "m = (i, fs)" by (cases m)
  have "\<exists>v. worker_deliver ev cfg (i, fs) w = (Inr (), v) \<and> acks (log v) = acks (log w) @ [XAck ml_stream ml_group i]"
  proof (rule deliver_acks [OF _ assms(2)])
    fix w :: "('h, 'm) ml_world" and e w'
    assume "worker_handle ev cfg i fs w = (Inl e, w')"
    then show "is_exception e"
      using Cons.prems unfolding ordinary_failures_def m by fastforce
  qed
  then obtain v where v: "worker_deliver ev cfg (i, fs) w = (Inr (), v)"
    "acks (log v) = acks (log w) @ [XAck ml_stream ml_group i]" by blast
  obtain w' where "each (worker_deliver ev cfg) ms v = (Inr (), w')"
    "acks (log w') = acks (log v) @ map (\<lambda>(i, fs). XAck ml_stream ml_group i) ms"
    using Cons.IH [of v] Cons.prems by (auto simp: ordinary_failures_def)
  then show ?case using v by (auto simp: m bnd_Inr_iff)
qed simp

lemma load_models_ordinary:
  assumes "load_models cfg w = (r, w')"
  shows "log w' = log w"
  using assms by (auto simp: load_models_def attempt_def bnd_def split: sum.splits if_splits prod.splits)


subsection \<open>A concrete round\<close>

definition demo_meta_bundle :: "unit meta_bundle" where
  "demo_meta_bundle = \<lparr>mb_model = (), mb_classes = classes, mb_names = feature_columns, mb_losses = [],
     mb_horizon = vertical_bars, mb_mult = atr_mult\<rparr>"

definition fixed_store :: "'o \<Rightarrow> 'o artifact_lib" where
  "fixed_store x = \<lparr>al_digest = (\<lambda>b. replicate 64 (CHR ''a'')), al_dump = (\<lambda>y. Inr ''''),
     al_load = (\<lambda>b. Inr x), al_decode = Inr\<rparr>"

definition demo_ml_config :: "(unit, unit) ml_config" where
  "demo_ml_config = \<lparr>mc_lib = demo_ml_lib, mc_hmm_store = fixed_store demo_regime_bundle,
     mc_meta_store = fixed_store demo_meta_bundle, mc_codec = strict_codec, mc_symbol = ''V75''\<rparr>"

definition start_ml_world :: "(unit, unit) ml_world" where
  "start_ml_world = \<lparr>log = [], ctx = None, conn = False, ml_files = [], ml_regime = Some demo_regime_bundle,
     ml_meta = Some demo_meta_bundle, ml_processed = 0, ml_training = False\<rparr>"

definition poison :: fields where
  \<comment> \<open>an event without a symbol\<close>
  "poison = [(''timeframe'', T ''M15''), (''correlation_id'', T ''c1'')]"

definition batch_env :: "string \<Rightarrow> string \<Rightarrow> (string \<times> fields) list \<Rightarrow> env" where
  "batch_env st g ms = \<lparr>reply = (\<lambda>l c. if c = XReadGroup st g then AMsgs ms else AUnit)\<rparr>"

lemma poison_fails:
  "worker_handle ev cfg mid poison w = (r, w') \<Longrightarrow> r = Inr () \<or> r = Inl (KeyError ''symbol'')"
  by (cases "ml_regime w"; cases "ml_meta w")
    (auto simp: worker_handle_def with_correlation_def get_or_create_correlation_id_def payload_correlation_def
      poison_def bnd_def bind_correlation_id_def unbind_correlation_id_def finally_do_def worker_body_def
      plain_or_empty_def inference_timeframes_def latest_feature_row_def getitem_def split: if_splits)

lemma poison_ordinary: "ordinary_failures ev cfg [(mid, poison)]"
  using poison_fails unfolding ordinary_failures_def by fastforce


subsection \<open>What the worker caches\<close>

lemma infer_label:
  assumes "infer cfg regime meta fw = Inr r"
  shows "inf_label r = worker_label (rb_order regime) (inf_state r) \<and>
    np_argmax (if fw_probs fw \<noteq> [] then last (fw_probs fw) else zero_posterior) = Inr (inf_state r)"
  using assms unfolding infer_def Let_def res_bind_Inr_iff by (auto simp: res_bind_Inr_iff split: prod.splits)

lemma argmax_from_bound:
  "best < i \<Longrightarrow> argmax_from i best m xs < i + length xs"
proof (induction xs arbitrary: i best m)
  case (Cons x xs)
  show ?case using Cons.IH [of i "Suc i" x] Cons.IH [of best "Suc i" m] Cons.prems by simp
qed simp

lemma np_argmax_bound: "np_argmax xs = Inr i \<Longrightarrow> i < length xs"
  using argmax_from_bound [of 0 1] by (auto simp: np_argmax_def split: list.splits)

text \<open>
  The labels of a trained order are the short names S0, S1 and S2, which \<open>RegimeState\<close> does not
  know: what the worker caches under \<open>regime:current\<close> never reads back as a regime.
\<close>

lemma worker_label_short:
  assumes "length means = 3" "best < 3"
  shows "worker_label (canonical_order means) best \<in> {''S0'', ''S1'', ''S2''}"
proof -
  obtain a b c where abc: "argsort means = [a, b, c]" "{a, b, c} = {0, 1, 2}" "distinct [a, b, c]"
    using argsort_three [OF assms(1)] by metis
  have "best \<in> {0, 1, 2 :: nat}" using assms(2) by auto
  then have "best \<in> {a, b, c}" using abc(2) by (simp only:)
  then show ?thesis using abc(3)
    by (auto simp: worker_label_def canonical_order_def abc(1))
qed

lemma short_not_regime: "l \<in> {''S0'', ''S1'', ''S2''} \<Longrightarrow> \<exists>e. regime_of_value l = Inl e"
  by (auto simp: regime_of_value_def)

lemma cached_label_unresolved:
  assumes "infer cfg regime meta fw = Inr r" "rb_order regime = canonical_order means" "length means = 3"
    and "fw_probs fw \<noteq> [] \<longrightarrow> length (last (fw_probs fw)) = 3"
  shows "\<exists>e. regime_of_value (inf_label r) = Inl e"
proof -
  have "inf_state r < 3"
    using infer_label [OF assms(1)] np_argmax_bound assms(4)
    by (force simp: zero_posterior_def split: if_splits)
  then show ?thesis
    using short_not_regime worker_label_short [OF assms(3)] infer_label [OF assms(1)] assms(2) by simp
qed

text \<open>
  The training set keeps the rows whose horizon is incomplete: it is cut at the old end, so its
  last label is the label of the last bar, which is always the vertical one.
\<close>

lemma training_keeps_incomplete_rows:
  assumes "apply_triple_barrier vertical_bars mult close a = Inr labels" "close \<noteq> []"
    and "train_set cfg ts columns m probs labels = Inr (names, x, y)" "y \<noteq> []" "m \<noteq> []"
    and "vertical_bars < length labels" "vertical_bars < length m" "vertical_bars < length probs"
  shows "last y = last labels \<and> last y = 0"
proof -
  let ?y = "neg_slice (int (length m)) labels"
  let ?u = "min (int (min (length m) (length probs))) (int (length ?y) - int vertical_bars)"
  have y: "y = neg_slice ?u ?y"
    using assms(3) by (auto simp: train_set_def Let_def res_bind_Inr_iff split: prod.splits)
  have tail: "last (neg_slice u xs) = last xs" if "neg_slice u xs \<noteq> []" for u and xs :: "int list"
    using that by (auto simp: neg_slice_def split: if_splits)
  have "?y \<noteq> []" using y assms(4) by (auto simp: neg_slice_def)
  then have "last y = last labels" using tail assms(4) y by metis
  then show ?thesis using last_label_vertical [OF assms(1,2)] by simp
qed

end
