(* ===== verification/Outcomes.thy ===== *)
theory Outcomes
  imports Bus
begin

text \<open>
  Which exceptions an action can end with, and which actions always return: the calculus behind
  the claims that a consumer survives the failures it is meant to survive.
\<close>

definition fails_with :: "(exn \<Rightarrow> bool) \<Rightarrow> ('x, 'a) act \<Rightarrow> bool" where
  "fails_with P m \<longleftrightarrow> (\<forall>w e w'. m w = (Inl e, w') \<longrightarrow> P e)"

definition always :: "('x, 'a) act \<Rightarrow> bool" where
  "always m \<longleftrightarrow> fails_with (\<lambda>e. False) m"

lemma fails_withD: "fails_with P m \<Longrightarrow> m w = (Inl e, w') \<Longrightarrow> P e"
  by (auto simp: fails_with_def)

lemma alwaysD: "always m \<Longrightarrow> \<exists>x w'. m w = (Inr x, w')"
  unfolding always_def fails_with_def by (metis obj_sumE surj_pair)

lemma fails_with_mono: "fails_with P m \<Longrightarrow> (\<And>e. P e \<Longrightarrow> Q e) \<Longrightarrow> fails_with Q m"
  by (auto simp: fails_with_def)

lemma always_fails_with: "always m \<Longrightarrow> fails_with P m"
  by (auto simp: always_def fails_with_def)

lemma fails_ret [intro!]: "fails_with P (ret x)"
  and fails_update [intro!]: "fails_with P (update f)"
  and fails_look [intro!]: "fails_with P (look g)"
  and fails_throw: "P e \<Longrightarrow> fails_with P (throw e)"
  and fails_lift: "(\<And>e. r = Inl e \<Longrightarrow> P e) \<Longrightarrow> fails_with P (lift_res r)"
  by (auto simp: fails_with_def)

lemma fails_call: "(\<And>l e. read (reply ev l c) = Inl e \<Longrightarrow> P e) \<Longrightarrow> fails_with P (call ev read c)"
  by (auto simp: fails_with_def call_run)

lemma fails_bnd [intro!]: "fails_with P m \<Longrightarrow> (\<And>x. fails_with P (f x)) \<Longrightarrow> fails_with P (bnd m f)"
  unfolding fails_with_def by (blast elim: bnd_cases)

lemma fails_if [intro!]: "(b \<Longrightarrow> fails_with P m) \<Longrightarrow> (\<not> b \<Longrightarrow> fails_with P n) \<Longrightarrow> fails_with P (if b then m else n)"
  by simp

lemma fails_option [intro!]:
  "fails_with P m \<Longrightarrow> (\<And>x. v = Some x \<Longrightarrow> fails_with P (f x)) \<Longrightarrow> fails_with P (case v of None \<Rightarrow> m | Some x \<Rightarrow> f x)"
  by (cases v) simp_all

lemma fails_prod [intro!]: "(\<And>a b. v = (a, b) \<Longrightarrow> fails_with P (f a b)) \<Longrightarrow> fails_with P (case v of (a, b) \<Rightarrow> f a b)"
  by (cases v) simp

lemma fails_each: "(\<And>x. x \<in> set xs \<Longrightarrow> fails_with P (f x)) \<Longrightarrow> fails_with P (each f xs)"
  by (induction xs) auto

lemma fails_attempt:
  assumes "fails_with Q m" "\<not> Q Diverged" "\<And>e. Q e \<Longrightarrow> fails_with P (h e)"
  shows "fails_with P (attempt m h)"
  using assms unfolding fails_with_def by (metis attempt_cases Inl_Inr_False)

lemma fails_finally:
  "fails_with P m \<Longrightarrow> always f \<Longrightarrow> fails_with P (finally_do m f)"
  unfolding always_def fails_with_def by (fastforce elim!: finally_cases split: sum.splits)

lemma fails_with_correlation:
  assumes "\<And>l. \<exists>t. ans_text (reply ev l NewId) = Inr (Some t)" "\<And>cid. fails_with P (body cid)" "always last_do"
  shows "fails_with P (with_correlation ev payload body last_do)"
proof -
  have new: "fails_with P (new_correlation_id ev)"
  proof -
    have "fst (new_correlation_id ev w) \<noteq> Inl e" for w :: "'x world_scheme" and e
      using assms(1) [of "log w"] by (auto simp: new_correlation_id_def bnd_def call_run)
    then show ?thesis by (metis fails_with_def fst_conv)
  qed
  have "always (bnd last_do (\<lambda>_. unbind_correlation_id))"
    using assms(3) unfolding always_def unbind_correlation_id_def by auto
  then show ?thesis
    unfolding with_correlation_def get_or_create_correlation_id_def bind_correlation_id_def
    using assms(2) new by (auto intro!: fails_finally)
qed

end
