(* ===== verification/Notify.thy ===== *)
theory Notify
  imports Outcomes Rows Connection
begin

text \<open>
  The notify service: \<open>telegram.py\<close> (alert texts and best-effort delivery), \<open>lifecycle.py\<close> (the
  audit trail) and \<open>consumer.py\<close> (the worker over the five lifecycle streams). Redis clients are
  built with \<open>decode_responses=True\<close>, so keys, values and message ids are \<open>str\<close>.
\<close>

subsection \<open>State\<close>

record notify_world = world +
  nt_recorded :: nat
  nt_sent :: nat
  nt_failed :: nat
  nt_processed :: nat
  nt_alerts :: nat

type_synonym ('x, 'a) notify_act = "('x notify_world_ext, 'a) act"

subsection \<open>Alert texts\<close>

definition utf8 :: "nat list \<Rightarrow> pytext" where "utf8 bs = T (map char_of bs)"

definition em_dash :: pytext where "em_dash = utf8 [226, 128, 148]"
definition yellow :: pytext where "yellow = utf8 [240, 159, 159, 161]"
definition green :: pytext where "green = utf8 [240, 159, 159, 162]"
definition red :: pytext where "red = utf8 [240, 159, 148, 180]"
definition blue :: pytext where "blue = utf8 [240, 159, 148, 181]"
definition chart_up :: pytext where "chart_up = utf8 [240, 159, 147, 136]"
definition chart_down :: pytext where "chart_down = utf8 [240, 159, 147, 137]"
definition nl :: pytext where "nl = T [char_of (10 :: nat)]"

definition get_or :: "json dict \<Rightarrow> string \<Rightarrow> json \<Rightarrow> json" where
  \<comment> \<open>\<open>payload.get(k, default)\<close>\<close>
  "get_or payload k d = (case dget payload k of None \<Rightarrow> d | Some v \<Rightarrow> v)"

definition get_dash :: "json dict \<Rightarrow> string \<Rightarrow> json" where
  "get_dash payload k = get_or payload k (JStr em_dash)"

definition first_truthy :: "json dict \<Rightarrow> string \<Rightarrow> string \<Rightarrow> json" where
  \<comment> \<open>\<open>payload.get(a) or payload.get(b) or "--"\<close>\<close>
  "first_truthy payload a b =
     (let va = get_or payload a JNull; vb = get_or payload b JNull in
      if json_truthy va then va else if json_truthy vb then vb else JStr em_dash)"

definition escaped :: "json dict \<Rightarrow> string \<Rightarrow> pytext" where
  \<comment> \<open>\<open>e(str(payload.get(k, "--")))\<close>\<close>
  "escaped payload k = TEsc (py_str (get_dash payload k))"

fun is_number :: "json \<Rightarrow> bool" where
  \<comment> \<open>\<open>isinstance(v, (int, float))\<close>; a bool is an int\<close>
  "is_number (JInt n) = True"
| "is_number (JNum x) = True"
| "is_number (JBool b) = True"
| "is_number v = False"

definition p_win_text :: "codec \<Rightarrow> json \<Rightarrow> pytext res" where
  "p_win_text cd v =
     (if is_number v then res_bind (json_float cd v) (\<lambda>x. Inr (TFix 2 x)) else Inr em_dash)"

definition format_generated :: "codec \<Rightarrow> json dict \<Rightarrow> pytext res" where
  "format_generated cd payload =
     (let regime = first_truthy payload ''regime'' ''regime_label'';
          tf = first_truthy payload ''timeframe'' ''ltf_timeframe'';
          shown = (\<lambda>k. py_str (get_dash payload k))
      in res_bind (p_win_text cd (get_or payload ''p_win'' JNull)) (\<lambda>p_win_s.
         Inr (TCat [yellow, T '' <b>SIGNAL GENERATED</b>'', nl,
           T ''Symbol: '', escaped payload ''symbol'', nl,
           T ''Direction: '', escaped payload ''direction'', T '' | TF: '', TEsc (py_str tf), nl,
           T ''Score: '', shown ''score'', T ''/'', py_str (get_or payload ''max_score'' (JInt 7)), nl,
           T ''Regime: '', TEsc (py_str regime), T '' | P(win): '', p_win_s, nl,
           T ''Entry: '', shown ''entry'', nl,
           T ''SL: '', shown ''sl'', T '' | TP1: '', shown ''tp1'', T '' | TP2: '', shown ''tp2''])))"

definition format_filled :: "json dict \<Rightarrow> pytext" where
  "format_filled payload =
     (let shown = (\<lambda>k. py_str (get_dash payload k)) in
      TCat [green, T '' <b>ORDER FILLED</b>'', nl,
        T ''Ticket #'', shown ''ticket'', nl,
        T ''Symbol: '', escaped payload ''symbol'', nl,
        T ''Direction: '', escaped payload ''direction'', T '' | Lots: '', shown ''lots'', nl,
        T ''Entry: '', py_str (first_truthy payload ''fill_price'' ''entry''), nl,
        T ''SL: '', shown ''sl'', T '' | TP: '', shown ''tp''])"

definition format_rejected :: "json dict \<Rightarrow> pytext" where
  "format_rejected payload =
     TCat [red, T '' <b>ORDER REJECTED</b>'', nl,
       T ''Reason: '', escaped payload ''rejected_reason'', nl,
       T ''Symbol: '', escaped payload ''symbol'', nl,
       T ''Signal: '', escaped payload ''signal_id'', nl,
       T ''Detail: '', TEsc (TCut 200 (py_str (get_or payload ''detail'' (JStr (T '''')))))]"

fun nonnegative :: "json \<Rightarrow> bool" where
  \<comment> \<open>\<open>isinstance(v, (int, float)) and v >= 0\<close>\<close>
  "nonnegative (JInt n) = (0 \<le> n)"
| "nonnegative (JNum x) = (0 \<le> x)"
| "nonnegative (JBool b) = True"
| "nonnegative v = False"

definition format_closed :: "json dict \<Rightarrow> pytext" where
  "format_closed payload =
     (let pnl = get_or payload ''pnl'' (JNum 0);
          shown = (\<lambda>k. py_str (get_dash payload k)) in
      TCat [blue, T '' <b>TRADE CLOSED</b> '', if nonnegative pnl then chart_up else chart_down, nl,
        T ''PnL: '', py_str pnl, nl,
        T ''Ticket #'', shown ''ticket'', T '' | Symbol: '', escaped payload ''symbol'', nl,
        T ''Exit: '', shown ''exit_price''])"

subsection \<open>Delivery\<close>

definition is_digits :: "string \<Rightarrow> bool" where
  "is_digits s \<longleftrightarrow> s \<noteq> [] \<and> list_all (\<lambda>c. 48 \<le> (of_char c :: nat) \<and> (of_char c :: nat) \<le> 57) s"

definition configured :: "settings \<Rightarrow> bool" where
  "configured st \<longleftrightarrow> telegram_token st \<noteq> [] \<and> \<not> contains ''...'' (telegram_token st) \<and> is_digits (telegram_chat_id st)"

fun is_httpx_error :: "exn \<Rightarrow> bool" where
  \<comment> \<open>\<open>httpx.HTTPError\<close> and its subclasses\<close>
  "is_httpx_error (HttpError m) = True"
| "is_httpx_error HttpTimeout = True"
| "is_httpx_error e = False"

definition raise_for_status :: "int \<Rightarrow> unit res" where
  "raise_for_status status = (if 200 \<le> status \<and> status < 300 then Inr () else Inl (HttpError ''status''))"

definition telegram_post :: "env \<Rightarrow> settings \<Rightarrow> pytext \<Rightarrow> ('x, unit) act" where
  "telegram_post ev st text =
     bnd (call ev ans_http (HttpCall (''/bot'' @ telegram_token st @ ''/sendMessage'')
            [JObj [(''chat_id'', JStr (T (telegram_chat_id st))), (''text'', JStr text), (''parse_mode'', JStr (T ''HTML''))]]))
       (\<lambda>(status, hs, content). lift_res (raise_for_status status))"

definition send :: "env \<Rightarrow> settings \<Rightarrow> pytext \<Rightarrow> ('x, bool) notify_act" where
  "send ev st text =
     (if \<not> configured st then ret False
      else
        bnd (attempt (bnd (telegram_post ev st text) (\<lambda>_. ret True))
              (\<lambda>e. if is_httpx_error e
                   then bnd (update (\<lambda>w. w\<lparr>nt_failed := Suc (nt_failed w)\<rparr>)) (\<lambda>_. ret False)
                   else throw e)) (\<lambda>delivered.
        if delivered then bnd (update (\<lambda>w. w\<lparr>nt_sent := Suc (nt_sent w)\<rparr>)) (\<lambda>_. ret True) else ret False))"

definition alert :: "env \<Rightarrow> settings \<Rightarrow> pytext \<Rightarrow> ('x, unit) notify_act" where
  \<comment> \<open>\<open>if await self._sender.send(text): self.alerts_sent += 1\<close>\<close>
  "alert ev st text =
     bnd (send ev st text) (\<lambda>ok. if ok then update (\<lambda>w. w\<lparr>nt_alerts := Suc (nt_alerts w)\<rparr>) else ret ())"

subsection \<open>The audit trail\<close>

definition lifecycle_connect :: "env \<Rightarrow> ('x, unit) notify_act" where
  "lifecycle_connect ev = db_connect ev"

definition lifecycle_close :: "env \<Rightarrow> ('x, unit) notify_act" where
  "lifecycle_close ev = db_close ev"

definition record_event ::
  "env \<Rightarrow> string \<Rightarrow> pytext \<Rightarrow> string \<Rightarrow> json dict \<Rightarrow> ('x, unit) notify_act" where
  \<comment> \<open>\<open>LifecycleLogger.record\<close>\<close>
  "record_event ev event subject outcome payload =
     attempt
       (bnd (db_ensure ev) (\<lambda>_.
        bnd (call ev ans_unit (SqlRun ''insert_audit''
               [JStr (T ''notify-service''), JStr (T event), JStr subject, JStr (T outcome), JObj payload])) (\<lambda>_.
        update (\<lambda>w. w\<lparr>nt_recorded := Suc (nt_recorded w)\<rparr>))))
       (\<lambda>e. if is_psycopg_error e then ret () else throw e)"

definition lifecycle_ping :: "env \<Rightarrow> ('x, bool) notify_act" where
  "lifecycle_ping ev = db_ping ev"

subsection \<open>The consumer\<close>

definition notify_group :: string where "notify_group = ''notify-service''"

definition notify_streams :: "string list" where
  "notify_streams = [''signal.generated'', ''signal.rejected'', ''order.filled'', ''order.rejected'', ''order.closed'']"

definition as_payload :: "fields \<Rightarrow> json dict" where
  \<comment> \<open>\<open>dict(decoded)\<close>\<close>
  "as_payload decoded = map (\<lambda>(k, t). (k, JStr t)) decoded"

definition signal_keys :: "string list" where
  "signal_keys = [''direction'', ''symbol'', ''entry'', ''sl'', ''tp1'', ''tp2'', ''score'', ''max_score'']"

definition overlay_signal :: "fields \<Rightarrow> json \<Rightarrow> json dict res" where
  \<comment> \<open>\<open>{**decoded, "direction": parsed.get("direction"), ...}\<close>\<close>
  "overlay_signal decoded parsed =
     res_bind (res_map (json_get parsed) signal_keys) (\<lambda>vs.
     Inr (foldl (\<lambda>d (k, v). dset d k (case v of None \<Rightarrow> JNull | Some x \<Rightarrow> x)) (as_payload decoded)
       (zip signal_keys vs)))"

definition generated_payload :: "codec \<Rightarrow> fields \<Rightarrow> json dict res" where
  "generated_payload cd decoded =
     (case dget decoded ''signal'' of
        None \<Rightarrow> Inr (as_payload decoded)
      | Some blob \<Rightarrow>
          if \<not> text_nonempty blob then Inr (as_payload decoded)
          else (case res_bind (json_loads cd blob) (overlay_signal decoded) of
                  Inr p \<Rightarrow> Inr (if p \<noteq> [] then p else as_payload decoded)
                | Inl e \<Rightarrow> if e = JSONDecodeError then Inr (as_payload decoded) else Inl e))"

definition subject_of_event :: "fields \<Rightarrow> pytext res" where
  \<comment> \<open>the message id is a \<open>str\<close>, which has no \<open>decode\<close>\<close>
  "subject_of_event decoded =
     (case dget decoded ''signal_id'' of
        Some t \<Rightarrow> if text_nonempty t then Inr t else
          (case dget decoded ''idempotency_key'' of
             Some k \<Rightarrow> if text_nonempty k then Inr k else Inl (AttributeError ''decode'')
           | None \<Rightarrow> Inl (AttributeError ''decode''))
      | None \<Rightarrow>
          (case dget decoded ''idempotency_key'' of
             Some k \<Rightarrow> if text_nonempty k then Inr k else Inl (AttributeError ''decode'')
           | None \<Rightarrow> Inl (AttributeError ''decode'')))"

definition opt_json :: "fields \<Rightarrow> string \<Rightarrow> json" where
  \<comment> \<open>\<open>decoded.get(k)\<close> inside a payload\<close>
  "opt_json decoded k = (case dget decoded k of None \<Rightarrow> JNull | Some t \<Rightarrow> JStr t)"

definition key_or :: "fields \<Rightarrow> pytext \<Rightarrow> pytext" where
  \<comment> \<open>\<open>str(decoded.get("idempotency_key", subject))\<close>\<close>
  "key_or decoded subject = (case dget decoded ''idempotency_key'' of None \<Rightarrow> subject | Some k \<Rightarrow> k)"

definition on_generated :: "env \<Rightarrow> codec \<Rightarrow> settings \<Rightarrow> fields \<Rightarrow> pytext \<Rightarrow> pytext \<Rightarrow> ('x, unit) notify_act" where
  "on_generated ev cd st decoded subject cid =
     bnd (lift_res (res_bind (generated_payload cd decoded) (format_generated cd))) (\<lambda>text.
     bnd (record_event ev ''signal.generated'' subject ''ok'' [(''correlation_id'', JStr cid)]) (\<lambda>_.
     alert ev st text))"

definition on_signal_rejected :: "env \<Rightarrow> settings \<Rightarrow> fields \<Rightarrow> pytext \<Rightarrow> ('x, unit) notify_act" where
  "on_signal_rejected ev st decoded subject =
     bnd (record_event ev ''signal.rejected'' subject ''rejected''
            [(''rejected_reason'', opt_json decoded ''rejected_reason'')]) (\<lambda>_.
     if alert_rejections st then alert ev st (format_rejected (as_payload decoded)) else ret ())"

definition on_filled :: "env \<Rightarrow> settings \<Rightarrow> fields \<Rightarrow> pytext \<Rightarrow> ('x, unit) notify_act" where
  "on_filled ev st decoded subject =
     bnd (record_event ev ''order.filled'' (key_or decoded subject) ''ok'' [(''ticket'', opt_json decoded ''ticket'')]) (\<lambda>_.
     alert ev st (format_filled (as_payload decoded)))"

definition on_order_rejected :: "env \<Rightarrow> settings \<Rightarrow> fields \<Rightarrow> pytext \<Rightarrow> ('x, unit) notify_act" where
  "on_order_rejected ev st decoded subject =
     bnd (record_event ev ''order.rejected'' (key_or decoded subject) ''error''
            [(''rejected_reason'', opt_json decoded ''rejected_reason''), (''detail'', opt_json decoded ''detail'')]) (\<lambda>_.
     alert ev st (format_rejected (as_payload decoded)))"

definition on_closed :: "env \<Rightarrow> settings \<Rightarrow> fields \<Rightarrow> pytext \<Rightarrow> ('x, unit) notify_act" where
  "on_closed ev st decoded subject =
     bnd (record_event ev ''order.closed'' (key_or decoded subject) ''ok''
            [(''pnl'', opt_json decoded ''pnl''), (''ticket'', opt_json decoded ''ticket'')]) (\<lambda>_.
     alert ev st (format_closed (as_payload decoded)))"

definition notify_body :: "env \<Rightarrow> codec \<Rightarrow> settings \<Rightarrow> string \<Rightarrow> fields \<Rightarrow> pytext \<Rightarrow> ('x, unit) notify_act" where
  "notify_body ev cd st stream decoded cid =
     bnd (lift_res (subject_of_event decoded)) (\<lambda>subject.
     bnd (if stream = ''signal.generated'' then on_generated ev cd st decoded subject cid
          else if stream = ''signal.rejected'' then on_signal_rejected ev st decoded subject
          else if stream = ''order.filled'' then on_filled ev st decoded subject
          else if stream = ''order.rejected'' then on_order_rejected ev st decoded subject
          else if stream = ''order.closed'' then on_closed ev st decoded subject
          else ret ()) (\<lambda>_.
     update (\<lambda>w. w\<lparr>nt_processed := Suc (nt_processed w)\<rparr>)))"

definition notify_handle :: "env \<Rightarrow> codec \<Rightarrow> settings \<Rightarrow> string \<Rightarrow> fields \<Rightarrow> ('x, unit) notify_act" where
  "notify_handle ev cd st stream decoded =
     with_correlation ev decoded (notify_body ev cd st stream decoded) (ret ())"

definition ensure_groups :: "env \<Rightarrow> ('x, unit) act" where
  "ensure_groups ev = each (\<lambda>stream. ensure_group ev stream notify_group) notify_streams"

definition notify_read :: "env \<Rightarrow> ('x, (string \<times> (string \<times> fields) list) list option) act" where
  "notify_read ev =
     attempt (bnd (call ev ans_streams (XReadGroups notify_streams notify_group)) (\<lambda>ss. ret (Some ss)))
       (\<lambda>e. if is_response_error e \<and> contains ''NOGROUP'' (error_text e)
            then bnd (ensure_groups ev) (\<lambda>_. ret None)
            else if is_exception e then bnd (call ev ans_unit (SleepFor (mk 2))) (\<lambda>_. ret None)
            else throw e)"

definition deliver_one ::
  "env \<Rightarrow> codec \<Rightarrow> settings \<Rightarrow> string \<Rightarrow> string \<times> fields \<Rightarrow> ('x, unit) notify_act" where
  "deliver_one ev cd st stream m =
     (case m of (mid, fs) \<Rightarrow>
        bnd (notify_handle ev cd st stream fs) (\<lambda>_. call ev ans_unit (XAck stream notify_group mid)))"

definition notify_drain :: "env \<Rightarrow> codec \<Rightarrow> settings \<Rightarrow> ('x, nat) notify_act" where
  "notify_drain ev cd st =
     bnd (notify_read ev) (\<lambda>response.
       case response of
         None \<Rightarrow> ret 0
       | Some ss \<Rightarrow>
           bnd (each (\<lambda>(stream, ms). each (deliver_one ev cd st stream) ms) ss)
             (\<lambda>_. ret (length (concat (map snd ss)))))"

definition notify_run_once :: "env \<Rightarrow> codec \<Rightarrow> settings \<Rightarrow> ('x, nat) notify_act" where
  "notify_run_once ev cd st = bnd (ensure_groups ev) (\<lambda>_. notify_drain ev cd st)"

definition notify_run_forever :: "env \<Rightarrow> codec \<Rightarrow> settings \<Rightarrow> nat \<Rightarrow> ('x, unit) notify_act" where
  \<comment> \<open>the first \<open>n\<close> rounds\<close>
  "notify_run_forever ev cd st n =
     bnd (ensure_groups ev) (\<lambda>_. consumer_rounds ev (poll_interval_seconds st) (notify_drain ev cd st) n)"

definition notify_health :: "('x, json dict) notify_act" where
  "notify_health = look (\<lambda>w. [
     (''service'', JStr (T ''notify-service'')), (''status'', JStr (T ''ok'')),
     (''events_processed'', JInt (int (nt_processed w))), (''alerts_sent'', JInt (int (nt_alerts w)))])"

subsection \<open>Alerts are best-effort\<close>

definition tame :: "env \<Rightarrow> bool" where
  \<comment> \<open>acknowledgements are accepted and ids minted; the database fails with \<open>psycopg\<close> errors only,
     Telegram with \<open>httpx\<close> errors only\<close>
  "tame ev \<longleftrightarrow>
     (\<forall>l s g i. ans_unit (reply ev l (XAck s g i)) = Inr ()) \<and>
     (\<forall>l. \<exists>t. ans_text (reply ev l NewId) = Inr (Some t)) \<and>
     (\<forall>l n ps e. ans_unit (reply ev l (SqlRun n ps)) = Inl e \<longrightarrow> is_psycopg_error e) \<and>
     (\<forall>l t args e. ans_http (reply ev l (HttpCall t args)) = Inl e \<longrightarrow> is_httpx_error e)"

definition readable :: "codec \<Rightarrow> string \<Rightarrow> fields \<Rightarrow> bool" where
  \<comment> \<open>the event names its subject, and its signal, if any, is a JSON object or no JSON at all\<close>
  "readable cd stream fs \<longleftrightarrow> (\<exists>s. subject_of_event fs = Inr s) \<and>
     (stream = ''signal.generated'' \<longrightarrow> (\<exists>t. res_bind (generated_payload cd fs) (format_generated cd) = Inr t))"

lemma tameD:
  assumes "tame ev"
  shows "ans_unit (reply ev l (XAck s g i)) = Inr ()" "\<exists>t. ans_text (reply ev l NewId) = Inr (Some t)"
    "ans_unit (reply ev l (SqlRun n ps)) = Inl e \<Longrightarrow> is_psycopg_error e"
    "ans_http (reply ev l (HttpCall t args)) = Inl e \<Longrightarrow> is_httpx_error e"
  using assms unfolding tame_def by blast+

lemma unusable_always: "fails_with P (db_unusable ev)"
  by (simp add: fails_with_def db_unusable_run)

lemma ensure_fails: "tame ev \<Longrightarrow> fails_with is_psycopg_error (db_ensure ev)"
  unfolding db_ensure_def db_connect_def by (auto intro!: fails_call unusable_always dest: tameD(3))

lemma record_always: "tame ev \<Longrightarrow> always (record_event ev event subject outcome payload)"
  unfolding record_event_def always_def
  by (rule fails_attempt [where Q = is_psycopg_error])
    (auto intro!: ensure_fails fails_call dest: tameD(3))

lemma send_always: "tame ev \<Longrightarrow> always (send ev st text)"
proof -
  assume t: "tame ev"
  have "fails_with is_httpx_error (telegram_post ev st text)"
    unfolding telegram_post_def using t
    by (auto intro!: fails_call fails_lift simp: raise_for_status_def dest: tameD(4) split: if_splits)
  then show ?thesis
    unfolding send_def always_def
    by (auto intro!: fails_attempt [where Q = is_httpx_error])
qed

lemma alert_always: "tame ev \<Longrightarrow> always (alert ev st text)"
  using send_always unfolding alert_def always_def by blast

lemma on_event_always:
  assumes "tame ev"
  shows "always (on_signal_rejected ev st fs s)" "always (on_filled ev st fs s)"
    "always (on_order_rejected ev st fs s)" "always (on_closed ev st fs s)"
    "res_bind (generated_payload cd fs) (format_generated cd) = Inr t \<Longrightarrow> always (on_generated ev cd st fs s cid)"
  using record_always [OF assms] alert_always [OF assms]
  unfolding always_def on_signal_rejected_def on_filled_def on_order_rejected_def on_closed_def on_generated_def
  by (auto intro!: fails_lift)

lemma handle_always:
  assumes "tame ev" "readable cd stream fs"
  shows "always (notify_handle ev cd st stream fs)"
proof -
  obtain s where s: "subject_of_event fs = Inr s" using assms(2) unfolding readable_def by blast
  have "always (notify_body ev cd st stream fs cid)" for cid
  proof -
    have gen: "always (on_generated ev cd st fs s' cid)" if "stream = ''signal.generated''" for s'
      using assms(2) that on_event_always(5) [OF assms(1)] unfolding readable_def by blast
    show ?thesis
      unfolding notify_body_def s always_def
      by (intro fails_bnd fails_if fails_ret fails_update fails_lift
          gen [unfolded always_def] on_event_always(1-4) [OF assms(1), unfolded always_def]) simp_all
  qed
  then show ?thesis
    unfolding notify_handle_def always_def
    by (intro fails_with_correlation tameD(2) [OF assms(1)]) (auto simp: always_def)
qed

text \<open>What a handler run leaves alone and what it counts.\<close>

lemma on_event_ackless:
  "keeps (log_grows (\<lambda>c. \<not> is_ack c)) (record_event ev event subject outcome payload)"
  "keeps (log_grows (\<lambda>c. \<not> is_ack c)) (alert ev st text)"
  unfolding record_event_def alert_def send_def telegram_post_def
  by (auto intro!: keeps_log_update)

lemma handle_ackless: "keeps (log_grows (\<lambda>c. \<not> is_ack c)) (notify_handle ev cd st stream fs)"
  unfolding notify_handle_def notify_body_def on_generated_def on_signal_rejected_def on_filled_def
    on_order_rejected_def on_closed_def
  by (intro lgc.keeps_with_correlation lg.keeps_bnd keeps_if on_event_ackless lg.keeps_ret lg.keeps_lift
      keeps_log_update) simp_all

definition same_count :: "'x notify_world_scheme \<Rightarrow> 'x notify_world_scheme \<Rightarrow> bool" where
  "same_count w w' \<longleftrightarrow> nt_processed w' = nt_processed w"

interpretation counting: call_relation same_count "\<lambda>c. True"
  by unfold_locales (auto simp: same_count_def)

lemma on_event_counts:
  "keeps same_count (record_event ev event subject outcome payload)" "keeps same_count (alert ev st text)"
  unfolding record_event_def alert_def send_def telegram_post_def
  by (auto intro!: counting.keeps_update simp: same_count_def)

lemma handle_counts:
  assumes "notify_handle ev cd st stream fs w = (Inr (), w')"
  shows "nt_processed w' = Suc (nt_processed w)"
proof -
  let ?act = "\<lambda>s cid. if stream = ''signal.generated'' then on_generated ev cd st fs s cid
          else if stream = ''signal.rejected'' then on_signal_rejected ev st fs s
          else if stream = ''order.filled'' then on_filled ev st fs s
          else if stream = ''order.rejected'' then on_order_rejected ev st fs s
          else if stream = ''order.closed'' then on_closed ev st fs s
          else ret ()"
  have acts: "keeps same_count (?act s cid)" for s cid
    unfolding on_generated_def on_signal_rejected_def on_filled_def on_order_rejected_def on_closed_def
    by (intro keeps_if counting.keeps_bnd on_event_counts counting.keeps_ret counting.keeps_lift)
  from assms [unfolded notify_handle_def] show ?thesis
  proof (cases rule: with_correlation_cases)
    case (2 cid l q v)
    have fin: "q = Inr ()" "nt_processed w' = nt_processed v"
      using 2(3) by (auto simp: finally_do_def bnd_def unbind_correlation_id_def split: if_splits)
    with 2(1) obtain s u where u: "?act s cid (w\<lparr>log := log w @ l, ctx := Some cid\<rparr>) = (Inr (), u)"
      "nt_processed v = Suc (nt_processed u)"
      unfolding notify_body_def by (force simp: bnd_Inr_iff)
    have "same_count (w\<lparr>log := log w @ l, ctx := Some cid\<rparr>) u" by (rule keepsD [OF acts u(1)])
    then show ?thesis using fin(2) u(2) by (simp add: same_count_def)
  qed simp
qed

lemma deliver_one_returns:
  fixes w :: "'x notify_world_scheme"
  assumes "tame ev" "readable cd stream fs"
  shows "\<exists>w'. deliver_one ev cd st stream (i, fs) w = (Inr (), w') \<and>
    acks (log w') = acks (log w) @ [XAck stream notify_group i] \<and> nt_processed w' = Suc (nt_processed w)"
proof -
  obtain u v where v: "notify_handle ev cd st stream fs w = (Inr u, v)"
    using alwaysD [OF handle_always [OF assms]] by blast
  then have "acks (log v) = acks (log w)" "nt_processed v = Suc (nt_processed w)"
    using ackless_log [OF handle_ackless] handle_counts by simp_all blast+
  then show ?thesis using v tameD(1) [OF assms(1)] by (simp add: deliver_one_def bnd_def call_run)
qed

definition readable_stream :: "codec \<Rightarrow> string \<times> (string \<times> fields) list \<Rightarrow> bool" where
  "readable_stream cd b = (case b of (stream, ms) \<Rightarrow> list_all (\<lambda>(i, fs). readable cd stream fs) ms)"

definition stream_acks :: "string \<times> (string \<times> fields) list \<Rightarrow> ecall list" where
  "stream_acks b = (case b of (stream, ms) \<Rightarrow> map (\<lambda>(i, fs). XAck stream notify_group i) ms)"

lemma deliver_stream_returns:
  fixes w :: "'x notify_world_scheme"
  assumes "tame ev" "readable_stream cd (stream, ms)"
  shows "\<exists>w'. each (deliver_one ev cd st stream) ms w = (Inr (), w') \<and>
    acks (log w') = acks (log w) @ stream_acks (stream, ms) \<and> nt_processed w' = nt_processed w + length ms"
  using assms(2)
proof (induction ms arbitrary: w)
  case (Cons m ms)
  obtain i fs where m: "m = (i, fs)" by (cases m)
  have "readable cd stream fs" using Cons.prems by (simp add: m readable_stream_def)
  from deliver_one_returns [OF assms(1) this, of st i w] obtain v where
    v: "deliver_one ev cd st stream (i, fs) w = (Inr (), v)"
      "acks (log v) = acks (log w) @ [XAck stream notify_group i]" "nt_processed v = Suc (nt_processed w)" by blast
  have "readable_stream cd (stream, ms)" using Cons.prems by (simp add: m readable_stream_def)
  from Cons.IH [OF this, of v] v show ?case by (auto simp: m bnd_Inr_iff stream_acks_def)
qed (simp add: stream_acks_def)

lemma deliver_all_returns:
  fixes w :: "'x notify_world_scheme"
  assumes "tame ev" "list_all (readable_stream cd) ss"
  shows "\<exists>w'. each (\<lambda>(stream, ms). each (deliver_one ev cd st stream) ms) ss w = (Inr (), w') \<and>
    acks (log w') = acks (log w) @ concat (map stream_acks ss) \<and>
    nt_processed w' = nt_processed w + length (concat (map snd ss))"
  using assms(2)
proof (induction ss arbitrary: w)
  case (Cons b ss)
  obtain stream ms where b: "b = (stream, ms)" by (cases b)
  have "readable_stream cd (stream, ms)" using Cons.prems by (simp add: b)
  from deliver_stream_returns [OF assms(1) this, of st w] obtain v where
    v: "each (deliver_one ev cd st stream) ms w = (Inr (), v)"
      "acks (log v) = acks (log w) @ stream_acks (stream, ms)" "nt_processed v = nt_processed w + length ms" by blast
  have "list_all (readable_stream cd) ss" using Cons.prems by simp
  from Cons.IH [OF this, of v] v show ?case by (auto simp: b bnd_Inr_iff)
qed simp

text \<open>
  C34. Alerts are best-effort: when the database fails only with \<open>psycopg\<close> errors and Telegram only
  with \<open>httpx\<close> errors or statuses, a drain of a batch of readable events always returns, counts
  every event as processed and acknowledges every one on its own stream, in order.
\<close>

theorem drain_survives_failures:
  assumes "tame ev" "\<And>l. reply ev l (XReadGroups notify_streams notify_group) = AStreams ss"
    and "list_all (readable_stream cd) ss"
  shows "\<exists>w'. notify_drain ev cd st w = (Inr (length (concat (map snd ss))), w') \<and>
    acks (log w') = acks (log w) @ concat (map stream_acks ss) \<and>
    nt_processed w' = nt_processed w + length (concat (map snd ss))"
proof -
  let ?v = "w\<lparr>log := log w @ [XReadGroups notify_streams notify_group]\<rparr>"
  have "notify_read ev w = (Inr (Some ss), ?v)"
    using assms(2) by (simp add: notify_read_def attempt_def bnd_def call_run)
  moreover have "acks (log ?v) = acks (log w)" by (simp add: acks_def)
  ultimately show ?thesis
    using deliver_all_returns [OF assms(1,3), of st ?v] by (auto simp: notify_drain_def bnd_def)
qed

subsection \<open>A concrete batch\<close>

definition filled_event :: fields where
  "filled_event = [(''idempotency_key'', T ''k1''), (''ticket'', TInt 7), (''symbol'', T ''V75''), (''correlation_id'', T ''c1'')]"

definition garbled_signal :: fields where
  "garbled_signal = [(''signal_id'', T ''s1''), (''signal'', T ''{oops''), (''correlation_id'', T ''c2'')]"

definition outage_env :: env where
  \<comment> \<open>no database, no Telegram\<close>
  "outage_env = \<lparr>reply = (\<lambda>l c. case c of
      XReadGroups ss g \<Rightarrow> AStreams [(''order.filled'', [(''1-0'', filled_event)]), (''signal.generated'', [(''2-0'', garbled_signal)])]
    | SqlRun n ps \<Rightarrow> ARaise (PsycopgError ''down'')
    | HttpCall t args \<Rightarrow> AHttp 503 [] ''''
    | NewId \<Rightarrow> AText (T ''id'')
    | _ \<Rightarrow> AUnit)\<rparr>"

lemma outage_tame: "tame outage_env"
  by (simp add: tame_def outage_env_def)

lemma batch_readable: "readable strict_codec ''order.filled'' filled_event"
  "readable strict_codec ''signal.generated'' garbled_signal"
proof -
  show "readable strict_codec ''order.filled'' filled_event"
    by (simp add: readable_def subject_of_event_def filled_event_def)
  have "generated_payload strict_codec garbled_signal = Inr (as_payload garbled_signal)"
    by (simp add: generated_payload_def garbled_signal_def strict_codec_def)
  moreover have "get_or (as_payload garbled_signal) ''p_win'' JNull = JNull"
    by (simp add: get_or_def as_payload_def garbled_signal_def)
  ultimately show "readable strict_codec ''signal.generated'' garbled_signal"
    by (simp add: readable_def format_generated_def p_win_text_def Let_def)
      (simp add: subject_of_event_def garbled_signal_def)
qed

definition start_notify :: notify_world where
  "start_notify = \<lparr>log = [], ctx = None, conn = False, nt_recorded = 0, nt_sent = 0, nt_failed = 0,
     nt_processed = 0, nt_alerts = 0\<rparr>"

definition bot_settings :: settings where
  "bot_settings = default_settings\<lparr>telegram_token := ''1:abc'', telegram_chat_id := ''42''\<rparr>"

theorem drain_survives_failures_witness:
  "\<exists>w. notify_drain outage_env strict_codec bot_settings start_notify = (Inr 2, w) \<and> nt_processed w = 2 \<and>
     acks (log w) = [XAck ''order.filled'' notify_group ''1-0'', XAck ''signal.generated'' notify_group ''2-0'']"
proof -
  let ?ss = "[(''order.filled'', [(''1-0'', filled_event)]), (''signal.generated'', [(''2-0'', garbled_signal)])]"
  have "reply outage_env l (XReadGroups notify_streams notify_group) = AStreams ?ss" for l
    by (simp add: outage_env_def)
  moreover have "list_all (readable_stream strict_codec) ?ss"
    using batch_readable by (simp add: readable_stream_def)
  ultimately show ?thesis
    using drain_survives_failures [OF outage_tame, of ?ss strict_codec bot_settings start_notify]
    by (fastforce simp: start_notify_def acks_def stream_acks_def)
qed

subsection \<open>Alert texts of stream events\<close>

text \<open>
  Stream values are strings, so \<open>isinstance\<close> never finds a number in them: a closed trade is always
  drawn as a loss, and a signal's winning probability is never shown.
\<close>

lemma stream_values_are_text: "dget (as_payload decoded) k = Some v \<Longrightarrow> \<exists>t. v = JStr t"
  by (induction decoded) (auto simp: as_payload_def split: if_splits)

lemma closed_trade_drawn_as_loss:
  assumes "dget decoded ''pnl'' = Some t"
  shows "\<exists>rest. format_closed (as_payload decoded) = TCat ([blue, T '' <b>TRADE CLOSED</b> '', chart_down] @ rest)"
proof -
  have "dget (as_payload decoded) ''pnl'' = Some (JStr t)"
    using assms by (induction decoded) (auto simp: as_payload_def split: if_splits)
  then show ?thesis by (simp add: format_closed_def get_or_def Let_def)
qed

text \<open>
  An event without a signal id and an idempotency key ends the consumer: the fallback to the
  message id raises, since a \<open>str\<close> has no \<open>decode\<close>.
\<close>

lemma anonymous_event_raises:
  assumes "dget fs ''signal_id'' = None" "dget fs ''idempotency_key'' = None"
    and "dget fs ''correlation_id'' = Some c" "text_nonempty c"
  shows "fst (deliver_one ev cd st stream (i, fs) w) = Inl (AttributeError ''decode'')"
  using assms
  by (simp add: deliver_one_def notify_handle_def with_correlation_def get_or_create_correlation_id_def
      payload_correlation_def bnd_def bind_correlation_id_def finally_do_def notify_body_def subject_of_event_def
      unbind_correlation_id_def)

end
