(* ===== verification/Pipeline.thy ===== *)
theory Pipeline
  imports RiskService Execution SignalService MlService Notify
begin

text \<open>
  The services joined by their streams. An entry that one service adds is delivered to the next one
  as it was written; what \<open>model_validate\<close> of the pydantic models does with it is a named law of the
  codec, which the readers below satisfy.
\<close>

subsection \<open>What the models read\<close>

definition flat_order :: "order \<Rightarrow> json dict" where
  \<comment> \<open>the fields of an order as a stream entry carries them: text, but for the parsed integer\<close>
  "flat_order q = [
     (''idempotency_key'', JStr (T (o_key q))), (''signal_id'', JStr (T (o_signal q))),
     (''symbol'', JStr (T (o_symbol q))), (''direction'', JStr (T (direction_value (o_direction q)))),
     (''lots'', JStr (TFlt (o_lots q))), (''entry'', JStr (TFlt (o_entry q))), (''sl'', JStr (TFlt (o_sl q))),
     (''tp'', JStr (TFlt (o_tp q))), (''deviation_points'', JInt (o_deviation q))]"

definition lax_orders :: "codec \<Rightarrow> bool" where
  \<comment> \<open>pydantic's lax mode reads a float from its text\<close>
  "lax_orders cd \<longleftrightarrow> (\<forall>q. cd_order cd (JObj (flat_order q)) = Inr q)"

definition reads_dumps :: "codec \<Rightarrow> bool" where
  \<comment> \<open>\<open>model_validate\<close> reads what \<open>model_dump(mode="json")\<close> writes\<close>
  "reads_dumps cd \<longleftrightarrow> (\<forall>s. cd_signal cd (JObj (signal_dump s)) = Inr s)"

subsection \<open>Readers with these laws\<close>

definition text_item :: "json dict \<Rightarrow> string \<Rightarrow> string res" where
  "text_item d k = res_bind (getitem d k) (\<lambda>v. case v of
     JStr (T s) \<Rightarrow> Inr s | _ \<Rightarrow> Inl (ValueError k))"

definition real_item :: "json dict \<Rightarrow> string \<Rightarrow> f64 res" where
  "real_item d k = res_bind (getitem d k) (\<lambda>v. case v of
     JNum x \<Rightarrow> Inr x | JStr (TFlt x) \<Rightarrow> Inr x | _ \<Rightarrow> Inl (ValueError k))"

definition int_item :: "json dict \<Rightarrow> string \<Rightarrow> int res" where
  "int_item d k = res_bind (getitem d k) (\<lambda>v. case v of JInt n \<Rightarrow> Inr n | _ \<Rightarrow> Inl (ValueError k))"

definition bool_item :: "json dict \<Rightarrow> string \<Rightarrow> bool res" where
  "bool_item d k = res_bind (getitem d k) (\<lambda>v. case v of JBool b \<Rightarrow> Inr b | _ \<Rightarrow> Inl (ValueError k))"

definition direction_item :: "json dict \<Rightarrow> direction res" where
  "direction_item d = res_bind (text_item d ''direction'') direction_of_value"

lemma item_simps [simp]:
  "getitem d k = Inr (JStr (T s)) \<Longrightarrow> text_item d k = Inr s"
  "getitem d k = Inr (JNum x) \<Longrightarrow> real_item d k = Inr x"
  "getitem d k = Inr (JStr (TFlt x)) \<Longrightarrow> real_item d k = Inr x"
  "getitem d k = Inr (JInt n) \<Longrightarrow> int_item d k = Inr n"
  "getitem d k = Inr (JBool b) \<Longrightarrow> bool_item d k = Inr b"
  "getitem d ''direction'' = Inr (JStr (T (direction_value e))) \<Longrightarrow> direction_item d = Inr e"
  by (simp_all add: text_item_def real_item_def int_item_def bool_item_def direction_item_def)

fun read_order :: "json \<Rightarrow> order res" where
  "read_order (JObj d) =
     res_bind (text_item d ''idempotency_key'') (\<lambda>key.
     res_bind (text_item d ''signal_id'') (\<lambda>sid.
     res_bind (text_item d ''symbol'') (\<lambda>symb.
     res_bind (direction_item d) (\<lambda>dir.
     res_bind (real_item d ''lots'') (\<lambda>lots.
     res_bind (real_item d ''entry'') (\<lambda>entry.
     res_bind (real_item d ''sl'') (\<lambda>sl.
     res_bind (real_item d ''tp'') (\<lambda>tp.
     res_bind (int_item d ''deviation_points'') (\<lambda>dev.
     Inr \<lparr>o_key = key, o_signal = sid, o_symbol = symb, o_direction = dir, o_lots = lots,
          o_entry = entry, o_sl = sl, o_tp = tp, o_deviation = dev\<rparr>)))))))))"
| "read_order v = Inl (ValueError ''OrderRequest'')"

lemma read_flat_order: "read_order (JObj (flat_order q)) = Inr q"
  by (simp add: flat_order_def getitem_def)

lemma read_order_dump: "read_order (JObj (order_dump q)) = Inr q"
  by (simp add: order_dump_def getitem_def)

definition read_components :: "json \<Rightarrow> components res" where
  "read_components v = (case v of
     JObj d \<Rightarrow>
       res_bind (bool_item d ''htf_trend_aligned'') (\<lambda>a.
       res_bind (bool_item d ''zone_touch'') (\<lambda>b.
       res_bind (bool_item d ''bbma_confirm'') (\<lambda>c.
       res_bind (bool_item d ''rsi_divergence'') (\<lambda>e.
       res_bind (bool_item d ''regime_ok'') (\<lambda>f.
       res_bind (bool_item d ''meta_label_ok'') (\<lambda>g.
       Inr \<lparr>htf_trend_aligned = a, zone_touch = b, bbma_confirm = c, rsi_divergence = e, regime_ok = f,
            meta_label_ok = g\<rparr>))))))
   | _ \<Rightarrow> Inl (ValueError ''ConfluenceComponents''))"

lemma read_components_dump [simp]: "read_components (JObj (components_dump c)) = Inr c"
  by (simp add: read_components_def components_dump_def getitem_def)

definition status_of_value :: "string \<Rightarrow> signal_status res" where
  "status_of_value s =
     (case map_of (map (\<lambda>x. (signal_status_value x, x)) [PROPOSED, APPROVED, REJECTED, EXECUTED, SHADOW_FILLED]) s of
        Some x \<Rightarrow> Inr x | None \<Rightarrow> Inl (ValueError ''SignalStatus''))"

lemma status_roundtrip [simp]: "status_of_value (signal_status_value x) = Inr x"
  by (cases x) (simp_all add: status_of_value_def)

definition read_time :: "json \<Rightarrow> int res" where
  "read_time v = (case v of JStr (TIso t) \<Rightarrow> Inr t | _ \<Rightarrow> Inl (ValueError ''datetime''))"

definition read_p_win :: "json \<Rightarrow> f64 option res" where
  "read_p_win v = (case v of JNull \<Rightarrow> Inr None | JNum x \<Rightarrow> Inr (Some x) | _ \<Rightarrow> Inl (ValueError ''p_win''))"

lemma read_p_win_opt [simp]: "read_p_win (json_opt JNum p) = Inr p"
  by (cases p) (simp_all add: read_p_win_def json_opt_def)

fun read_signal :: "json \<Rightarrow> signal res" where
  "read_signal (JObj d) =
     res_bind (text_item d ''id'') (\<lambda>i.
     res_bind (res_bind (getitem d ''created_ts'') read_time) (\<lambda>ts.
     res_bind (text_item d ''symbol'') (\<lambda>symb.
     res_bind (text_item d ''ltf_timeframe'') (\<lambda>tf.
     res_bind (direction_item d) (\<lambda>dir.
     res_bind (real_item d ''entry'') (\<lambda>entry.
     res_bind (real_item d ''sl'') (\<lambda>sl.
     res_bind (real_item d ''tp1'') (\<lambda>tp1.
     res_bind (real_item d ''tp2'') (\<lambda>tp2.
     res_bind (int_item d ''score'') (\<lambda>score.
     res_bind (int_item d ''max_score'') (\<lambda>max_score.
     res_bind (res_bind (getitem d ''components'') read_components) (\<lambda>comps.
     res_bind (res_bind (getitem d ''p_win'') read_p_win) (\<lambda>p.
     res_bind (res_bind (text_item d ''status'') status_of_value) (\<lambda>st.
     Inr \<lparr>s_id = i, s_created = ts, s_symbol = symb, s_timeframe = tf, s_direction = dir, s_entry = entry,
          s_sl = sl, s_tp1 = tp1, s_tp2 = tp2, s_score = score, s_max_score = max_score,
          s_components = comps, s_p_win = p, s_status = st\<rparr>))))))))))))))"
| "read_signal v = Inl (ValueError ''Signal'')"

lemma read_signal_dump: "read_signal (JObj (signal_dump s)) = Inr s"
  by (simp add: signal_dump_def getitem_def read_time_def)

definition model_codec :: codec where
  "model_codec = strict_codec\<lparr>cd_signal := read_signal, cd_order := read_order\<rparr>"

lemma model_codec_laws: "lax_orders model_codec" "reads_dumps model_codec"
  by (simp_all add: lax_orders_def reads_dumps_def model_codec_def read_flat_order read_signal_dump
      del: read_order.simps read_signal.simps)

subsection \<open>One stream after the other\<close>

text \<open>The risk service reads the signal that the signal service wrote.\<close>

lemma generated_signal_read:
  assumes "dget fs ''signal'' = Some (TJson (JObj (signal_dump s)))" "reads_dumps cd"
  shows "parse_signal cd fs = Inr (Some s)"
  using assms by (simp add: parse_signal_def reads_dumps_def signal_dump_def)

text \<open>The execution service reads the order that the risk service wrote, from its flat fields.\<close>

lemma order_entry_read:
  assumes "lax_orders cd"
  shows "parse_order cd (dset (map (\<lambda>(k, v). (k, py_str v)) (order_dump q)) ''correlation_id'' cid) = Inr (Some q)"
proof -
  let ?fs = "dset (map (\<lambda>(k, v). (k, py_str v)) (order_dump q)) ''correlation_id'' cid"
  have "list_all (dhas ?fs) order_field_names" "dget ?fs ''order'' = None"
    "dget ?fs ''deviation_points'' = Some (TInt (o_deviation q))"
    by (simp_all add: order_field_names_def order_dump_def dhas_def)
  moreover have "map (\<lambda>k. (k, JStr (the (dget ?fs k)))) order_field_names @
      [(''deviation_points'', JInt (o_deviation q))] = flat_order q"
    by (simp add: order_field_names_def order_dump_def flat_order_def)
  ultimately show ?thesis
    using assms by (simp add: parse_order_def lax_orders_def Let_def flat_order_def)
qed

lemma signal_handle_emits:
  fixes w :: "'x signal_world_scheme"
  assumes "signal_handle ev cfg mid decoded w = (r, w')" "XAdd ''signal.generated'' fs \<in> set (new_calls w w')"
  obtains s l m n reg where "e_signal (engine_evaluate (sc_engine cfg) n l m) = Some s" "m_regime m = regime_value reg"
    "dget fs ''signal'' = Some (TJson (JObj (signal_dump s)))"
proof -
  obtain cid l0 q and v :: "'x signal_world_scheme" where
    b: "signal_body ev cfg decoded cid (w\<lparr>log := log w @ l0, ctx := Some cid\<rparr>) = (q, v)"
    and x: "XAdd ''signal.generated'' fs \<in> set (new_calls (w\<lparr>log := log w @ l0, ctx := Some cid\<rparr>) v)"
    by (rule with_correlation_emits [OF assms(1) [unfolded signal_handle_def] assms(2) grows_signal_body]) auto
  obtain symb m l n s and u u' :: "'x signal_world_scheme" where
    m: "market_context_of ev cfg symb (w\<lparr>log := log w @ l0, ctx := Some cid\<rparr>) = (Inr m, u)"
    and e: "e_signal (engine_evaluate (sc_engine cfg) n l m) = Some s"
    and p: "publish_signal ev cid s u' = (q, v)" "XAdd ''signal.generated'' fs \<in> set (new_calls u' v)"
    by (rule signal_body_emits [OF b x]) blast
  obtain raw where raw: "cached_regime (sc_codec cfg) raw = Inr (m_regime m)"
    using market_context_regime [OF m] by auto
  have "resolve_regime (m_regime m) \<noteq> None"
    by (rule engine_evaluate_Some [OF e]) simp
  then obtain reg where "m_regime m = regime_value reg"
    using cached_regime_values [OF raw] by auto
  with e publish_signal_emits [OF p] show ?thesis by (auto intro: that)
qed

text \<open>
  An entry of \<open>signal.generated\<close> names no signal id at its top level, so the notification service
  falls back to the message id and its consumer ends on the first signal.
\<close>

lemma generated_signal_ends_notify:
  assumes "publish_signal ev cid s w = (Inr (), w')" "text_nonempty cid"
  shows "\<exists>fs. XAdd ''signal.generated'' fs \<in> set (new_calls w w') \<and>
    fst (deliver_one nev cd st ''signal.generated'' (i, fs) u) = Inl (AttributeError ''decode'')"
proof -
  let ?fs = "dset (map (\<lambda>(k, v). (k, py_str v)) [(''signal'', JStr (TJson (JObj (signal_dump s))))]) ''correlation_id'' cid"
  have "XAdd ''signal.generated'' ?fs \<in> set (new_calls w w')"
    using assms by (auto simp: publish_signal_def stream_fields_def bnd_Inr_iff call_run new_calls_def
        dest!: insert_signal_run)
  moreover have "fst (deliver_one nev cd st ''signal.generated'' (i, ?fs) u) = Inl (AttributeError ''decode'')"
    by (rule anonymous_event_raises [OF _ _ _ assms(2)]) simp_all
  ultimately show ?thesis by blast
qed

text \<open>
  What the worker caches closes the engine: with a regime label of a trained order in
  \<open>regime:current\<close>, the signal service never adds an entry.
\<close>

lemma worker_label_closes_engine:
  assumes "infer cfg regime meta fw = Inr r" "rb_order regime = canonical_order means" "length means = 3"
    and "fw_probs fw \<noteq> [] \<longrightarrow> length (last (fw_probs fw)) = 3"
  shows "regime_or_unknown (T (inf_label r)) = ''unknown''"
    and "m_regime m = regime_or_unknown (T (inf_label r)) \<Longrightarrow> e_signal (engine_evaluate g n l m) = None"
proof -
  show u: "regime_or_unknown (T (inf_label r)) = ''unknown''"
    using cached_label_unresolved [OF assms] by (auto simp: regime_or_unknown_def)
  assume m: "m_regime m = regime_or_unknown (T (inf_label r))"
  show "e_signal (engine_evaluate g n l m) = None"
  proof (cases "e_signal (engine_evaluate g n l m)")
    case (Some s)
    have "resolve_regime (m_regime m) \<noteq> None" by (rule engine_evaluate_Some [OF Some]) simp
    then show ?thesis by (simp add: m u)
  qed
qed

subsection \<open>Properties\<close>


subsection \<open>A run through three services\<close>

definition pipe_risk_config :: risk_config where
  "pipe_risk_config = demo_risk_config\<lparr>rc_codec := model_codec, rc_risk_pct := Fin 10\<rparr>"

definition pipe_exec_config :: exec_config where
  "pipe_exec_config = demo_config\<lparr>xc_codec := model_codec\<rparr>"

lemma demo_signal_values:
  assumes "e_signal (engine_evaluate default_engine n demo_ltf demo_context) = Some s"
  shows "s_entry s = Fin 50000 \<and> s_sl s = Fin 49900 \<and> s_tp1 s = Fin 50200 \<and> s_direction s = BUY \<and>
    s_symbol s = ''Volatility 75 Index''"
proof -
  obtain k d sc cs where z: "zone_touch_of (t_close demo_ltf) (t_zones demo_ltf) = Some (k, d)"
    and s: "s = build_signal default_engine n demo_ltf d k sc cs"
    by (rule engine_evaluate_Some [OF assms]) blast
  have "k = DEMAND" "d = BUY" using z by (simp_all add: demo_ltf_def inside_zone_def f64_eval)
  then show ?thesis
    unfolding s by (simp add: build_signal_def Let_def stop_and_targets_def demo_ltf_def default_engine_def
        inside_zone_def py_min_def f64_eval)
qed

lemma pipe_sized:
  assumes "s_entry s = Fin 50000" "s_sl s = Fin 49900" "s_tp1 s = Fin 50200"
  shows "sizing_decision pipe_risk_config s demo_account coarse_contract = Inr (approve (Fin 1) (Fin 100))"
  by (simp add: sizing_decision_def check_stops_def size_position_def compute_lots_def assms
      demo_account_def pipe_risk_config_def demo_risk_config_def coarse_contract_def validate_stop_distances_def
      floor_to_step_def margin_stage_def shrink_lots.simps float_of_int_def py_div_def zero_eq_Fin
      risk_amount_of_def f64_eval)

lemma pipe_decided:
  assumes "s_entry s = Fin 50000" "s_sl s = Fin 49900" "s_tp1 s = Fin 50200" "s_symbol s = ''Volatility 75 Index''"
  shows "\<exists>l. decide cached_env pipe_risk_config s (start_risk_world\<lparr>ctx := Some (T ''c1'')\<rparr>) =
     (Inr (approve (Fin 1) (Fin 100)), start_risk_world\<lparr>ctx := Some (T ''c1''), log := l\<rparr>)"
proof -
  have a: "load_account cached_env pipe_risk_config w = (Inr (Some demo_account), w\<lparr>log := log w @ [RedisGet account_key]\<rparr>)"
    for w :: risk_world
    by (simp add: load_account_def cached_text_def pipe_risk_config_def demo_risk_config_def bnd_def call_run parse_account_def
      json_float_item_def getitem_def none_if_malformed_def demo_account_def)
  have c: "load_symbol_constraints cached_env pipe_risk_config ''Volatility 75 Index'' w =
     (Inr (Some coarse_contract), w\<lparr>log := log w @ [RedisGet (symbol_key ''Volatility 75 Index'')]\<rparr>)" for w :: risk_world
    by (simp add: load_symbol_constraints_def cached_text_def pipe_risk_config_def demo_risk_config_def bnd_def call_run
      parse_constraints_def json_float_item_def getitem_def none_if_malformed_def spec_json_def
      required_spec_fields_def dhas_def account_key_def symbol_key_def)
  have t: "rc_tracker pipe_risk_config = demo_tracker signal_codec" "a_balance demo_account = Fin 1000"
    by (simp_all add: pipe_risk_config_def demo_risk_config_def demo_account_def)
  show ?thesis
    by (simp add: decide_def balance_hint_def bnd_def a c t assms(4)
        preflight_def refresh_def demo_tracker_def call_run decode_positions_def exposure_verdict_def
        open_count_def total_open_risk_def py_sum_def py_div_def pipe_sized [OF assms(1-3)] start_risk_world_def
        zero_eq_Fin f64_eval registry_def)
qed

lemma pipe_handled:
  assumes "e_signal (engine_evaluate default_engine n demo_ltf demo_context) = Some s"
  shows "\<exists>w fs. risk_handle cached_env pipe_risk_config ''1-0'' (generated_entry s) start_risk_world = (Inr (), w) \<and>
     XAdd exec_stream fs \<in> set (new_calls start_risk_world w)"
proof -
  note v = demo_signal_values [OF assms]
  obtain l where d: "decide cached_env pipe_risk_config s (start_risk_world\<lparr>ctx := Some (T ''c1'')\<rparr>) =
     (Inr (approve (Fin 1) (Fin 100)), start_risk_world\<lparr>ctx := Some (T ''c1''), log := l\<rparr>)"
    using pipe_decided [of s] v by blast
  have c: "payload_correlation (generated_entry s) = Some (T ''c1'')"
    by (simp add: payload_correlation_def generated_entry_def)
  have p: "parse_signal (rc_codec pipe_risk_config) (generated_entry s) = Inr (Some s)"
    using model_codec_laws(2) by (intro generated_signal_read) (simp_all add: generated_entry_def pipe_risk_config_def)
  have t: "tk_redis (rc_tracker pipe_risk_config)" "log start_risk_world = []"
    by (simp_all add: pipe_risk_config_def demo_risk_config_def demo_tracker_def start_risk_world_def)
  show ?thesis
    by (simp add: risk_handle_def with_correlation_def get_or_create_correlation_id_def c bnd_def
        bind_correlation_id_def unbind_correlation_id_def finally_do_def risk_body_def p d
        publish_order_def stream_fields_def call_run register_exposure_def register_def t
        new_calls_def Let_def) blast
qed


end
