(* ===== verification/Terminal.thy ===== *)
theory Terminal
  imports Outcomes Sizing Rows Connection
begin

text \<open>
  The MT5 terminal client: \<open>vix_core/mt5_client.py\<close> (connection with retries, closed bars,
  symbol snapshots) and its extension for ingestion, \<open>services/data-service/app/mt5_client.py\<close>
  (pages of history). The terminal answers arbitrarily; a rate is a JSON object with the fields
  of numpy's structured row. Whether the \<open>MetaTrader5\<close> package is installed is a setting.
\<close>

subsection \<open>State and settings\<close>

record terminal_world = world +
  mt_connected :: bool

type_synonym ('x, 'a) terminal_act = "('x terminal_world_ext, 'a) act"

record terminal =
  tm_present :: bool          \<comment> \<open>\<open>_MT5_IMPORT_OK\<close>\<close>
  tm_settings :: settings
  tm_codec :: codec

definition require_mt5 :: "terminal \<Rightarrow> ('x, unit) act" where
  "require_mt5 tm =
     (if tm_present tm then ret () else throw (MT5UnavailableError ''MetaTrader5 package not installed''))"

definition timeframe_map :: "int dict" where
  "timeframe_map = [(''M1'', 1), (''M5'', 5), (''M15'', 15), (''M30'', 30), (''H1'', 16385), (''H4'', 16388), (''D1'', 16408)]"

fun ans_truth :: "ans \<Rightarrow> bool res" where
  "ans_truth ANone = Inr False"
| "ans_truth (AJson v) = Inr (json_truthy v)"
| "ans_truth (ARaise e) = Inl e"
| "ans_truth a = Inl BadAnswer"

fun ans_rates :: "ans \<Rightarrow> json list option res" where
  "ans_rates ANone = Inr None"
| "ans_rates (AJson (JArr rs)) = Inr (Some rs)"
| "ans_rates (ARaise e) = Inl e"
| "ans_rates a = Inl BadAnswer"

subsection \<open>Connection\<close>

definition initialize_args :: "settings \<Rightarrow> json list" where
  "initialize_args s = (case mt5_terminal_path s of Some p \<Rightarrow> if p = [] then [] else [JStr (T p)] | None \<Rightarrow> [])"

definition wants_login :: "settings \<Rightarrow> bool" where
  "wants_login s \<longleftrightarrow> mt5_login s \<noteq> 0 \<and> mt5_password s \<noteq> []"

definition terminal_login :: "env \<Rightarrow> settings \<Rightarrow> ('x, bool) act" where
  "terminal_login ev s =
     (if wants_login s
      then call ev ans_truth (Mt5Call ''login'' [JInt (mt5_login s), JStr (T (mt5_password s)), JStr (T (mt5_server s))])
      else ret True)"

fun connect_loop :: "env \<Rightarrow> terminal \<Rightarrow> nat \<Rightarrow> f64 \<Rightarrow> ('x, bool) terminal_act" where
  "connect_loop ev tm 0 delay = throw (MT5UnavailableError ''could not connect'')"
| "connect_loop ev tm (Suc n) delay =
     bnd (call ev ans_truth (Mt5Call ''initialize'' (initialize_args (tm_settings tm)))) (\<lambda>ok.
     if \<not> ok then
       bnd (call ev ans_text Mt5LastError) (\<lambda>_.
       bnd (call ev ans_unit (SleepFor delay)) (\<lambda>_.
       connect_loop ev tm n (delay * mk 2)))
     else
       bnd (terminal_login ev (tm_settings tm)) (\<lambda>authorised.
       if \<not> authorised then
         bnd (call ev ans_text Mt5LastError) (\<lambda>_.
         bnd (call ev ans_unit (Mt5Call ''shutdown'' [])) (\<lambda>_.
         bnd (call ev ans_unit (SleepFor delay)) (\<lambda>_.
         connect_loop ev tm n (delay * mk 2))))
       else bnd (update (\<lambda>w. w\<lparr>mt_connected := True\<rparr>)) (\<lambda>_. ret True)))"

definition terminal_connect :: "env \<Rightarrow> terminal \<Rightarrow> ('x, bool) terminal_act" where
  "terminal_connect ev tm = bnd (require_mt5 tm) (\<lambda>_. connect_loop ev tm 3 (mk 2))"

definition terminal_shutdown :: "env \<Rightarrow> terminal \<Rightarrow> ('x, unit) terminal_act" where
  "terminal_shutdown ev tm =
     bnd (look mt_connected) (\<lambda>c.
     if c \<and> tm_present tm
     then bnd (call ev ans_unit (Mt5Call ''shutdown'' [])) (\<lambda>_. update (\<lambda>w. w\<lparr>mt_connected := False\<rparr>))
     else ret ())"

definition with_terminal :: "env \<Rightarrow> terminal \<Rightarrow> ('x, 'a) terminal_act \<Rightarrow> ('x, 'a) terminal_act" where
  \<comment> \<open>\<open>with client: body\<close>\<close>
  "with_terminal ev tm body =
     bnd (look mt_connected) (\<lambda>c.
     bnd (if c then ret True else terminal_connect ev tm) (\<lambda>_.
     finally_do body (terminal_shutdown ev tm)))"

subsection \<open>Bars\<close>

definition from_timestamp :: "int \<Rightarrow> int res" where
  \<comment> \<open>\<open>datetime.fromtimestamp(seconds, tz=UTC)\<close>, microseconds; years 1 to 9999\<close>
  "from_timestamp t =
     (if - 62135596800 \<le> t \<and> t \<le> 253402300799 then Inr (t * 1000000) else Inl (ValueError ''year is out of range''))"

definition rate_time :: "codec \<Rightarrow> json \<Rightarrow> int res" where
  "rate_time cd row = res_bind (res_bind (json_item row ''time'') (json_int cd)) from_timestamp"

definition rate_float :: "codec \<Rightarrow> json \<Rightarrow> string \<Rightarrow> f64 res" where
  "rate_float cd row k = res_bind (json_item row k) (json_float cd)"

definition to_utc_bar :: "codec \<Rightarrow> json \<Rightarrow> bar res" where
  "to_utc_bar cd row =
     res_bind (rate_time cd row) (\<lambda>ts.
     res_bind (rate_float cd row ''open'') (\<lambda>o1.
     res_bind (rate_float cd row ''high'') (\<lambda>h.
     res_bind (rate_float cd row ''low'') (\<lambda>l.
     res_bind (rate_float cd row ''close'') (\<lambda>c.
     res_bind (res_bind (json_item row ''tick_volume'') (json_int cd)) (\<lambda>v.
     Inr \<lparr>b_ts = ts, b_open = o1, b_high = h, b_low = l, b_close = c, b_volume = v\<rparr>))))))"

definition copy_rates :: "env \<Rightarrow> string \<Rightarrow> int \<Rightarrow> int \<Rightarrow> int \<Rightarrow> ('x, json list option) act" where
  "copy_rates ev symb tf_const start_pos n =
     call ev ans_rates (Mt5Call ''copy_rates_from_pos'' [JStr (T symb), JInt tf_const, JInt start_pos, JInt n])"

definition copy_bars :: "env \<Rightarrow> terminal \<Rightarrow> string \<Rightarrow> string \<Rightarrow> int \<Rightarrow> ('x, bar list) act" where
  \<comment> \<open>the last rate is the bar still forming\<close>
  "copy_bars ev tm symb tf n =
     bnd (require_mt5 tm) (\<lambda>_.
     case dget timeframe_map tf of
       None \<Rightarrow> throw (ValueError ''unsupported timeframe'')
     | Some c \<Rightarrow>
         bnd (copy_rates ev symb c 0 (n + 1)) (\<lambda>rates.
         if rates = None \<or> rates = Some []
         then bnd (call ev ans_text Mt5LastError) (\<lambda>_. throw (RuntimeError ''copy_rates failed''))
         else lift_res (res_map (to_utc_bar (tm_codec tm)) (butlast (the rates)))))"

definition ingest_timeframes :: "string list" where
  "ingest_timeframes = [''M1'', ''M5'', ''M15'', ''H1'']"

fun fetch_latest_bars :: "env \<Rightarrow> terminal \<Rightarrow> string \<Rightarrow> int \<Rightarrow> string list \<Rightarrow> ('x, (string \<times> bar list) list) act" where
  "fetch_latest_bars ev tm symb n [] = ret []"
| "fetch_latest_bars ev tm symb n (tf # tfs) =
     bnd (copy_bars ev tm symb tf n) (\<lambda>bars.
     bnd (fetch_latest_bars ev tm symb n tfs) (\<lambda>rest.
     ret ((tf, bars) # rest)))"

subsection \<open>Symbols\<close>

fun get_attr :: "json \<Rightarrow> string \<Rightarrow> json res" where
  \<comment> \<open>\<open>info.name\<close>\<close>
  "get_attr (JObj d) k = (case dget d k of Some v \<Rightarrow> Inr v | None \<Rightarrow> Inl (AttributeError k))"
| "get_attr v k = Inl (AttributeError k)"

record symbol_snapshot =
  sn_symbol :: string
  sn_digits :: int
  sn_point :: f64
  sn_tick_size :: f64
  sn_tick_value :: f64
  sn_volume_min :: f64
  sn_volume_max :: f64
  sn_volume_step :: f64
  sn_stops_level :: int
  sn_margin :: f64

definition attr_float :: "codec \<Rightarrow> json \<Rightarrow> string \<Rightarrow> f64 res" where
  "attr_float cd v k = res_bind (get_attr v k) (json_float cd)"

definition attr_int :: "codec \<Rightarrow> json \<Rightarrow> string \<Rightarrow> int res" where
  "attr_int cd v k = res_bind (get_attr v k) (json_int cd)"

definition tick_value_of :: "codec \<Rightarrow> json \<Rightarrow> f64 res" where
  \<comment> \<open>\<open>float(getattr(info, "trade_tick_value", 0.0))\<close>\<close>
  "tick_value_of cd info = (case get_attr info ''trade_tick_value'' of Inr v \<Rightarrow> json_float cd v | Inl e \<Rightarrow> Inr 0)"

definition tick_size_of :: "codec \<Rightarrow> json \<Rightarrow> f64 res" where
  \<comment> \<open>\<open>float(info.trade_tick_size or info.point)\<close>\<close>
  "tick_size_of cd info =
     res_bind (get_attr info ''trade_tick_size'') (\<lambda>v.
     if json_truthy v then json_float cd v else attr_float cd info ''point'')"

fun ans_tick :: "ans \<Rightarrow> f64 option res" where
  \<comment> \<open>the ask of a tick\<close>
  "ans_tick ANone = Inr None"
| "ans_tick (ATick a b) = Inr (Some a)"
| "ans_tick (ARaise e) = Inl e"
| "ans_tick x = Inl BadAnswer"

definition margin_of :: "env \<Rightarrow> codec \<Rightarrow> string \<Rightarrow> f64 option \<Rightarrow> json option \<Rightarrow> ('x, f64) act" where
  "margin_of ev cd symb tick account =
     (case (tick, account) of
        (Some a, Some _) \<Rightarrow>
          bnd (call ev ans_json (Mt5Call ''order_calc_margin'' [JInt 0, JStr (T symb), JNum 1, JNum a])) (\<lambda>cost.
          case cost of
            Some v \<Rightarrow> if json_truthy v then lift_res (json_float cd v) else ret 0
          | None \<Rightarrow> ret 0)
      | _ \<Rightarrow> ret 0)"

definition snapshot_fields :: "codec \<Rightarrow> string \<Rightarrow> json \<Rightarrow> f64 \<Rightarrow> f64 \<Rightarrow> symbol_snapshot res" where
  "snapshot_fields cd symb info tv margin =
     res_bind (attr_int cd info ''digits'') (\<lambda>digits.
     res_bind (attr_float cd info ''point'') (\<lambda>pt.
     res_bind (tick_size_of cd info) (\<lambda>ts.
     res_bind (attr_float cd info ''volume_min'') (\<lambda>vmin.
     res_bind (attr_float cd info ''volume_max'') (\<lambda>vmax.
     res_bind (attr_float cd info ''volume_step'') (\<lambda>vstep.
     res_bind (attr_int cd info ''trade_stops_level'') (\<lambda>lvl.
     Inr \<lparr>sn_symbol = symb, sn_digits = digits, sn_point = pt, sn_tick_size = ts, sn_tick_value = tv,
          sn_volume_min = vmin, sn_volume_max = vmax, sn_volume_step = vstep, sn_stops_level = lvl,
          sn_margin = margin\<rparr>)))))))"

definition symbol_snapshot_of :: "env \<Rightarrow> terminal \<Rightarrow> string \<Rightarrow> ('x, symbol_snapshot) act" where
  "symbol_snapshot_of ev tm symb =
     bnd (require_mt5 tm) (\<lambda>_.
     bnd (call ev ans_json (Mt5Call ''symbol_info'' [JStr (T symb)])) (\<lambda>info.
     case info of
       None \<Rightarrow> throw (RuntimeError ''symbol_info returned None'')
     | Some i \<Rightarrow>
         bnd (call ev ans_tick (Mt5Tick symb)) (\<lambda>tick.
         bnd (lift_res (tick_value_of (tm_codec tm) i)) (\<lambda>tv.
         bnd (call ev ans_json (Mt5Call ''account_info'' [])) (\<lambda>account.
         bnd (margin_of ev (tm_codec tm) symb tick account) (\<lambda>margin.
         lift_res (snapshot_fields (tm_codec tm) symb i tv margin)))))))"

definition symbol_constraints :: "env \<Rightarrow> terminal \<Rightarrow> string \<Rightarrow> ('x, constraints) act" where
  "symbol_constraints ev tm symb =
     bnd (symbol_snapshot_of ev tm symb) (\<lambda>s.
     ret \<lparr>volume_min = sn_volume_min s, volume_max = sn_volume_max s, volume_step = sn_volume_step s,
          tick_size = sn_tick_size s, tick_value = sn_tick_value s, point = sn_point s,
          stops_level_points = sn_stops_level s, margin_per_lot = sn_margin s\<rparr>)"

subsection \<open>Pages of history\<close>

definition backfill_timeframes :: "string list" where
  "backfill_timeframes = ingest_timeframes @ [''M30'', ''H4'', ''D1'']"

definition cutoff_of :: "int \<Rightarrow> int \<Rightarrow> int res" where
  \<comment> \<open>\<open>now - timedelta(days=days)\<close>\<close>
  "cutoff_of now days =
     (if 999999999 < \<bar>days\<bar> then Inl OverflowError
      else let c = now - days * 86400000000 in
        if - 62135596800000000 \<le> c \<and> c < 253402300800000000 then Inr c else Inl OverflowError)"

text \<open>
  The generator and the \<open>for\<close> loop that consumes it: \<open>body\<close> runs on each page before the next
  one is asked for. The number is a bound on the pages; \<open>Diverged\<close> marks its end.
\<close>

fun history_pages ::
  "env \<Rightarrow> codec \<Rightarrow> string \<Rightarrow> int \<Rightarrow> int \<Rightarrow> int \<Rightarrow> (json list \<Rightarrow> 'a \<Rightarrow> ('x, 'a) act) \<Rightarrow> nat \<Rightarrow> int \<Rightarrow> 'a \<Rightarrow> ('x, 'a) act" where
  "history_pages ev cd symb tf_const cutoff chunk body 0 start_pos acc = throw Diverged"
| "history_pages ev cd symb tf_const cutoff chunk body (Suc n) start_pos acc =
     bnd (copy_rates ev symb tf_const start_pos chunk) (\<lambda>rates.
     case rates of
       None \<Rightarrow> ret acc
     | Some [] \<Rightarrow> ret acc
     | Some (r # rs) \<Rightarrow>
         bnd (body (r # rs) acc) (\<lambda>acc'.
         bnd (lift_res (rate_time cd r)) (\<lambda>oldest.
         if oldest \<le> cutoff \<or> int (length (r # rs)) < chunk then ret acc'
         else history_pages ev cd symb tf_const cutoff chunk body n (start_pos + int (length (r # rs))) acc')))"

definition for_history_chunks ::
  "env \<Rightarrow> terminal \<Rightarrow> string \<Rightarrow> string \<Rightarrow> int \<Rightarrow> int \<Rightarrow> nat \<Rightarrow> (json list \<Rightarrow> 'a \<Rightarrow> ('x, 'a) act) \<Rightarrow> 'a \<Rightarrow> ('x, 'a) act" where
  "for_history_chunks ev tm symb tf days chunk fuel body acc =
     bnd (require_mt5 tm) (\<lambda>_.
     if tf \<notin> set backfill_timeframes then throw (ValueError ''unsupported backfill timeframe'')
     else
       bnd (lift_res (getitem timeframe_map tf)) (\<lambda>c.
       bnd (call ev ans_int ReadClock) (\<lambda>now.
       bnd (lift_res (cutoff_of now days)) (\<lambda>cutoff.
       history_pages ev (tm_codec tm) symb c cutoff chunk body fuel 0 acc))))"

end
