(* ===== verification/DataService.thy ===== *)
theory DataService
  imports Terminal
begin

text \<open>
  The data service: \<open>db.py\<close> (idempotent inserts of bars), \<open>ingest.py\<close> (the polling worker that
  stores closed bars and announces them on \<open>ohlcv.update\<close>), \<open>backfill.py\<close> (pages of history into
  the same table), \<open>routes.py\<close>, and \<open>scripts/fetch_history.py\<close>, the command line over the backfill.
\<close>

subsection \<open>State\<close>

record data_world = terminal_world +
  da_seen :: "int dict"             \<comment> \<open>\<open>_last_seen\<close>: timeframe to the time of the last close\<close>
  da_cycles :: nat
  da_bars_written :: nat
  da_events_published :: nat
  da_last_bar :: "int option"
  da_errors :: nat

type_synonym ('x, 'a) data_act = "('x data_world_ext, 'a) terminal_act"

record ingestor =
  in_terminal :: terminal
  in_timeframes :: "string list"
  in_history_bars :: int

definition default_ingestor :: "terminal \<Rightarrow> ingestor" where
  "default_ingestor tm = \<lparr>in_terminal = tm, in_timeframes = ingest_timeframes, in_history_bars = 300\<rparr>"

definition in_settings :: "ingestor \<Rightarrow> settings" where
  "in_settings ing = tm_settings (in_terminal ing)"

definition mt5_available :: "ingestor \<Rightarrow> bool" where
  \<comment> \<open>\<open>require_mt5()\<close> does not raise\<close>
  "mt5_available ing = tm_present (in_terminal ing)"

subsection \<open>Storage\<close>

definition da_connect :: "env \<Rightarrow> ('x, unit) data_act" where
  "da_connect ev = db_connect ev"

definition da_close :: "env \<Rightarrow> ('x, unit) data_act" where
  "da_close ev = db_close ev"

definition da_ping :: "env \<Rightarrow> ('x, bool) data_act" where
  "da_ping ev = db_ping ev"

definition bar_row :: "string \<Rightarrow> string \<Rightarrow> bar \<Rightarrow> json list" where
  "bar_row symb tf b = [JStr (T symb), JStr (T tf), JInt (b_ts b), JNum (b_open b), JNum (b_high b), JNum (b_low b),
     JNum (b_close b), JInt (b_volume b), JInt 0, JInt 0, JStr (T ''mt5'')]"

definition bar_rows :: "string \<Rightarrow> string \<Rightarrow> bar list \<Rightarrow> ecall" where
  \<comment> \<open>\<open>executemany\<close> of the insert that does nothing on a present key\<close>
  "bar_rows symb tf bars = SqlRun ''insert_ohlcv'' (map (\<lambda>b. JArr (bar_row symb tf b)) bars)"

definition upsert_bars :: "env \<Rightarrow> string \<Rightarrow> string \<Rightarrow> bar list \<Rightarrow> ('x, nat) data_act" where
  "upsert_bars ev symb tf bars =
     (if bars = [] then ret 0
      else bnd (db_ensure ev) (\<lambda>_. bnd (call ev ans_unit (bar_rows symb tf bars)) (\<lambda>_. ret (length bars))))"

definition da_audit :: "env \<Rightarrow> string \<Rightarrow> string \<Rightarrow> string \<Rightarrow> string \<Rightarrow> json dict \<Rightarrow> ('x, unit) data_act" where
  "da_audit ev actor action subject outcome payload =
     attempt
       (bnd (db_ensure ev) (\<lambda>_. call ev ans_unit
          (SqlRun ''insert_audit_log'' [JStr (T actor), JStr (T action), JStr (T subject), JStr (T outcome), JObj payload])))
       (\<lambda>e. if is_psycopg_error e then ret () else throw e)"

subsection \<open>Ingestion\<close>

definition ohlcv_stream :: string where "ohlcv_stream = ''ohlcv.update''"

definition fresh_bars :: "int option \<Rightarrow> bar list \<Rightarrow> bar list" where
  \<comment> \<open>\<open>isoformat\<close> of whole UTC seconds sorts as the times do\<close>
  "fresh_bars previous bars = (case previous of None \<Rightarrow> bars | Some p \<Rightarrow> filter (\<lambda>b. p < b_ts b) bars)"

definition filter_new :: "string \<Rightarrow> bar list \<Rightarrow> ('x, bar list) data_act" where
  "filter_new tf bars =
     (if bars = [] then ret []
      else
        bnd (look (\<lambda>w. dget (da_seen w) tf)) (\<lambda>previous.
        bnd (update (\<lambda>w. w\<lparr>da_seen := dset (da_seen w) tf (b_ts (last bars))\<rparr>)) (\<lambda>_.
        ret (fresh_bars previous bars))))"

definition bar_payload :: "string \<Rightarrow> string \<Rightarrow> bar \<Rightarrow> json dict" where
  "bar_payload symb tf b = [(''symbol'', JStr (T symb)), (''timeframe'', JStr (T tf)), (''ts'', JStr (TIso (b_ts b))),
     (''close'', JNum (b_close b))]"

fun bar_entries :: "env \<Rightarrow> string \<Rightarrow> string \<Rightarrow> bar list \<Rightarrow> ('x, fields list) act" where
  "bar_entries ev symb tf [] = ret []"
| "bar_entries ev symb tf (b # bs) =
     bnd (stream_fields ev (bar_payload symb tf b) None) (\<lambda>e.
     bnd (bar_entries ev symb tf bs) (\<lambda>es.
     ret (e # es)))"

fun send_all :: "env \<Rightarrow> ecall list \<Rightarrow> ('x, ans list) act" where
  "send_all ev [] = ret []"
| "send_all ev (c # cs) = bnd (ask ev c) (\<lambda>a. bnd (send_all ev cs) (\<lambda>as. ret (a # as)))"

fun first_raised :: "ans list \<Rightarrow> exn option" where
  "first_raised [] = None"
| "first_raised (ARaise e # as) = Some e"
| "first_raised (a # as) = first_raised as"

definition pipeline_execute :: "env \<Rightarrow> ecall list \<Rightarrow> ('x, unit) act" where
  \<comment> \<open>a pipeline without transaction: every command is sent, then the first error is raised\<close>
  "pipeline_execute ev cs =
     bnd (send_all ev cs) (\<lambda>as. case first_raised as of None \<Rightarrow> ret () | Some e \<Rightarrow> throw e)"

definition publish_bars :: "env \<Rightarrow> string \<Rightarrow> string \<Rightarrow> bar list \<Rightarrow> ('x, unit) data_act" where
  "publish_bars ev symb tf bars =
     bnd (bar_entries ev symb tf bars) (\<lambda>entries.
     bnd (pipeline_execute ev (map (XAdd ohlcv_stream) entries)) (\<lambda>_.
     update (\<lambda>w. w\<lparr>da_events_published := da_events_published w + length bars,
       da_last_bar := (if bars = [] then None else Some (b_ts (last bars)))\<rparr>)))"

definition ingest_timeframe :: "env \<Rightarrow> ingestor \<Rightarrow> string \<Rightarrow> string \<Rightarrow> ('x, unit) data_act" where
  \<comment> \<open>one pass of the loop of \<open>cycle\<close>\<close>
  "ingest_timeframe ev ing symb tf =
     bnd (copy_bars ev (in_terminal ing) symb tf (in_history_bars ing)) (\<lambda>bars.
     bnd (filter_new tf bars) (\<lambda>fresh.
     if fresh = [] then ret ()
     else
       bnd (upsert_bars ev symb tf fresh) (\<lambda>written.
       bnd (update (\<lambda>w. w\<lparr>da_bars_written := da_bars_written w + written\<rparr>)) (\<lambda>_.
       publish_bars ev symb tf fresh))))"

definition ingest_cycle :: "env \<Rightarrow> ingestor \<Rightarrow> string option \<Rightarrow> ('x, unit) data_act" where
  "ingest_cycle ev ing given =
     (let symb = (case given of Some s \<Rightarrow> if s = [] then symbol (in_settings ing) else s | None \<Rightarrow> symbol (in_settings ing)) in
      bnd (look mt_connected) (\<lambda>c.
      bnd (if c then ret True else terminal_connect ev (in_terminal ing)) (\<lambda>_.
      bnd (each (ingest_timeframe ev ing symb) (in_timeframes ing)) (\<lambda>_.
      update (\<lambda>w. w\<lparr>da_cycles := Suc (da_cycles w)\<rparr>)))))"

definition ingest_round :: "env \<Rightarrow> ingestor \<Rightarrow> ('x, unit) data_act" where
  \<comment> \<open>one turn of \<open>run_forever\<close>: how long to sleep depends on how the cycle ended\<close>
  "ingest_round ev ing =
     bnd (attempt
            (bnd (ingest_cycle ev ing (Some (symbol (in_settings ing)))) (\<lambda>_. ret (poll_interval_seconds (in_settings ing))))
            (\<lambda>e. if \<not> is_exception e then throw e
                 else bnd (update (\<lambda>w. w\<lparr>da_errors := Suc (da_errors w)\<rparr>)) (\<lambda>_.
                   ret (case e of MT5UnavailableError m \<Rightarrow> mk 30 | _ \<Rightarrow> poll_interval_seconds (in_settings ing)))))
       (\<lambda>delay. call ev ans_unit (SleepFor delay))"

fun ingest_rounds :: "env \<Rightarrow> ingestor \<Rightarrow> nat \<Rightarrow> ('x, unit) data_act" where
  "ingest_rounds ev ing 0 = ret ()"
| "ingest_rounds ev ing (Suc n) = bnd (ingest_round ev ing) (\<lambda>_. ingest_rounds ev ing n)"

definition trim_stream :: "env \<Rightarrow> string \<Rightarrow> int \<Rightarrow> ('x, int) act" where
  "trim_stream ev stream n = call ev ans_int (RedisCmd ''xtrim'' [JStr (T stream), JInt n])"

subsection \<open>Backfill\<close>

definition rows_to_bars :: "codec \<Rightarrow> json list \<Rightarrow> bar list res" where
  "rows_to_bars cd rates = res_map (to_utc_bar cd) rates"

definition backfill_chunk :: "env \<Rightarrow> codec \<Rightarrow> string \<Rightarrow> string \<Rightarrow> json list \<Rightarrow> nat \<Rightarrow> ('x, nat) data_act" where
  "backfill_chunk ev cd symb tf chunk stored =
     bnd (lift_res (rows_to_bars cd chunk)) (\<lambda>bars.
     if bars = [] then ret stored
     else bnd (upsert_bars ev symb tf bars) (\<lambda>n. ret (stored + n)))"

definition backfill_timeframe ::
  "env \<Rightarrow> terminal \<Rightarrow> string \<Rightarrow> string \<Rightarrow> int \<Rightarrow> int \<Rightarrow> nat \<Rightarrow> ('x, nat) data_act" where
  \<comment> \<open>the bound is on the pages asked for\<close>
  "backfill_timeframe ev tm symb tf days chunk fuel =
     bnd (for_history_chunks ev tm symb tf days chunk fuel (backfill_chunk ev (tm_codec tm) symb tf) 0) (\<lambda>stored.
     bnd (da_audit ev ''data-service'' ''backfill'' (symb @ '':'' @ tf) ''ok''
            [(''bars'', JInt (int stored)), (''lookback_days'', JInt days)]) (\<lambda>_.
     ret stored))"

subsection \<open>Routes\<close>

definition data_health :: "env \<Rightarrow> ingestor \<Rightarrow> ('x, json dict) data_act" where
  "data_health ev ing =
     bnd (da_ping ev) (\<lambda>db_ok.
     look (\<lambda>w.
       [(''service'', JStr (T ''data-service'')),
        (''status'', JStr (T (if db_ok then ''ok'' else ''degraded''))),
        (''database'', JStr (T (if db_ok then ''up'' else ''down''))),
        (''mt5'', JStr (T (if mt_connected w then ''connected''
            else if \<not> mt5_available ing then ''unavailable'' else ''standby''))),
        (''cycles'', JInt (int (da_cycles w))),
        (''bars_written'', JInt (int (da_bars_written w))),
        (''events_published'', JInt (int (da_events_published w))),
        (''errors'', JInt (int (da_errors w))),
        (''last_bar_ts'', json_opt (\<lambda>t. JStr (TIso t)) (da_last_bar w))]))"

record backfill_request =
  br_timeframes :: "string list"
  br_lookback_days :: int
  br_chunk_size :: int

definition default_backfill_request :: backfill_request where
  "default_backfill_request = \<lparr>br_timeframes = ingest_timeframes, br_lookback_days = 1826, br_chunk_size = 10000\<rparr>"

definition backfill_request_valid :: "backfill_request \<Rightarrow> bool" where
  "backfill_request_valid q \<longleftrightarrow> 1 \<le> br_lookback_days q \<and> br_lookback_days q \<le> 7300 \<and>
     100 \<le> br_chunk_size q \<and> br_chunk_size q \<le> 100000"

definition backfill_job :: "env \<Rightarrow> ingestor \<Rightarrow> backfill_request \<Rightarrow> nat \<Rightarrow> ('x, unit) data_act" where
  \<comment> \<open>the task that runs after the response\<close>
  "backfill_job ev ing q fuel =
     each (\<lambda>tf. bnd (backfill_timeframe ev (in_terminal ing) (symbol (in_settings ing)) tf (br_lookback_days q)
                   (br_chunk_size q) fuel) (\<lambda>_. ret ())) (br_timeframes q)"

definition trigger_backfill ::
  "env \<Rightarrow> ingestor \<Rightarrow> backfill_request \<Rightarrow> pytext option \<Rightarrow> ('x, json dict \<times> backfill_request) act" where
  \<comment> \<open>the 202 response and the job it queues\<close>
  "trigger_backfill ev ing q x_correlation_id =
     (if \<not> list_all (\<lambda>tf. tf \<in> set ingest_timeframes) (br_timeframes q)
      then throw (HTTPException 422 ''unsupported timeframes'')
      else if \<not> mt5_available ing
      then throw (HTTPException 503 ''MT5 bridge unavailable on this host'')
      else
        bnd (case x_correlation_id of
               Some t \<Rightarrow> if text_nonempty t then ret t else new_correlation_id ev
             | None \<Rightarrow> new_correlation_id ev) (\<lambda>_.
        ret ([(''queued'', JBool True), (''timeframes'', JArr (map (\<lambda>tf. JStr (T tf)) (br_timeframes q))),
              (''lookback_days'', JInt (br_lookback_days q)), (''stream'', JStr (T ohlcv_stream))], q)))"

subsection \<open>The history command\<close>

record fetch_args =
  fa_timeframes :: "string list"
  fa_lookback_days :: int
  fa_symbol :: "string option"
  fa_chunk_size :: int
  fa_batch_size :: int
  fa_dry_run :: bool

definition default_fetch_args :: fetch_args where
  "default_fetch_args = \<lparr>fa_timeframes = [''M1''], fa_lookback_days = 1826, fa_symbol = None,
     fa_chunk_size = 10000, fa_batch_size = 5000, fa_dry_run = False\<rparr>"

definition valid_timeframes :: "string list" where
  "valid_timeframes = ingest_timeframes @ [''M30'', ''H4'', ''D1'']"

definition fetch_args_valid :: "fetch_args \<Rightarrow> bool" where
  \<comment> \<open>what \<open>argparse\<close> accepts\<close>
  "fetch_args_valid a \<longleftrightarrow> fa_timeframes a \<noteq> [] \<and> list_all (\<lambda>tf. tf \<in> set valid_timeframes) (fa_timeframes a)"

definition fetch_symbol :: "terminal \<Rightarrow> fetch_args \<Rightarrow> string" where
  "fetch_symbol tm a =
     (case fa_symbol a of Some s \<Rightarrow> if s = [] then symbol (tm_settings tm) else s | None \<Rightarrow> symbol (tm_settings tm))"

definition fetch_timeframe :: "env \<Rightarrow> terminal \<Rightarrow> fetch_args \<Rightarrow> nat \<Rightarrow> string \<Rightarrow> ('x, unit) data_act" where
  "fetch_timeframe ev tm a fuel tf =
     (if fa_dry_run a
      then bnd (for_history_chunks ev tm (fetch_symbol tm a) tf (fa_lookback_days a) (fa_chunk_size a) fuel
                  (\<lambda>chunk n. ret (n + length chunk)) (0 :: nat)) (\<lambda>_. ret ())
      else bnd (backfill_timeframe ev tm (fetch_symbol tm a) tf (fa_lookback_days a) (fa_chunk_size a) fuel) (\<lambda>_. ret ()))"

definition fetch_all :: "env \<Rightarrow> terminal \<Rightarrow> fetch_args \<Rightarrow> nat \<Rightarrow> ('x, nat) data_act" where
  \<comment> \<open>the \<open>try\<close> block; the exit code\<close>
  "fetch_all ev tm a fuel =
     finally_do
       (attempt (bnd (each (fetch_timeframe ev tm a fuel) (fa_timeframes a)) (\<lambda>_. ret 0))
          (\<lambda>e. if is_exception e then ret 1 else throw e))
       (bnd (terminal_shutdown ev tm) (\<lambda>_. da_close ev))"

definition fetch_history :: "env \<Rightarrow> terminal \<Rightarrow> fetch_args \<Rightarrow> nat \<Rightarrow> ('x, nat) data_act" where
  "fetch_history ev tm a fuel =
     bnd (attempt (bnd (terminal_connect ev tm) (\<lambda>_. ret True)) (\<lambda>e. if is_exception e then ret False else throw e)) (\<lambda>connected.
     if \<not> connected then ret 2
     else bnd (da_connect ev) (\<lambda>_. fetch_all ev tm a fuel))"

subsection \<open>What the ingestion announces\<close>

fun announcement :: "string \<Rightarrow> ecall \<Rightarrow> int list" where
  \<comment> \<open>the times that an entry of the stream announces for a timeframe\<close>
  "announcement tf (XAdd s fs) =
     (if s = ohlcv_stream \<and> dget fs ''timeframe'' = Some (T tf)
      then (case dget fs ''ts'' of Some (TIso t) \<Rightarrow> [t] | _ \<Rightarrow> []) else [])"
| "announcement tf c = []"

definition announced :: "string \<Rightarrow> ecall list \<Rightarrow> int list" where
  "announced tf l = concat (map (announcement tf) l)"

lemma announced_simps [simp]: "announced tf [] = []" "announced tf (c # l) = announcement tf c @ announced tf l"
  "announced tf (l @ m) = announced tf l @ announced tf m"
  by (simp_all add: announced_def)

lemma announced_quiet: "\<forall>c \<in> set l. \<not> is_xadd c \<Longrightarrow> announced tf l = []"
proof (induction l)
  case (Cons c l)
  then have "announcement tf c = []" by (cases c) simp_all
  then show ?case using Cons by simp
qed simp

definition announces :: "string \<Rightarrow> string \<Rightarrow> bar \<Rightarrow> fields \<Rightarrow> bool" where
  "announces symb tf b fs \<longleftrightarrow> dget fs ''symbol'' = Some (T symb) \<and> dget fs ''timeframe'' = Some (T tf) \<and>
     dget fs ''ts'' = Some (TIso (b_ts b)) \<and> dget fs ''close'' = Some (TFlt (b_close b))"

lemma announced_entries:
  "list_all2 (announces symb tf) bs es \<Longrightarrow>
     announced tf' (map (XAdd ohlcv_stream) es) = (if tf' = tf then map b_ts bs else [])"
  by (induction rule: list_all2_induct) (auto simp: announces_def)

lemma stream_fields_announces:
  "stream_fields ev (bar_payload symb tf b) None w = (Inr e, w') \<Longrightarrow> announces symb tf b e"
  using stream_fields_value [of ev "bar_payload symb tf b" None w e w'] by (auto simp: announces_def bar_payload_def)

lemma bar_entries_announce:
  "bar_entries ev symb tf bs w = (Inr es, w') \<Longrightarrow> list_all2 (announces symb tf) bs es"
  by (induction bs arbitrary: es w) (auto simp: bnd_Inr_iff dest: stream_fields_announces)

lemma send_all_log: "send_all ev cs w = (r, w') \<Longrightarrow> w' = w\<lparr>log := log w @ cs\<rparr> \<and> (\<exists>as. r = Inr as)"
proof (induction cs arbitrary: w r w')
  case (Cons c cs)
  obtain q v where q: "send_all ev cs (w\<lparr>log := log w @ [c]\<rparr>) = (q, v)" by (metis surj_pair)
  from Cons.IH [OF q] Cons.prems q show ?case by (auto simp: bnd_def ask_def)
qed simp

lemma pipeline_execute_log: "pipeline_execute ev cs w = (r, w') \<Longrightarrow> w' = w\<lparr>log := log w @ cs\<rparr>"
  unfolding pipeline_execute_def
  by (erule bnd_cases) (auto dest!: send_all_log split: option.splits)

text \<open>Calls that announce nothing, with the times seen unchanged.\<close>

definition quiet :: "'x data_world_scheme \<Rightarrow> 'x data_world_scheme \<Rightarrow> bool" where
  "quiet w w' \<longleftrightarrow> log_grows (\<lambda>c. \<not> is_xadd c) w w' \<and> da_seen w' = da_seen w"

interpretation quiet: call_relation quiet "\<lambda>c. \<not> is_xadd c"
  by unfold_locales (auto simp: quiet_def log_grows_def)

lemma quiet_update: "(\<And>w. log (f w) = log w \<and> da_seen (f w) = da_seen w) \<Longrightarrow> keeps quiet (update f)"
  by (rule quiet.keeps_update) (simp add: quiet_def log_grows_def)

lemma quiet_connect_loop [intro!]: "keeps quiet (connect_loop ev tm n d :: ('x, bool) data_act)"
proof (induction n arbitrary: d)
  case (Suc n)
  then show ?case unfolding connect_loop.simps terminal_login_def by (auto intro!: quiet_update)
qed (auto simp: )

lemma quiet_connect [intro!]: "keeps quiet (terminal_connect ev tm :: ('x, bool) data_act)"
  unfolding terminal_connect_def require_mt5_def by auto

lemma quiet_copy_bars [intro!]: "keeps quiet (copy_bars ev tm symb tf n :: ('x, bar list) data_act)"
  unfolding copy_bars_def require_mt5_def copy_rates_def by auto

lemma quiet_upsert [intro!]: "keeps quiet (upsert_bars ev symb tf bars :: ('x, nat) data_act)"
  unfolding upsert_bars_def bar_rows_def by auto

lemma quiet_entries [intro!]: "keeps quiet (bar_entries ev symb tf bars :: ('x, fields list) data_act)"
proof (induction bars)
  case (Cons b bars)
  then show ?case unfolding bar_entries.simps by auto
qed (simp only: bar_entries.simps quiet.keeps_ret)

text \<open>The closed bars the terminal answers with after the calls \<open>l\<close>.\<close>

definition window :: "env \<Rightarrow> ingestor \<Rightarrow> string \<Rightarrow> string \<Rightarrow> ecall list \<Rightarrow> bar list option" where
  "window ev ing symb tf l =
     (case dget timeframe_map tf of
        None \<Rightarrow> None
      | Some c \<Rightarrow>
          (case ans_rates (reply ev l (Mt5Call ''copy_rates_from_pos''
                  [JStr (T symb), JInt c, JInt 0, JInt (in_history_bars ing + 1)])) of
             Inr (Some (r # rs)) \<Rightarrow>
               (case res_map (to_utc_bar (tm_codec (in_terminal ing))) (butlast (r # rs)) of
                  Inr bars \<Rightarrow> Some bars | Inl e \<Rightarrow> None)
           | _ \<Rightarrow> None))"

definition steady_terminal :: "env \<Rightarrow> ingestor \<Rightarrow> string \<Rightarrow> string \<Rightarrow> bool" where
  \<comment> \<open>windows are in order of time, and a later window does not end before an earlier one\<close>
  "steady_terminal ev ing symb tf \<longleftrightarrow>
     (\<forall>l bars. window ev ing symb tf l = Some bars \<longrightarrow> sorted_wrt (<) (map b_ts bars)) \<and>
     (\<forall>l m a b. window ev ing symb tf l = Some a \<longrightarrow> window ev ing symb tf (l @ m) = Some b \<longrightarrow> a \<noteq> [] \<longrightarrow> b \<noteq> [] \<longrightarrow>
        b_ts (last a) \<le> b_ts (last b))"

lemma bnd_ret: "bnd (ret x) f = f x"
  by (rule ext) (simp add: bnd_def)

lemma copy_bars_window:
  fixes w v :: "'x data_world_scheme"
  assumes "copy_bars ev (in_terminal ing) symb tf (in_history_bars ing) w = (Inr bars, v)"
  shows "window ev ing symb tf (log w) = Some bars \<and> da_seen v = da_seen w \<and> (\<exists>c. log v = log w @ [c] \<and> \<not> is_xadd c)"
proof -
  obtain c where c: "dget timeframe_map tf = Some c"
    using assms by (cases "dget timeframe_map tf") (auto simp: copy_bars_def bnd_Inr_iff)
  have "tm_present (in_terminal ing)"
    using assms by (cases "tm_present (in_terminal ing)") (simp_all add: copy_bars_def require_mt5_def bnd_def)
  then have run: "bnd (copy_rates ev symb c 0 (in_history_bars ing + 1)) (\<lambda>rates.
      if rates = None \<or> rates = Some []
      then bnd (call ev ans_text Mt5LastError) (\<lambda>_. throw (RuntimeError ''copy_rates failed''))
      else lift_res (res_map (to_utc_bar (tm_codec (in_terminal ing))) (butlast (the rates)))) w = (Inr bars, v)"
    using assms c by (simp add: copy_bars_def require_mt5_def bnd_ret)
  obtain rates u where r: "copy_rates ev symb c 0 (in_history_bars ing + 1) w = (Inr rates, u)"
    and rest: "(if rates = None \<or> rates = Some []
         then bnd (call ev ans_text Mt5LastError) (\<lambda>_. throw (RuntimeError ''copy_rates failed''))
         else lift_res (res_map (to_utc_bar (tm_codec (in_terminal ing))) (butlast (the rates)))) u = (Inr bars, v)"
    using run unfolding bnd_Inr_iff by blast
  obtain x xs where rs: "rates = Some (x # xs)"
    using rest by (cases rates; cases "the rates") (auto simp: bnd_Inr_iff)
  have "v = u" "res_map (to_utc_bar (tm_codec (in_terminal ing))) (butlast (x # xs)) = Inr bars"
    using rest rs by simp_all
  then show ?thesis
    using r rs c by (auto simp: window_def copy_rates_def call_run)
qed

text \<open>Every entry of the stream follows the insert of its bar.\<close>

definition grounded :: "string \<Rightarrow> ecall list \<Rightarrow> bool" where
  "grounded symb l \<longleftrightarrow> (\<forall>i < length l. \<forall>fs. l ! i = XAdd ohlcv_stream fs \<longrightarrow>
     (\<exists>j < i. \<exists>tf bars b. l ! j = bar_rows symb tf bars \<and> b \<in> set bars \<and> announces symb tf b fs))"

lemma grounded_append:
  assumes "grounded symb l" "\<And>fs. XAdd ohlcv_stream fs \<in> set m \<Longrightarrow>
     \<exists>tf bars b. bar_rows symb tf bars \<in> set l \<and> b \<in> set bars \<and> announces symb tf b fs"
  shows "grounded symb (l @ m)"
  unfolding grounded_def
proof (intro allI impI)
  fix i fs assume i: "i < length (l @ m)" "(l @ m) ! i = XAdd ohlcv_stream fs"
  show "\<exists>j < i. \<exists>tf bars b. (l @ m) ! j = bar_rows symb tf bars \<and> b \<in> set bars \<and> announces symb tf b fs"
  proof (cases "i < length l")
    case True
    then obtain j tf bars b where "j < i" "l ! j = bar_rows symb tf bars" "b \<in> set bars" "announces symb tf b fs"
      using assms(1) i(2) unfolding grounded_def by (simp add: nth_append) blast
    then show ?thesis using True by (intro exI [of _ j]) (auto simp: nth_append)
  next
    case False
    then have "i - length l < length m" "m ! (i - length l) = XAdd ohlcv_stream fs" using i by (simp_all add: nth_append)
    then have "XAdd ohlcv_stream fs \<in> set m" by (metis nth_mem)
    then obtain tf bars b where "bar_rows symb tf bars \<in> set l" "b \<in> set bars" "announces symb tf b fs"
      using assms(2) by blast
    moreover from this(1) obtain j where "j < length l" "l ! j = bar_rows symb tf bars" by (auto simp: in_set_conv_nth)
    ultimately show ?thesis using False by (intro exI [of _ j]) (auto simp: nth_append)
  qed
qed

lemma grounded_quiet: "grounded symb l \<Longrightarrow> \<forall>c \<in> set m. \<not> is_xadd c \<Longrightarrow> grounded symb (l @ m)"
  by (rule grounded_append) auto

definition seen_window :: "env \<Rightarrow> ingestor \<Rightarrow> string \<Rightarrow> string \<Rightarrow> ecall list \<Rightarrow> int \<Rightarrow> bool" where
  \<comment> \<open>some window answered so far ended at \<open>p\<close>\<close>
  "seen_window ev ing symb tf l p \<longleftrightarrow>
     (\<exists>k m bars. l = k @ m \<and> window ev ing symb tf k = Some bars \<and> bars \<noteq> [] \<and> b_ts (last bars) = p)"

lemma seen_window_append: "seen_window ev ing symb tf l p \<Longrightarrow> seen_window ev ing symb tf (l @ n) p"
  unfolding seen_window_def by (metis append_assoc)

lemma seen_window_now: "window ev ing symb tf l = Some bars \<Longrightarrow> bars \<noteq> [] \<Longrightarrow> seen_window ev ing symb tf (l @ n) (b_ts (last bars))"
  unfolding seen_window_def by blast

definition orderly :: "env \<Rightarrow> ingestor \<Rightarrow> string \<Rightarrow> string \<Rightarrow> 'x data_world_scheme \<Rightarrow> bool" where
  \<comment> \<open>the invariant of the ingestion for a timeframe\<close>
  "orderly ev ing symb tf w \<longleftrightarrow>
     grounded symb (log w) \<and> sorted_wrt (<) (announced tf (log w)) \<and>
     (case dget (da_seen w) tf of
        None \<Rightarrow> announced tf (log w) = []
      | Some p \<Rightarrow> (\<forall>t \<in> set (announced tf (log w)). t \<le> p) \<and> seen_window ev ing symb tf (log w) p)"

lemma orderly_quiet:
  assumes "orderly ev ing symb tf w" "quiet w w'"
  shows "orderly ev ing symb tf w'"
proof -
  obtain m where m: "log w' = log w @ m" "\<forall>c \<in> set m. \<not> is_xadd c" and s: "da_seen w' = da_seen w"
    using assms(2) by (auto simp: quiet_def log_grows_def)
  have "announced tf m = []" by (rule announced_quiet [OF m(2)])
  then show ?thesis
    using assms(1) m s grounded_quiet [OF _ m(2), of symb "log w"]
    unfolding orderly_def by (cases "dget (da_seen w) tf") (simp_all add: seen_window_append)
qed

lemma orderly_seen:
  assumes "orderly ev ing symb tf w" "steady_terminal ev ing symb tf"
    and "log v = log w @ m" "\<forall>c \<in> set m. \<not> is_xadd c" "window ev ing symb tf (log w) = Some bars" "bars \<noteq> []"
    and "da_seen v = dset (da_seen w) tf (b_ts (last bars))"
  shows "orderly ev ing symb tf v \<and>
    sorted_wrt (<) (announced tf (log v) @ map b_ts (fresh_bars (dget (da_seen w) tf) bars)) \<and>
    (\<forall>b \<in> set (fresh_bars (dget (da_seen w) tf) bars). b_ts b \<le> b_ts (last bars))"
proof -
  let ?f = "fresh_bars (dget (da_seen w) tf) bars"
  have q: "announced tf m = []" by (rule announced_quiet [OF assms(4)])
  have asc: "sorted_wrt (<) (map b_ts bars)" using assms(2,5) by (simp add: steady_terminal_def)
  then have top: "\<forall>b \<in> set bars. b_ts b \<le> b_ts (last bars)"
    using assms(6) by (induction bars) (auto simp: less_imp_le)
  have fresh: "set ?f \<subseteq> set bars" "sorted_wrt (<) (map b_ts ?f)"
    using asc by (auto simp: fresh_bars_def sorted_wrt_filter sorted_wrt_map split: option.splits)
  have seen: "\<forall>t \<in> set (announced tf (log w)). t \<le> b_ts (last bars) \<and> (\<forall>b \<in> set ?f. t < b_ts b)"
  proof (cases "dget (da_seen w) tf")
    case None
    then show ?thesis using assms(1) by (simp add: orderly_def)
  next
    case (Some p)
    then obtain l k a where "\<forall>t \<in> set (announced tf (log w)). t \<le> p" and w: "log w = l @ k" "window ev ing symb tf l = Some a"
      "a \<noteq> []" "b_ts (last a) = p"
      using assms(1) by (auto simp: orderly_def seen_window_def)
    moreover have "p \<le> b_ts (last bars)"
      using assms(2) w assms(5,6) unfolding steady_terminal_def by metis
    ultimately show ?thesis using Some by (fastforce simp: fresh_bars_def)
  qed
  have "sorted_wrt (<) (announced tf (log w))" "grounded symb (log w)" using assms(1) by (simp_all add: orderly_def)
  then show ?thesis
    using seen fresh top q assms(3-7) grounded_quiet [OF _ assms(4), of symb "log w"]
      seen_window_now [OF assms(5,6), of m]
    by (auto simp: orderly_def sorted_wrt_append)
qed

lemma publish_bars_cases:
  fixes v w' :: "'x data_world_scheme"
  assumes "publish_bars ev symb tf bars v = (r, w')"
  shows "quiet v w' \<or> (\<exists>es u. list_all2 (announces symb tf) bars es \<and> quiet v u \<and>
     log w' = log u @ map (XAdd ohlcv_stream) es \<and> da_seen w' = da_seen u)"
  using assms unfolding publish_bars_def
proof (cases rule: bnd_cases)
  case (1 e)
  then show ?thesis using keepsD [OF quiet_entries] by blast
next
  case (2 es u)
  have a: "list_all2 (announces symb tf) bars es" by (rule bar_entries_announce [OF 2(1)])
  have q: "quiet v u" by (rule keepsD [OF quiet_entries 2(1)])
  obtain rp u' where p: "pipeline_execute ev (map (XAdd ohlcv_stream) es) u = (rp, u')" by (metis surj_pair)
  then have "u' = u\<lparr>log := log u @ map (XAdd ohlcv_stream) es\<rparr>" by (rule pipeline_execute_log)
  then have "log w' = log u @ map (XAdd ohlcv_stream) es \<and> da_seen w' = da_seen u"
    using 2(2) p by (cases rp) (auto simp: bnd_def)
  then show ?thesis using a q by blast
qed

lemma orderly_publish:
  assumes "orderly ev ing symb tf v" "publish_bars ev symb tf' bars v = (r, w')"
    and "\<exists>rows. bar_rows symb tf' rows \<in> set (log v) \<and> set bars \<subseteq> set rows"
    and "tf' = tf \<Longrightarrow> sorted_wrt (<) (announced tf (log v) @ map b_ts bars)"
    and "tf' = tf \<Longrightarrow> \<exists>p. dget (da_seen v) tf = Some p \<and> (\<forall>b \<in> set bars. b_ts b \<le> p)"
  shows "orderly ev ing symb tf w'"
  using publish_bars_cases [OF assms(2)]
proof (elim disjE exE conjE)
  fix es u
  assume es: "list_all2 (announces symb tf') bars es" and q: "quiet v u"
    and w': "log w' = log u @ map (XAdd ohlcv_stream) es" "da_seen w' = da_seen u"
  obtain k where k: "log u = log v @ k" "\<forall>c \<in> set k. \<not> is_xadd c" and s: "da_seen u = da_seen v"
    using q by (auto simp: quiet_def log_grows_def)
  have o: "orderly ev ing symb tf u" by (rule orderly_quiet [OF assms(1) q])
  have new: "announced tf (log w') = announced tf (log v) @ (if tf = tf' then map b_ts bars else [])"
    using announced_entries [OF es, of tf] announced_quiet [OF k(2)] w'(1) k(1) by simp
  have old: "announced tf (log u) = announced tf (log v)" using k announced_quiet [OF k(2)] by simp
  have "grounded symb (log u @ map (XAdd ohlcv_stream) es)"
  proof (rule grounded_append)
    show "grounded symb (log u)" using o by (simp add: orderly_def)
    fix fs assume "XAdd ohlcv_stream fs \<in> set (map (XAdd ohlcv_stream) es)"
    then obtain i where "i < length es" "fs = es ! i" by (auto simp: in_set_conv_nth)
    then have "bars ! i \<in> set bars" "announces symb tf' (bars ! i) fs"
      using es by (simp_all add: list_all2_conv_all_nth)
    then obtain b where "b \<in> set bars" "announces symb tf' b fs" by blast
    then show "\<exists>tf bars b. bar_rows symb tf bars \<in> set (log u) \<and> b \<in> set bars \<and> announces symb tf b fs"
      using assms(3) k(1) by auto
  qed
  then show ?thesis
    using o new old assms(4,5) w' s k
    by (cases "tf = tf'"; cases "dget (da_seen u) tf")
      (auto simp: orderly_def simp del: append_assoc intro: seen_window_append)
qed (rule orderly_quiet [OF assms(1)])

lemma orderly_other:
  assumes "orderly ev ing symb tf w" "da_seen v = dset (da_seen w) tf' p" "tf' \<noteq> tf" "log v = log w"
  shows "orderly ev ing symb tf v"
  using assms by (cases "dget (da_seen w) tf") (simp_all add: orderly_def)

lemma fresh_bars_announced:
  fixes u w' :: "'x data_world_scheme"
  assumes "orderly ev ing symb tf u" "fresh \<noteq> []"
    and "tf' = tf \<Longrightarrow> sorted_wrt (<) (announced tf (log u) @ map b_ts fresh) \<and>
      (\<exists>p. dget (da_seen u) tf = Some p \<and> (\<forall>b \<in> set fresh. b_ts b \<le> p))"
    and "bnd (upsert_bars ev symb tf' fresh) (\<lambda>written.
      bnd (update (\<lambda>w. w\<lparr>da_bars_written := da_bars_written w + written\<rparr>)) (\<lambda>_.
      publish_bars ev symb tf' fresh)) u = (r, w')"
  shows "orderly ev ing symb tf w'"
  using assms(4)
proof (cases rule: bnd_cases)
  case (1 e)
  then have "quiet u w'" by (intro keepsD [OF quiet_upsert])
  then show ?thesis by (rule orderly_quiet [OF assms(1)])
next
  case (2 n x)
  let ?y = "x\<lparr>da_bars_written := da_bars_written x + n\<rparr>"
  have "quiet u x" by (rule keepsD [OF quiet_upsert 2(1)])
  then have qy: "quiet u ?y" by (simp add: quiet_def log_grows_def)
  obtain k where k: "log ?y = log u @ k" "\<forall>c \<in> set k. \<not> is_xadd c" "da_seen ?y = da_seen u"
    using qy unfolding quiet_def log_grows_def by blast
  have ann: "announced tf (log ?y) = announced tf (log u)" using k(1) announced_quiet [OF k(2)] by simp
  have rows: "bar_rows symb tf' fresh \<in> set (log ?y)"
    using 2(1) assms(2) by (auto simp: upsert_bars_def bnd_Inr_iff call_run)
  have pub: "publish_bars ev symb tf' fresh ?y = (r, w')" using 2(2) by (simp add: bnd_def)
  show ?thesis
  proof (rule orderly_publish [OF orderly_quiet [OF assms(1) qy] pub])
    show "\<exists>rows. bar_rows symb tf' rows \<in> set (log ?y) \<and> set fresh \<subseteq> set rows" using rows by blast
    show "sorted_wrt (<) (announced tf (log ?y) @ map b_ts fresh)" if "tf' = tf" using assms(3) [OF that] ann by simp
    show "\<exists>p. dget (da_seen ?y) tf = Some p \<and> (\<forall>b \<in> set fresh. b_ts b \<le> p)" if "tf' = tf"
      using assms(3) [OF that] k(3) by simp
  qed
qed

text \<open>After a window was read, its last bar is the last seen one of its timeframe.\<close>

lemma orderly_window:
  fixes w v :: "'x data_world_scheme"
  assumes "orderly ev ing symb tf w" "steady_terminal ev ing symb tf" "window ev ing symb tf' (log w) = Some bars" "bars \<noteq> []"
    and "\<exists>c. log v = log w @ [c] \<and> \<not> is_xadd c" "da_seen v = da_seen w" "orderly ev ing symb tf v"
  defines "u \<equiv> v\<lparr>da_seen := dset (da_seen v) tf' (b_ts (last bars))\<rparr>"
  shows "orderly ev ing symb tf u"
    and "tf' = tf \<longrightarrow> sorted_wrt (<) (announced tf (log u) @ map b_ts (fresh_bars (dget (da_seen v) tf') bars)) \<and>
      (\<exists>p. dget (da_seen u) tf = Some p \<and> (\<forall>b \<in> set (fresh_bars (dget (da_seen v) tf') bars). b_ts b \<le> p))"
proof -
  have seen: "orderly ev ing symb tf u \<and> sorted_wrt (<) (announced tf (log u) @ map b_ts (fresh_bars (dget (da_seen v) tf') bars)) \<and>
      (\<exists>p. dget (da_seen u) tf = Some p \<and> (\<forall>b \<in> set (fresh_bars (dget (da_seen v) tf') bars). b_ts b \<le> p))" if "tf' = tf"
    using orderly_seen [OF assms(1,2), of u _ bars] assms(3-6) that unfolding u_def by auto
  show "orderly ev ing symb tf u"
  proof (cases "tf' = tf")
    case False
    then show ?thesis unfolding u_def by (intro orderly_other [OF assms(7)]) simp_all
  qed (use seen in blast)
  show "tf' = tf \<longrightarrow> sorted_wrt (<) (announced tf (log u) @ map b_ts (fresh_bars (dget (da_seen v) tf') bars)) \<and>
      (\<exists>p. dget (da_seen u) tf = Some p \<and> (\<forall>b \<in> set (fresh_bars (dget (da_seen v) tf') bars). b_ts b \<le> p))"
    using seen by blast
qed

lemma ingest_timeframe_orderly:
  fixes w w' :: "'x data_world_scheme"
  assumes "orderly ev ing symb tf w" "steady_terminal ev ing symb tf" "ingest_timeframe ev ing symb tf' w = (r, w')"
  shows "orderly ev ing symb tf w'"
  using assms(3) unfolding ingest_timeframe_def
proof (cases rule: bnd_cases)
  case (1 e)
  then have "quiet w w'" by (intro keepsD [OF quiet_copy_bars])
  then show ?thesis by (rule orderly_quiet [OF assms(1)])
next
  case (2 bars v)
  have win: "window ev ing symb tf' (log w) = Some bars" and seen: "da_seen v = da_seen w"
    and lg: "\<exists>c. log v = log w @ [c] \<and> \<not> is_xadd c"
    using copy_bars_window [OF 2(1)] by simp_all
  have "quiet w v" using lg seen by (auto simp: quiet_def log_grows_def)
  then have ov: "orderly ev ing symb tf v" by (rule orderly_quiet [OF assms(1)])
  show ?thesis
  proof (cases "bars = []")
    case True
    then show ?thesis using 2(2) ov by (simp add: filter_new_def bnd_def)
  next
    case False
    let ?u = "v\<lparr>da_seen := dset (da_seen v) tf' (b_ts (last bars))\<rparr>"
    let ?f = "fresh_bars (dget (da_seen v) tf') bars"
    note window = orderly_window [OF assms(1,2) win False lg seen ov]
    have mid: "sorted_wrt (<) (announced tf (log ?u) @ map b_ts ?f) \<and>
        (\<exists>p. dget (da_seen ?u) tf = Some p \<and> (\<forall>b \<in> set ?f. b_ts b \<le> p))" if "tf' = tf"
      using window(2) that by blast
    have run: "(if ?f = [] then ret ()
     else
       bnd (upsert_bars ev symb tf' ?f) (\<lambda>written.
       bnd (update (\<lambda>w. w\<lparr>da_bars_written := da_bars_written w + written\<rparr>)) (\<lambda>_.
       publish_bars ev symb tf' ?f))) ?u = (r, w')"
      using 2(2) False by (simp add: filter_new_def bnd_def)
    show ?thesis
    proof (cases "?f = []")
      case True
      then show ?thesis using run window(1) by simp
    next
      case False
      then show ?thesis using run by (intro fresh_bars_announced [OF window(1) False mid]) simp_all
    qed
  qed
qed

lemma each_preserves:
  assumes "\<And>x w r w'. x \<in> set xs \<Longrightarrow> P w \<Longrightarrow> f x w = (r, w') \<Longrightarrow> P w'" "P w" "each f xs w = (r, w')"
  shows "P w'"
  using assms
proof (induction xs arbitrary: w)
  case (Cons x xs)
  from Cons.prems(3) show ?case unfolding each.simps
  proof (cases rule: bnd_cases)
    case (1 e)
    then show ?thesis using Cons.prems(1,2) by (metis list.set_intros(1))
  next
    case (2 u v)
    have pv: "P v" using Cons.prems(1) [OF _ Cons.prems(2) 2(1)] by simp
    show ?thesis by (rule Cons.IH [OF Cons.prems(1) pv 2(2)]) simp_all
  qed
qed simp

lemma ingest_cycle_orderly:
  fixes w w' :: "'x data_world_scheme"
  assumes "orderly ev ing (symbol (in_settings ing)) tf w" "steady_terminal ev ing (symbol (in_settings ing)) tf"
    and "ingest_cycle ev ing (Some (symbol (in_settings ing))) w = (r, w')"
  shows "orderly ev ing (symbol (in_settings ing)) tf w'"
proof -
  let ?s = "symbol (in_settings ing)"
  obtain rc v where c: "(if mt_connected w then ret True else terminal_connect ev (in_terminal ing)) w = (rc, v)"
    by (metis surj_pair)
  have "keeps quiet (if mt_connected w then ret True else terminal_connect ev (in_terminal ing) :: ('x, bool) data_act)" by auto
  then have "quiet w v" by (rule keepsD) (rule c)
  then have ov: "orderly ev ing ?s tf v" by (rule orderly_quiet [OF assms(1)])
  obtain re u where e: "each (ingest_timeframe ev ing ?s) (in_timeframes ing) v = (re, u)" by (metis surj_pair)
  have ou: "orderly ev ing ?s tf u"
    using e by (rule each_preserves [where P = "orderly ev ing ?s tf", rotated 2])
      (auto intro: ov ingest_timeframe_orderly [OF _ assms(2)])
  have "w' = v \<or> w' = u \<or> (\<exists>n. w' = u\<lparr>da_cycles := n\<rparr>)"
    using assms(3) c e by (cases rc; cases re) (auto simp: ingest_cycle_def Let_def bnd_def split: if_splits)
  moreover have "quiet u (u\<lparr>da_cycles := n\<rparr>)" for n by (simp add: quiet_def log_grows_def)
  ultimately show ?thesis using ov ou orderly_quiet [OF ou] by blast
qed

lemma ingest_round_orderly:
  fixes w w' :: "'x data_world_scheme"
  assumes "orderly ev ing (symbol (in_settings ing)) tf w" "steady_terminal ev ing (symbol (in_settings ing)) tf"
    and "ingest_round ev ing w = (r, w')"
  shows "orderly ev ing (symbol (in_settings ing)) tf w'"
proof -
  obtain rc v where c: "ingest_cycle ev ing (Some (symbol (in_settings ing))) w = (rc, v)" by (metis surj_pair)
  have ov: "orderly ev ing (symbol (in_settings ing)) tf v" by (rule ingest_cycle_orderly [OF assms(1,2) c])
  have "quiet v w'"
    using assms(3) c
    by (cases rc) (auto simp: ingest_round_def bnd_def attempt_def call_run quiet_def log_grows_def split: if_splits)
  then show ?thesis by (rule orderly_quiet [OF ov])
qed

lemma ingest_rounds_orderly:
  fixes w w' :: "'x data_world_scheme"
  assumes "orderly ev ing (symbol (in_settings ing)) tf w" "steady_terminal ev ing (symbol (in_settings ing)) tf"
    and "ingest_rounds ev ing n w = (r, w')"
  shows "orderly ev ing (symbol (in_settings ing)) tf w'"
  using assms
proof (induction n arbitrary: w)
  case (Suc n)
  from Suc.prems(3) show ?case unfolding ingest_rounds.simps
  proof (cases rule: bnd_cases)
    case (1 e)
    then show ?thesis using ingest_round_orderly [OF Suc.prems(1,2)] by blast
  next
    case (2 u v)
    then show ?thesis using Suc.IH ingest_round_orderly [OF Suc.prems(1,2)] Suc.prems(2) by blast
  qed
qed simp

subsection \<open>Properties\<close>

text \<open>
  C37. Over any number of polling rounds, whatever the database and Redis answer, each closed bar of a timeframe is
  announced on \<open>ohlcv.update\<close> at most once and in order of time, and every entry of the stream
  follows the insert of the very bar it announces. The terminal is only assumed to answer windows
  in order of time that never end earlier than one before.
\<close>

theorem bars_announced_once:
  fixes w w' :: "'x data_world_scheme"
  assumes "log w = []" "da_seen w = []" "steady_terminal ev ing (symbol (in_settings ing)) tf"
    and "ingest_rounds ev ing n w = (r, w')"
  shows "sorted_wrt (<) (announced tf (log w')) \<and>
    (\<forall>i < length (log w'). \<forall>fs. log w' ! i = XAdd ohlcv_stream fs \<longrightarrow>
       (\<exists>j < i. \<exists>tf' bars b. log w' ! j = bar_rows (symbol (in_settings ing)) tf' bars \<and> b \<in> set bars \<and>
          announces (symbol (in_settings ing)) tf' b fs))"
proof -
  have "orderly ev ing (symbol (in_settings ing)) tf w"
    using assms(1,2) by (simp add: orderly_def grounded_def)
  then have "orderly ev ing (symbol (in_settings ing)) tf w'" by (rule ingest_rounds_orderly [OF _ assms(3,4)])
  then show ?thesis by (simp add: orderly_def grounded_def)
qed

text \<open>
  The times seen advance before the insert: bars whose insert fails are neither stored nor
  announced by a later round (until the process restarts).
\<close>

lemma failed_upsert_loses_bars:
  fixes w :: "'x data_world_scheme"
  assumes "copy_bars ev (in_terminal ing) symb tf (in_history_bars ing) w = (Inr bars, v)" "bars \<noteq> []"
    and "upsert_bars ev symb tf (fresh_bars (dget (da_seen v) tf) bars)
           (v\<lparr>da_seen := dset (da_seen v) tf (b_ts (last bars))\<rparr>) = (Inl e, u)"
    and "fresh_bars (dget (da_seen v) tf) bars \<noteq> []" "sorted_wrt (<) (map b_ts bars)"
  shows "ingest_timeframe ev ing symb tf w = (Inl e, u) \<and> fresh_bars (dget (da_seen u) tf) bars = []"
proof -
  have "da_seen u = dset (da_seen v) tf (b_ts (last bars))"
    using keepsD [OF quiet_upsert assms(3)] by (simp add: quiet_def)
  moreover have "\<forall>b \<in> set bars. b_ts b \<le> b_ts (last bars)"
    using assms(2,5) by (induction bars) (auto simp: less_imp_le)
  ultimately have "fresh_bars (dget (da_seen u) tf) bars = []"
    by (auto simp: fresh_bars_def filter_empty_conv not_less)
  then show ?thesis using assms by (simp add: ingest_timeframe_def bnd_def filter_new_def)
qed

text \<open>A terminal with three closed bars and one forming, for the witness.\<close>

definition rate_at :: "int \<Rightarrow> json" where
  "rate_at t = JObj [(''time'', JInt t), (''open'', JNum 1), (''high'', JNum 1), (''low'', JNum 1), (''close'', JNum 1),
     (''tick_volume'', JInt 7)]"

definition quiet_market :: "ecall list \<Rightarrow> ecall \<Rightarrow> ans" where
  "quiet_market l c = (case c of
       Mt5Call n ps \<Rightarrow> if n = ''initialize'' then AJson (JBool True) else AJson (JArr (map rate_at [60, 120, 180, 240]))
     | SqlRun n ps \<Rightarrow> if n = ''closed'' then AInt 0 else AUnit
     | NewId \<Rightarrow> AText (T ''c3'') | _ \<Rightarrow> AUnit)"

definition plain_codec :: codec where
  "plain_codec = \<lparr>cd_json = (\<lambda>t. Inl JSONDecodeError), cd_float = (\<lambda>t. Inl (ValueError ''float'')),
     cd_int = (\<lambda>t. Inl (ValueError ''int'')), cd_signal = (\<lambda>v. Inl (ValueError ''signal'')),
     cd_order = (\<lambda>v. Inl (ValueError ''order''))\<rparr>"

definition demo_ingestor :: ingestor where
  "demo_ingestor = \<lparr>in_terminal = \<lparr>tm_present = True, tm_settings = default_settings, tm_codec = plain_codec\<rparr>,
     in_timeframes = [''M1''], in_history_bars = 300\<rparr>"

definition start_data_world :: data_world where
  "start_data_world = \<lparr>log = [], ctx = None, conn = True, mt_connected = False, da_seen = [], da_cycles = 0,
     da_bars_written = 0, da_events_published = 0, da_last_bar = None, da_errors = 0\<rparr>"

lemma demo_window: "window \<lparr>reply = quiet_market\<rparr> demo_ingestor symb ''M1'' l =
   Some (map (\<lambda>t. \<lparr>b_ts = t * 1000000, b_open = 1, b_high = 1, b_low = 1, b_close = 1, b_volume = 7\<rparr>) [60, 120, 180])"
  by (simp add: window_def timeframe_map_def quiet_market_def rate_at_def to_utc_bar_def rate_time_def rate_float_def
      getitem_def from_timestamp_def)

lemma demo_steady: "steady_terminal \<lparr>reply = quiet_market\<rparr> demo_ingestor symb ''M1''"
  by (simp add: steady_terminal_def demo_window)

lemma quiet_market_replies [simp]:
  "quiet_market l (Mt5Call n ps) =
     (if n = ''initialize'' then AJson (JBool True) else AJson (JArr (map rate_at [60, 120, 180, 240])))"
  "quiet_market l (SqlRun n ps) = (if n = ''closed'' then AInt 0 else AUnit)"
  "quiet_market l (SleepFor d) = AUnit" "quiet_market l (XAdd s fs) = AUnit"
  "quiet_market l NewId = AText (T ''c3'')"
  by (simp_all add: quiet_market_def)

lemma demo_rate: "to_utc_bar cd (rate_at t) = (if - 62135596800 \<le> t \<and> t \<le> 253402300799
   then Inr \<lparr>b_ts = t * 1000000, b_open = 1, b_high = 1, b_low = 1, b_close = 1, b_volume = 7\<rparr>
   else Inl (ValueError ''year is out of range''))"
  by (simp add: rate_at_def to_utc_bar_def rate_time_def rate_float_def getitem_def from_timestamp_def)

lemma demo_first_round:
  "\<exists>w'. ingest_round \<lparr>reply = quiet_market\<rparr> demo_ingestor start_data_world = (Inr (), w') \<and> conn w' \<and> mt_connected w' \<and>
     dget (da_seen w') ''M1'' = Some 180000000 \<and> announced ''M1'' (log w') = [60000000, 120000000, 180000000]"
  by (simp add: ingest_round_def ingest_cycle_def Let_def in_settings_def demo_ingestor_def start_data_world_def
      bnd_def attempt_def terminal_connect_def require_mt5_def eval_nat_numeral terminal_login_def wants_login_def
      default_settings_def initialize_args_def call_run ingest_timeframe_def copy_bars_def timeframe_map_def
      copy_rates_def demo_rate filter_new_def fresh_bars_def upsert_bars_def db_ensure_def db_unusable_def
      bar_rows_def publish_bars_def stream_fields_def new_correlation_id_def bar_payload_def pipeline_execute_def
      ask_def ohlcv_stream_def)

lemma demo_later_round:
  assumes "conn w" "mt_connected w" "dget (da_seen w) ''M1'' = Some 180000000"
  shows "\<exists>w' :: data_world. ingest_round \<lparr>reply = quiet_market\<rparr> demo_ingestor w = (Inr (), w') \<and> announced ''M1'' (log w') = announced ''M1'' (log w)"
  using assms
  by (simp add: ingest_round_def ingest_cycle_def Let_def in_settings_def demo_ingestor_def
      bnd_def attempt_def require_mt5_def call_run ingest_timeframe_def copy_bars_def timeframe_map_def
      copy_rates_def demo_rate filter_new_def fresh_bars_def)

theorem bars_announced_once_witness:
  "\<exists>w'. ingest_rounds \<lparr>reply = quiet_market\<rparr> demo_ingestor 2 start_data_world = (Inr (), w') \<and>
     announced ''M1'' (log w') = [60000000, 120000000, 180000000] \<and> sorted_wrt (<) (announced ''M1'' (log w'))"
proof -
  obtain v where v: "ingest_round \<lparr>reply = quiet_market\<rparr> demo_ingestor start_data_world = (Inr (), v)" "conn v"
    "mt_connected v" "dget (da_seen v) ''M1'' = Some 180000000" "announced ''M1'' (log v) = [60000000, 120000000, 180000000]"
    using demo_first_round by blast
  obtain w' :: data_world where "ingest_round \<lparr>reply = quiet_market\<rparr> demo_ingestor v = (Inr (), w')"
    "announced ''M1'' (log w') = announced ''M1'' (log v)"
    using demo_later_round [OF v(2-4)] by blast
  then have w': "ingest_rounds \<lparr>reply = quiet_market\<rparr> demo_ingestor 2 start_data_world = (Inr (), w')"
    "announced ''M1'' (log w') = [60000000, 120000000, 180000000]"
    using v by (simp_all add: eval_nat_numeral bnd_def)
  have "log start_data_world = []" "da_seen start_data_world = []" by (simp_all add: start_data_world_def)
  from bars_announced_once [OF this demo_steady w'(1)] w' show ?thesis by blast
qed

subsection \<open>A backfill reaches the cutoff\<close>

definition inserted_rows :: "ecall list \<Rightarrow> json list" where
  "inserted_rows l = concat (map (\<lambda>c. case c of SqlRun n ps \<Rightarrow> if n = ''insert_ohlcv'' then ps else [] | _ \<Rightarrow> []) l)"

lemma inserted_rows_simps [simp]: "inserted_rows [] = []" "inserted_rows (l @ m) = inserted_rows l @ inserted_rows m"
  "inserted_rows [bar_rows symb tf bs] = map (\<lambda>b. JArr (bar_row symb tf b)) bs"
  "inserted_rows (Mt5Call nm args # l) = inserted_rows l"
  by (simp_all add: inserted_rows_def bar_rows_def)

definition page_of :: "'a list \<Rightarrow> nat \<Rightarrow> nat \<Rightarrow> 'a list" where
  \<comment> \<open>positions \<open>p\<close> to \<open>p + n - 1\<close>, counted from the newest\<close>
  "page_of H p n = drop (length H - p - n) (take (length H - p) H)"

definition serves_history :: "env \<Rightarrow> string \<Rightarrow> int \<Rightarrow> json list \<Rightarrow> bool" where
  \<comment> \<open>the terminal answers with pages of one history; \<open>None\<close> where it has no bars\<close>
  "serves_history ev symb c H \<longleftrightarrow> (\<forall>l p n.
     ans_rates (reply ev l (Mt5Call ''copy_rates_from_pos'' [JStr (T symb), JInt c, JInt (int p), JInt (int n)])) \<in>
       {Inr (Some (page_of H p n))} \<union> (if page_of H p n = [] then {Inr None} else {}))"

definition database_up :: "env \<Rightarrow> bool" where
  "database_up ev \<longleftrightarrow> (\<forall>l n ps. ans_unit (reply ev l (SqlRun n ps)) = Inr ())"

lemma drop_take_split: "i \<le> j \<Longrightarrow> j \<le> m \<Longrightarrow> drop i (take m xs) = drop i (take j xs) @ drop j (take m xs)"
proof -
  assume a: "i \<le> j" "j \<le> m"
  then have "take (m - i) (drop i xs) = take (j - i) (drop i xs) @ take (m - j) (drop (j - i) (drop i xs))"
    using take_add [of "j - i" "m - j" "drop i xs"] by simp
  then show ?thesis using a by (simp add: drop_take)
qed

lemma serves_page:
  assumes "serves_history ev symb c H"
  shows "ans_rates (reply ev l (Mt5Call ''copy_rates_from_pos'' [JStr (T symb), JInt c, JInt (int p), JInt (int n)])) =
      Inr (Some (page_of H p n)) \<or> page_of H p n = [] \<and>
    ans_rates (reply ev l (Mt5Call ''copy_rates_from_pos'' [JStr (T symb), JInt c, JInt (int p), JInt (int n)])) = Inr None"
  using assms [unfolded serves_history_def, rule_format, of l p n] by (auto split: if_splits)

lemma res_map_take: "res_map f xs = Inr ys \<Longrightarrow> res_map f (take n xs) = Inr (take n ys)"
  by (induction xs arbitrary: ys n) (auto simp: res_bind_Inr_iff take_Cons split: nat.splits)

lemma res_map_drop: "res_map f xs = Inr ys \<Longrightarrow> res_map f (drop n xs) = Inr (drop n ys)"
  by (induction xs arbitrary: ys n) (auto simp: res_bind_Inr_iff drop_Cons split: nat.splits)

lemma page_bars: "res_map f H = Inr bars \<Longrightarrow> res_map f (page_of H p n) = Inr (page_of bars p n)"
  using res_map_Inr_length [of f H bars] by (simp add: page_of_def res_map_take res_map_drop)

lemma to_utc_bar_time: "to_utc_bar cd row = Inr b \<Longrightarrow> rate_time cd row = Inr (b_ts b)"
  by (auto simp: to_utc_bar_def res_bind_Inr_iff)

lemma ensure_returns:
  assumes "database_up ev"
  shows "\<exists>w' m. db_ensure ev w = (Inr (), w') \<and> log w' = log w @ m \<and> inserted_rows m = []"
proof -
  have "\<And>l. ans_unit (reply ev l (SqlRun ''connect'' [])) = Inr ()" using assms by (simp add: database_up_def)
  then obtain w' m where "db_ensure ev w = (Inr (), w')" "log w' = log w @ m"
    "set m \<subseteq> {SqlRun ''closed'' [], SqlRun ''connect'' []}" by (rule db_ensure_succeeds)
  moreover from this(3) have "inserted_rows m = []" by (induction m) (auto simp: inserted_rows_def)
  ultimately show ?thesis by blast
qed

lemma upsert_returns:
  assumes "database_up ev" "bars \<noteq> []"
  shows "\<exists>w' m. upsert_bars ev symb tf bars w = (Inr (length bars), w') \<and> log w' = log w @ m \<and>
    inserted_rows m = map (\<lambda>b. JArr (bar_row symb tf b)) bars"
proof -
  obtain v m where v: "db_ensure ev w = (Inr (), v)" "log v = log w @ m" "inserted_rows m = []"
    using ensure_returns [OF assms(1)] by blast
  have "ans_unit (reply ev (log v) (bar_rows symb tf bars)) = Inr ()"
    using assms(1) by (simp add: database_up_def bar_rows_def)
  then show ?thesis
    using v assms(2) by (intro exI [of _ "v\<lparr>log := log v @ [bar_rows symb tf bars]\<rparr>"] exI [of _ "m @ [bar_rows symb tf bars]"])
      (simp add: upsert_bars_def bnd_def call_run)
qed

lemma backfill_chunk_returns:
  assumes "database_up ev" "rows_to_bars cd chunk = Inr bars" "bars \<noteq> []"
  shows "\<exists>w' m. backfill_chunk ev cd symb tf chunk stored w = (Inr (stored + length bars), w') \<and> log w' = log w @ m \<and>
    inserted_rows m = map (\<lambda>b. JArr (bar_row symb tf b)) bars"
  using upsert_returns [OF assms(1,3), of symb tf w] assms(2,3) by (auto simp: backfill_chunk_def bnd_def)

lemma page_read:
  fixes w :: "'x data_world_scheme"
  assumes "serves_history ev symb c H" "database_up ev" "rows_to_bars cd H = Inr bars" "0 < n" "p < length H"
  obtains u mu where "log u = log w @ Mt5Call ''copy_rates_from_pos'' [JStr (T symb), JInt c, JInt (int p), JInt (int n)] # mu"
    "inserted_rows mu = map (\<lambda>b. JArr (bar_row symb tf b)) (page_of bars p n)"
    "history_pages ev cd symb c cutoff (int n) (backfill_chunk ev cd symb tf) (Suc fuel) (int p) stored w =
       (if b_ts (bars ! (length H - p - n)) \<le> cutoff \<or> length H - p < n
        then (Inr (stored + min (length H - p) n), u)
        else history_pages ev cd symb c cutoff (int n) (backfill_chunk ev cd symb tf) fuel (int (p + n)) (stored + n) u)"
proof -
  have lb: "length bars = length H" using res_map_Inr_length assms(3) by (simp add: rows_to_bars_def)
  let ?page = "page_of H p n" and ?m = "length H - p"
  let ?q = "Mt5Call ''copy_rates_from_pos'' [JStr (T symb), JInt c, JInt (int p), JInt (int n)]"
  let ?v = "w\<lparr>log := log w @ [?q]\<rparr>"
  have len: "length ?page = min ?m n" by (simp add: page_of_def)
  have pb: "rows_to_bars cd ?page = Inr (page_of bars p n)" using page_bars assms(3) by (simp add: rows_to_bars_def)
  have ne: "?page \<noteq> []" using assms(4,5) len by auto
  then obtain r rs where page: "?page = r # rs" by (cases ?page) auto
  have rd: "ans_rates (reply ev (log w) ?q) = Inr (Some (r # rs))"
    using serves_page [OF assms(1), of "log w" p n] ne page by simp
  have bne: "page_of bars p n \<noteq> []" and lbars: "length (page_of bars p n) = min ?m n"
    using ne len lb by (auto simp: page_of_def)
  obtain u mu where u: "backfill_chunk ev cd symb tf (r # rs) stored ?v = (Inr (stored + min ?m n), u)" "log u = log ?v @ mu"
    "inserted_rows mu = map (\<lambda>b. JArr (bar_row symb tf b)) (page_of bars p n)"
    using backfill_chunk_returns [OF assms(2) pb bne, of symb tf stored ?v] page lbars by auto
  have first: "hd (page_of bars p n) = bars ! (?m - n)"
    using lb assms(4,5) by (simp add: page_of_def hd_drop_conv_nth)
  have "to_utc_bar cd (?page ! 0) = Inr (page_of bars p n ! 0)"
    using pb ne unfolding rows_to_bars_def by (intro res_map_Inr_nth) auto
  then have oldest: "rate_time cd r = Inr (b_ts (bars ! (?m - n)))"
    using to_utc_bar_time page first hd_conv_nth [OF bne] by fastforce
  have short: "int (length (r # rs)) < int n \<longleftrightarrow> ?m < n" using len unfolding page [symmetric] by auto
  have next_page: "int p + int (length (r # rs)) = int (p + n)" "min ?m n = n" if "\<not> ?m < n"
    using len that unfolding page [symmetric] by simp_all
  have "history_pages ev cd symb c cutoff (int n) (backfill_chunk ev cd symb tf) (Suc fuel) (int p) stored w =
       (if b_ts (bars ! (?m - n)) \<le> cutoff \<or> ?m < n then (Inr (stored + min ?m n), u)
        else history_pages ev cd symb c cutoff (int n) (backfill_chunk ev cd symb tf) fuel (int (p + n)) (stored + n) u)"
    using rd u(1) oldest short next_page by (auto simp: copy_rates_def bnd_def call_run)
  then show ?thesis using that [of u mu] u(2,3) by simp
qed

definition stores_newest :: "string \<Rightarrow> string \<Rightarrow> int \<Rightarrow> bar list \<Rightarrow> nat \<Rightarrow> nat \<Rightarrow> ecall list \<Rightarrow> bool" where
  \<comment> \<open>of the oldest \<open>r\<close> bars the calls insert the newest \<open>k\<close>, once each, and none is left after the cutoff\<close>
  "stores_newest symb tf cutoff bars r k l \<longleftrightarrow> k \<le> r \<and> length (inserted_rows l) = k \<and>
     set (inserted_rows l) = (\<lambda>b. JArr (bar_row symb tf b)) ` set (drop (r - k) (take r bars)) \<and>
     (\<forall>i < r - k. b_ts (bars ! i) \<le> cutoff)"

lemma stores_nothing: "inserted_rows l = [] \<Longrightarrow> stores_newest symb tf cutoff bars 0 0 l"
  by (simp add: stores_newest_def)

lemma stores_last_page:
  assumes "sorted_wrt (\<le>) (map b_ts bars)" "r \<le> length bars" "0 < n" "0 < r"
    and "b_ts (bars ! (r - n)) \<le> cutoff \<or> r < n"
    and "inserted_rows l = map (\<lambda>b. JArr (bar_row symb tf b)) (drop (r - n) (take r bars))"
  shows "stores_newest symb tf cutoff bars r (min r n) l"
proof -
  have "b_ts (bars ! i) \<le> cutoff" if i: "i < r - n" for i
  proof -
    have "r - n < length bars" using assms(2-4) by linarith
    then have "b_ts (bars ! i) \<le> b_ts (bars ! (r - n))"
      using assms(1) i by (simp add: sorted_wrt_iff_nth_less)
    then show ?thesis using assms(5) i by linarith
  qed
  moreover have "r - min r n = r - n" "length (drop (r - n) (take r bars)) = min r n" using assms(2) by auto
  ultimately show ?thesis using assms(6) by (simp add: stores_newest_def)
qed

lemma stores_page_and_rest:
  assumes "r \<le> length bars" "n \<le> r" "stores_newest symb tf cutoff bars (r - n) k rest"
    and "inserted_rows l = map (\<lambda>b. JArr (bar_row symb tf b)) (drop (r - n) (take r bars))"
  shows "stores_newest symb tf cutoff bars r (n + k) (l @ rest)"
proof -
  have k: "k \<le> r - n" using assms(3) by (simp add: stores_newest_def)
  have "drop (r - (n + k)) (take r bars) = drop (r - n - k) (take (r - n) bars) @ drop (r - n) (take r bars)"
    using drop_take_split [of "r - n - k" "r - n" r bars] k by simp
  then show ?thesis using assms k by (auto simp: stores_newest_def)
qed

lemma past_the_end:
  assumes "serves_history ev symb c H" "length H \<le> p"
  shows "history_pages ev cd symb c cutoff (int n) handle (Suc fuel) (int p) acc w =
    (Inr acc, w\<lparr>log := log w @ [Mt5Call ''copy_rates_from_pos'' [JStr (T symb), JInt c, JInt (int p), JInt (int n)]]\<rparr>)"
proof -
  have "page_of H p n = []" using assms(2) by (simp add: page_of_def)
  then show ?thesis
    using serves_page [OF assms(1), of "log w" p n] by (auto simp: copy_rates_def bnd_def call_run)
qed

lemma history_pages_cover:
  fixes w :: "'x data_world_scheme"
  assumes "serves_history ev symb c H" "database_up ev" "rows_to_bars cd H = Inr bars"
    and "sorted_wrt (\<le>) (map b_ts bars)" "0 < n"
  shows "p \<le> length H \<Longrightarrow> length H - p < fuel \<Longrightarrow>
    \<exists>k w' m. history_pages ev cd symb c cutoff (int n) (backfill_chunk ev cd symb tf) fuel (int p) stored w = (Inr (stored + k), w') \<and>
      log w' = log w @ m \<and> stores_newest symb tf cutoff bars (length H - p) k m"
proof (induction fuel arbitrary: p stored w)
  case (Suc fuel)
  have lb: "length bars = length H" using res_map_Inr_length assms(3) by (simp add: rows_to_bars_def)
  let ?m = "length H - p"
  let ?q = "Mt5Call ''copy_rates_from_pos'' [JStr (T symb), JInt c, JInt (int p), JInt (int n)]"
  show ?case
  proof (cases "p < length H")
    case False
    then have "history_pages ev cd symb c cutoff (int n) (backfill_chunk ev cd symb tf) (Suc fuel) (int p) stored w =
        (Inr (stored + 0), w\<lparr>log := log w @ [?q]\<rparr>)"
      using past_the_end [OF assms(1), of p cd cutoff n] by simp
    moreover have "stores_newest symb tf cutoff bars ?m 0 [?q]" using False by (simp add: stores_nothing)
    ultimately show ?thesis by fastforce
  next
    case True
    obtain u mu where u: "log u = log w @ ?q # mu"
      "inserted_rows mu = map (\<lambda>b. JArr (bar_row symb tf b)) (page_of bars p n)"
      and run: "history_pages ev cd symb c cutoff (int n) (backfill_chunk ev cd symb tf) (Suc fuel) (int p) stored w =
       (if b_ts (bars ! (?m - n)) \<le> cutoff \<or> ?m < n then (Inr (stored + min ?m n), u)
        else history_pages ev cd symb c cutoff (int n) (backfill_chunk ev cd symb tf) fuel (int (p + n)) (stored + n) u)"
      by (rule page_read [OF assms(1-3,5) True])
    have ins: "inserted_rows (?q # mu) = map (\<lambda>b. JArr (bar_row symb tf b)) (drop (?m - n) (take ?m bars))"
      using u(2) lb by (simp add: page_of_def)
    show ?thesis
    proof (cases "b_ts (bars ! (?m - n)) \<le> cutoff \<or> ?m < n")
      case stop: True
      have "stores_newest symb tf cutoff bars ?m (min ?m n) (?q # mu)"
        using stores_last_page [OF assms(4) _ assms(5) _ stop ins] lb True by simp
      then show ?thesis unfolding run if_P [OF stop] using u(1) by blast
    next
      case again: False
      then have full: "n \<le> ?m" by simp
      have "p + n \<le> length H" "length H - (p + n) < fuel" using full True Suc.prems assms(5) by linarith+
      from Suc.IH [OF this, of "stored + n" u] obtain k w' m where
        ih: "history_pages ev cd symb c cutoff (int n) (backfill_chunk ev cd symb tf) fuel (int (p + n)) (stored + n) u = (Inr (stored + n + k), w')"
        "log w' = log u @ m" "stores_newest symb tf cutoff bars (?m - n) k m"
        by auto
      have "stores_newest symb tf cutoff bars ?m (n + k) ((?q # mu) @ m)"
        using stores_page_and_rest [OF _ full ih(3) ins] lb by simp
      then show ?thesis unfolding run if_not_P [OF again] ih(1) using u(1) ih(2)
        by (intro exI [of _ "n + k"] exI [of _ w'] exI [of _ "(?q # mu) @ m"]) simp
    qed
  qed
qed simp

text \<open>
  C38. A backfill over a history that does not change meanwhile returns, for every chunk size and
  every number of days: it stores the newest \<open>k\<close> bars and reports \<open>k\<close>, each bar written once, and
  every bar it leaves out is at or before the cutoff. One page more than the history has bars is
  enough fuel.
\<close>

theorem backfill_reaches_cutoff:
  fixes w :: "'x data_world_scheme"
  assumes "tm_present tm" "tf \<in> set backfill_timeframes" "dget timeframe_map tf = Some c"
    and "serves_history ev symb c H" "rows_to_bars (tm_codec tm) H = Inr bars" "sorted_wrt (\<le>) (map b_ts bars)"
    and "\<And>l. ans_int (reply ev l ReadClock) = Inr now" "cutoff_of now days = Inr cutoff"
    and "database_up ev" "0 < n" "length H < fuel"
  shows "\<exists>k w'. backfill_timeframe ev tm symb tf days (int n) fuel w = (Inr k, w') \<and> k \<le> length H \<and>
    length (inserted_rows (new_calls w w')) = k \<and>
    set (inserted_rows (new_calls w w')) = (\<lambda>b. JArr (bar_row symb tf b)) ` set (drop (length H - k) bars) \<and>
    (\<forall>i < length H - k. b_ts (bars ! i) \<le> cutoff)"
proof -
  have lb: "length bars = length H" using res_map_Inr_length assms(5) by (simp add: rows_to_bars_def)
  let ?w = "w\<lparr>log := log w @ [ReadClock]\<rparr>"
  obtain k v m where p: "history_pages ev (tm_codec tm) symb c cutoff (int n) (backfill_chunk ev (tm_codec tm) symb tf) fuel 0 0 ?w = (Inr k, v)"
    "k \<le> length H" "log v = log ?w @ m" "length (inserted_rows m) = k"
    "set (inserted_rows m) = (\<lambda>b. JArr (bar_row symb tf b)) ` set (drop (length H - k) bars)"
    "\<forall>i < length H - k. b_ts (bars ! i) \<le> cutoff"
    using history_pages_cover [OF assms(4,9,5,6,10), of 0 fuel cutoff tf 0 ?w] assms(11) lb
    by (auto simp: stores_newest_def)
  let ?a = "da_audit ev ''data-service'' ''backfill'' (symb @ '':'' @ tf) ''ok'' [(''bars'', JInt (int k)), (''lookback_days'', JInt days)]"
  obtain x a where x: "db_ensure ev v = (Inr (), x)" "log x = log v @ a" "inserted_rows a = []"
    using ensure_returns [OF assms(9)] by blast
  obtain w' b where w': "?a v = (Inr (), w')" "log w' = log v @ b" "inserted_rows b = []"
    using x assms(9) by (fastforce simp: da_audit_def attempt_def bnd_def call_run database_up_def inserted_rows_def)
  have "backfill_timeframe ev tm symb tf days (int n) fuel w = (Inr k, w')"
    using assms(1-3,7,8) p(1) w'(1)
    by (simp add: backfill_timeframe_def for_history_chunks_def require_mt5_def bnd_def call_run getitem_def)
  moreover have "inserted_rows (new_calls w w') = inserted_rows m"
    using p(3) w' by (simp add: new_calls_def) (simp add: inserted_rows_def)
  ultimately show ?thesis using p by auto
qed

definition demo_history :: "json list" where
  "demo_history = map rate_at [20, 60, 120, 180]"

definition history_env :: env where
  "history_env = \<lparr>reply = (\<lambda>l c. case c of
       Mt5Call n ps \<Rightarrow> (case ps of [s, t, JInt p, JInt k] \<Rightarrow> AJson (JArr (page_of demo_history (nat p) (nat k))) | _ \<Rightarrow> ANone)
     | ReadClock \<Rightarrow> AInt 86500000000 | _ \<Rightarrow> AUnit)\<rparr>"

theorem backfill_reaches_cutoff_witness:
  "\<exists>k w'. backfill_timeframe history_env (in_terminal demo_ingestor) ''R_75'' ''M1'' 1 2 5 start_data_world = (Inr k, w') \<and>
     k \<le> 4 \<and> length (inserted_rows (new_calls start_data_world w')) = k"
proof -
  let ?bars = "map (\<lambda>t. \<lparr>b_ts = t * 1000000, b_open = 1, b_high = 1, b_low = 1, b_close = 1, b_volume = 7\<rparr>) [20, 60, 120, 180]"
  have h: "serves_history history_env ''R_75'' 1 demo_history"
    by (simp add: serves_history_def history_env_def)
  have b: "rows_to_bars (tm_codec (in_terminal demo_ingestor)) demo_history = Inr ?bars"
    by (simp add: rows_to_bars_def demo_history_def demo_rate)
  have s: "sorted_wrt (\<le>) (map b_ts ?bars)" by simp
  have c: "ans_int (reply history_env l ReadClock) = Inr 86500000000" for l by (simp add: history_env_def)
  have q: "cutoff_of 86500000000 1 = Inr 100000000" by (simp add: cutoff_of_def)
  have d: "database_up history_env" by (simp add: database_up_def history_env_def)
  have l: "length demo_history = 4" by (simp add: demo_history_def)
  have t: "tm_present (in_terminal demo_ingestor)" "''M1'' \<in> set backfill_timeframes" "dget timeframe_map ''M1'' = Some 1"
    by (simp_all add: demo_ingestor_def backfill_timeframes_def ingest_timeframes_def timeframe_map_def)
  show ?thesis
    using backfill_reaches_cutoff [OF t h b s c q d, of 2 5 start_data_world] by (auto simp: l)
qed

text \<open>
  The page at position 0 ends with the bar still forming, which \<open>copy_bars\<close> drops and the
  backfill stores; the insert does nothing on a present key, so the row keeps its early values.
\<close>

lemma first_page_has_forming_bar: "0 < n \<Longrightarrow> H \<noteq> [] \<Longrightarrow> page_of H 0 n \<noteq> [] \<and> last (page_of H 0 n) = last H"
  by (cases H) (auto simp: page_of_def not_le Suc_diff_le diff_less_Suc)

end
