(* ===== verification/Indicators.thy ===== *)
theory Indicators
  imports Schemas
begin

text \<open>
  \<open>vix_core/indicators.py\<close> on lists of doubles. Elementwise numpy arithmetic, comparison,
  \<open>where\<close>, slicing and broadcasting are written out; the reductions whose rounding order is
  internal to numpy (\<open>mean\<close>, \<open>std\<close>), the logarithm, the convolution and scipy's
  \<open>find_peaks\<close> are the fields of a record of library functions, which every definition that
  uses them takes as an argument.
\<close>

record numlib =
  lib_mean :: "f64 list \<Rightarrow> f64"
  lib_std :: "nat \<Rightarrow> f64 list \<Rightarrow> f64"           \<comment> \<open>\<open>std(axis=1, ddof=n)\<close>\<close>
  lib_log :: "f64 \<Rightarrow> f64"
  lib_convolve_same :: "f64 list \<Rightarrow> f64 list \<Rightarrow> f64 list"
  lib_find_peaks :: "int \<Rightarrow> f64 list \<Rightarrow> nat list"  \<comment> \<open>\<open>find_peaks(x, distance=n)[0]\<close>\<close>

subsection \<open>Array helpers\<close>

definition np_bin :: "('a \<Rightarrow> 'b \<Rightarrow> 'c) \<Rightarrow> 'a list \<Rightarrow> 'b list \<Rightarrow> 'c list res" where
  \<comment> \<open>a binary operation with numpy's broadcasting of length-1 arrays\<close>
  "np_bin f a b =
     (if length a = length b then Inr (map2 f a b)
      else if length a = 1 then Inr (map (f (hd a)) b)
      else if length b = 1 then Inr (map (\<lambda>x. f x (hd b)) a)
      else Inl (ValueError ''operands could not be broadcast together''))"

definition nans :: "nat \<Rightarrow> f64 list" where
  "nans n = replicate n NaN"

definition windows :: "nat \<Rightarrow> 'a list \<Rightarrow> 'a list list" where
  \<comment> \<open>\<open>sliding_window_view(xs, p)\<close>\<close>
  "windows p xs = map (\<lambda>i. take p (drop i xs)) [0..<length xs + 1 - p]"

fun np_max :: "f64 list \<Rightarrow> f64" where
  "np_max [] = NaN"
| "np_max [x] = x"
| "np_max (x # xs) = np_maximum x (np_max xs)"

fun np_min :: "f64 list \<Rightarrow> f64" where
  "np_min [] = NaN"
| "np_min [x] = x"
| "np_min (x # xs) = np_minimum x (np_min xs)"

definition shifted :: "'a list \<Rightarrow> 'a list" where
  \<comment> \<open>\<open>concatenate(([xs[0]], xs[:-1]))\<close>\<close>
  "shifted xs = (case xs of [] \<Rightarrow> [] | x # _ \<Rightarrow> x # butlast xs)"

subsection \<open>Indicators\<close>

definition true_range :: "f64 list \<Rightarrow> f64 list \<Rightarrow> f64 list \<Rightarrow> f64 list res" where
  "true_range high low close =
     (if length close \<noteq> length high then Inl (ValueError ''close shape must match high/low'')
      else if high = [] then Inr []
      else
        res_bind (np_bin (-) high low) (\<lambda>a.
        res_bind (np_bin (\<lambda>x y. \<bar>x - y\<bar>) high (shifted close)) (\<lambda>b.
        res_bind (np_bin (\<lambda>x y. \<bar>x - y\<bar>) low (shifted close)) (\<lambda>c.
          if length a = length b \<and> length b = length c
          then Inr ((hd high - hd low) # tl (map2 np_maximum (map2 np_maximum a b) c))
          else Inl (ValueError ''all input arrays must have the same shape'')))))"

fun ema_loop :: "f64 \<Rightarrow> f64 \<Rightarrow> f64 \<Rightarrow> f64 list \<Rightarrow> f64 list" where
  "ema_loop alpha decay acc [] = []"
| "ema_loop alpha decay acc (v # vs) =
     (let acc' = v * alpha + decay * acc in acc' # ema_loop alpha decay acc' vs)"

definition ema :: "f64 list \<Rightarrow> int \<Rightarrow> f64 list res" where
  "ema values period =
     (if period < 1 then Inl (ValueError ''period must be >= 1'')
      else case values of
        [] \<Rightarrow> Inr []
      | v # vs \<Rightarrow>
          res_bind (float_of_int period) (\<lambda>p.
            let alpha = mk 2 / (p + 1); decay = 1 - alpha
            in Inr (v # ema_loop alpha decay v vs)))"

definition wilder_smooth :: "f64 list \<Rightarrow> int \<Rightarrow> f64 list res" where
  "wilder_smooth values period = ema values (2 * period - 1)"

definition atr :: "f64 list \<Rightarrow> f64 list \<Rightarrow> f64 list \<Rightarrow> int \<Rightarrow> f64 list res" where
  "atr high low close period =
     (if high = [] then Inr []
      else res_bind (true_range high low close) (\<lambda>tr.
           res_bind (wilder_smooth tr period) (\<lambda>smooth. Inr (smooth[0 := NaN]))))"

definition rsi_value :: "f64 \<Rightarrow> f64 \<Rightarrow> f64" where
  "rsi_value avg_gain avg_loss =
     (if feq avg_loss 0 then mk 100
      else mk 100 - mk 100 / (1 + avg_gain / avg_loss))"

definition rsi :: "f64 list \<Rightarrow> int \<Rightarrow> f64 list res" where
  "rsi close period =
     (if int (length close) \<le> period then Inr (nans (length close))
      else if close = [] then Inl IndexError
      else
        let delta = map2 (-) close (shifted close);
            gain = map (\<lambda>d. if 0 < d then d else 0) delta;
            loss = map (\<lambda>d. if d < 0 then - d else 0) delta
        in res_bind (wilder_smooth gain period) (\<lambda>avg_gain.
           res_bind (wilder_smooth loss period) (\<lambda>avg_loss.
             Inr (nans (nat period) @ drop (nat period) (map2 rsi_value avg_gain avg_loss)))))"

definition bollinger_bands ::
  "numlib \<Rightarrow> f64 list \<Rightarrow> nat \<Rightarrow> f64 \<Rightarrow> (f64 list \<times> f64 list \<times> f64 list) res" where
  "bollinger_bands lib close period num_std =
     (let n = length close in
      if n < period \<or> n = 0 then Inr (nans n, nans n, nans n)
      else if period = 0 then Inl (ValueError ''could not broadcast input array'')
      else
        let means = map (lib_mean lib) (windows period close);
            stds = map (lib_std lib 0) (windows period close);
            pad = nans (period - 1)
        in Inr (pad @ means, pad @ map2 (\<lambda>m s. m + num_std * s) means stds,
                pad @ map2 (\<lambda>m s. m - num_std * s) means stds))"

definition log_returns :: "numlib \<Rightarrow> f64 list \<Rightarrow> f64 list" where
  "log_returns lib close =
     (if close = [] then []
      else (map2 (\<lambda>c s. lib_log lib (if 0 < s then c / s else 1)) close (shifted close))[0 := 0])"

definition realized_volatility :: "numlib \<Rightarrow> f64 list \<Rightarrow> nat \<Rightarrow> f64 list res" where
  "realized_volatility lib returns window =
     (let n = length returns in
      if n < window \<or> n = 0 then Inr (nans n)
      else if window = 0 then Inl (ValueError ''could not broadcast input array'')
      else Inr (nans (window - 1) @ map (lib_std lib 1) (windows window returns)))"

definition stoch_value :: "f64 \<Rightarrow> f64 \<Rightarrow> f64 \<Rightarrow> f64" where
  "stoch_value denom c lowest =
     (if 0 < denom then mk 100 * (c - lowest) / denom else mk 50)"

definition stochastic ::
  "numlib \<Rightarrow> f64 list \<Rightarrow> f64 list \<Rightarrow> f64 list \<Rightarrow> nat \<Rightarrow> nat \<Rightarrow> (f64 list \<times> f64 list) res" where
  "stochastic lib high low close k_period d_period =
     (let n = length high in
      if length close \<noteq> n then Inl (ValueError ''close shape must match high/low'')
      else if n < k_period then Inr (nans n, nans n)
      else if k_period = 0 then Inl (ValueError ''zero-size array to reduction operation'')
      else if length low < k_period
      then Inl (ValueError ''window shape cannot be larger than input array shape'')
      else
        let highest = map np_max (windows k_period high);
            lowest = map np_min (windows k_period low);
            tail = drop (k_period - 1) close
        in res_bind (np_bin (-) highest lowest) (\<lambda>denom.
           res_bind (np_bin (-) tail lowest) (\<lambda>num.
           res_bind (np_bin (\<lambda>x d. if 0 < d then mk 100 * x / d else mk 50) num denom) (\<lambda>raw.
             if length raw \<noteq> n + 1 - k_period then Inl (ValueError ''could not broadcast input array'')
             else if d_period = 0 \<and> k_period = 1
             then Inl (ValueError ''could not broadcast input array'')
             else Inr (nans (k_period - 1) @ raw,
               if d_period = 0 \<or> length raw < d_period then nans n
               else nans (k_period + d_period - 2) @ map (lib_mean lib) (windows d_period raw))))))"

subsection \<open>Lengths\<close>

lemma length_windows [simp]: "length (windows p xs) = length xs + 1 - p"
  by (simp add: windows_def)

lemma length_nans [simp]: "length (nans n) = n"
  by (simp add: nans_def)

lemma length_shifted [simp]: "length (shifted xs) = length xs"
  by (cases xs) (simp_all add: shifted_def)

lemma length_ema_loop [simp]: "length (ema_loop a d acc xs) = length xs"
  by (induction xs arbitrary: acc) (simp_all add: Let_def)

lemma length_ema: "ema xs p = Inr ys \<Longrightarrow> length ys = length xs"
  by (auto simp: ema_def res_bind_Inr_iff Let_def split: if_splits list.splits)

lemma length_np_bin: "length a = length b \<Longrightarrow> np_bin f a b = Inr (map2 f a b)"
  by (simp add: np_bin_def)

lemma length_true_range:
  "true_range high low close = Inr tr \<Longrightarrow> length low = length high \<Longrightarrow> length tr = length high"
  by (auto simp: true_range_def length_np_bin split: if_splits)

subsection \<open>No look-ahead\<close>

lemma take_ema_loop: "ema_loop a d acc (take k xs) = take k (ema_loop a d acc xs)"
  by (induction xs arbitrary: acc k) (auto simp: Let_def take_Cons split: nat.splits)

lemma take_ema: "ema xs p = Inr ys \<Longrightarrow> ema (take k xs) p = Inr (take k ys)"
  by (cases xs; cases k)
    (auto simp: ema_def res_bind_Inr_iff Let_def take_ema_loop split: if_splits)

lemma nth_shifted: "i < length xs \<Longrightarrow> shifted xs ! i = xs ! (i - 1)"
  by (cases xs) (auto simp: shifted_def nth_butlast nth_Cons split: nat.splits)

lemma take_shifted: "shifted (take k xs) = take k (shifted xs)"
  by (rule nth_equalityI) (auto simp: nth_shifted)

lemma take_map2: "map2 f (take k xs) (take k ys) = take k (map2 f xs ys)"
  by (simp add: take_map take_zip)

lemma tl_take_Suc: "tl (take (Suc j) xs) = take j (tl xs)"
  by (cases xs) simp_all

lemma take_true_range:
  assumes "length low = length high" "true_range high low close = Inr tr"
  shows "true_range (take k high) (take k low) (take k close) = Inr (take k tr)"
proof (cases "k = 0 \<or> high = []")
  case True
  with assms show ?thesis by (auto simp: true_range_def split: if_splits)
next
  case False
  then obtain j where k: "k = Suc j" by (cases k) auto
  from assms have l: "length close = length high" by (auto simp: true_range_def split: if_splits)
  have "low \<noteq> []" using False assms(1) by auto
  then show ?thesis
    using assms l False k
    by (auto simp: true_range_def length_np_bin take_shifted take_map2 tl_take_Suc)
qed

lemma take_atr:
  assumes "length low = length high" "atr high low close p = Inr r"
  shows "atr (take k high) (take k low) (take k close) p = Inr (take k r)"
proof (cases "k = 0 \<or> high = []")
  case True
  with assms show ?thesis by (auto simp: atr_def)
next
  case False
  then obtain tr sm where t: "true_range high low close = Inr tr" "wilder_smooth tr p = Inr sm"
    "r = sm[0 := NaN]"
    using assms(2) by (auto simp: atr_def res_bind_Inr_iff)
  then show ?thesis
    using False take_true_range [OF assms(1) t(1), of k] take_ema [of tr "2 * p - 1" sm k]
    by (simp add: atr_def wilder_smooth_def take_update_swap)
qed

lemma take_rsi:
  assumes p: "0 < p" and r: "rsi close p = Inr r"
  shows "rsi (take k close) p = Inr (take k r)"
proof (cases "int (length close) \<le> p")
  case True
  with r p show ?thesis by (auto simp: rsi_def nans_def min_def)
next
  case False
  then have ne: "close \<noteq> []" "int (length close) > p" using p by auto
  define delta where "delta = map2 (-) close (shifted close)"
  define gain where "gain = map (\<lambda>d. if 0 < d then d else 0) delta"
  define loss where "loss = map (\<lambda>d. if d < 0 then - d else 0) delta"
  obtain ag al where e: "ema gain (2 * p - 1) = Inr ag" "ema loss (2 * p - 1) = Inr al"
    and res: "r = nans (nat p) @ drop (nat p) (map2 rsi_value ag al)"
    using r ne by (auto simp: rsi_def Let_def res_bind_Inr_iff wilder_smooth_def delta_def
        gain_def loss_def)
  have len: "length ag = length close" "length al = length close"
    using length_ema [OF e(1)] length_ema [OF e(2)] by (simp_all add: gain_def loss_def delta_def)
  show ?thesis
  proof (cases "int k \<le> p")
    case True
    then have "int (length (take k close)) \<le> p" by simp
    then show ?thesis using True ne p by (auto simp: rsi_def res nans_def min_def)
  next
    case False
    with ne p have k: "take k close \<noteq> []" "\<not> int (length (take k close)) \<le> p" by auto
    have d: "map2 (-) (take k close) (shifted (take k close)) = take k delta"
      by (simp add: take_shifted take_map2 delta_def)
    have "nans (nat p) @ drop (nat p) (map2 rsi_value (take k ag) (take k al)) = take k r"
      using False p by (auto simp: res take_map2 nans_def drop_take)
    moreover have "map (\<lambda>d. if 0 < d then d else 0) (take k delta) = take k gain"
      "map (\<lambda>d. if d < 0 then - d else 0) (take k delta) = take k loss"
      by (simp_all add: gain_def loss_def take_map)
    ultimately show ?thesis
      unfolding rsi_def Let_def d wilder_smooth_def
      using k take_ema [OF e(1), of k] take_ema [OF e(2), of k] by simp
  qed
qed

subsection \<open>Ranges\<close>

definition nonneg_or_nan :: "f64 \<Rightarrow> bool" where
  "nonneg_or_nan x \<longleftrightarrow> x = NaN \<or> 0 \<le> x"

lemma nonneg_or_nan_alt: "nonneg_or_nan x \<longleftrightarrow> \<not> x < 0"
  by (cases x) (auto simp: nonneg_or_nan_def)

lemma nonneg_or_nan_add: "nonneg_or_nan a \<Longrightarrow> nonneg_or_nan b \<Longrightarrow> nonneg_or_nan (a + b)"
  using f64_add_nonneg [of a b] by (auto simp: nonneg_or_nan_def)

lemma nonneg_or_nan_mult: "nonneg_or_nan a \<Longrightarrow> nonneg_or_nan b \<Longrightarrow> nonneg_or_nan (a * b)"
  unfolding nonneg_or_nan_alt by (rule f64_not_neg_mult)

lemma nonneg_or_nan_div: "nonneg_or_nan a \<Longrightarrow> nonneg_or_nan b \<Longrightarrow> nonneg_or_nan (a / b)"
  unfolding nonneg_or_nan_alt by (rule f64_not_neg_div)

lemma ema_loop_nonneg:
  "\<forall>v \<in> set vs. nonneg_or_nan v \<Longrightarrow> nonneg_or_nan acc \<Longrightarrow> nonneg_or_nan alpha \<Longrightarrow>
     nonneg_or_nan decay \<Longrightarrow> \<forall>v \<in> set (ema_loop alpha decay acc vs). nonneg_or_nan v"
proof (induction vs arbitrary: acc)
  case (Cons v vs)
  have "nonneg_or_nan (v * alpha + decay * acc)"
    using Cons.prems by (intro nonneg_or_nan_add nonneg_or_nan_mult) simp_all
  then have "\<forall>v \<in> set (ema_loop alpha decay (v * alpha + decay * acc) vs). nonneg_or_nan v"
    using Cons.prems by (intro Cons.IH) simp_all
  then show ?case
    using \<open>nonneg_or_nan (v * alpha + decay * acc)\<close> unfolding ema_loop.simps Let_def by simp
qed simp

lemma ema_coefficients:
  assumes "1 \<le> period" "float_of_int period = Inr p"
  shows "nonneg_or_nan (mk 2 / (p + 1))" "nonneg_or_nan (1 - mk 2 / (p + 1))"
proof -
  have p: "p = mk (of_int period)" "is_fin p"
    using assms(2) by (auto simp: float_of_int_def split: if_splits)
  have "mk 1 \<le> p" unfolding p(1) by (rule mk_mono) (use assms(1) in simp)
  then have p1: "1 \<le> p" using mk_of_int [of 1] by (simp add: one_eq_Fin)
  have two: "mk 2 = Fin 2" using mk_of_int [of 2] by simp
  have "Fin 2 \<le> p + 1"
  proof -
    obtain x where x: "p = Fin x" using p(2) by (cases p) auto
    with p1 have "mk 2 \<le> mk (x + 1)" by (intro mk_mono) (simp add: one_eq_Fin)
    then show ?thesis by (simp add: two x one_eq_Fin)
  qed
  then have "p + 1 = PInf \<or> (\<exists>y. p + 1 = Fin y \<and> 2 \<le> y)" by (cases "p + 1") auto
  moreover have "mk 2 / PInf = Fin 0" by (simp add: two divide_f64_def)
  moreover have "0 \<le> mk (2 / y) \<and> mk (2 / y) \<le> Fin 1" if "2 \<le> y" for y :: rat
    using mk_nonneg [of "2 / y"] mk_mono [of "2 / y" 1] mk_of_int [of 1] that by simp
  ultimately have "0 \<le> mk 2 / (p + 1) \<and> mk 2 / (p + 1) \<le> 1"
    by (auto simp: two one_eq_Fin)
  then show "nonneg_or_nan (mk 2 / (p + 1))" "nonneg_or_nan (1 - mk 2 / (p + 1))"
    using f64_diff_nonneg [of "mk 2 / (p + 1)" 1] by (simp_all add: nonneg_or_nan_def)
qed

lemma ema_nonneg:
  assumes "ema xs period = Inr ys" "\<forall>v \<in> set xs. nonneg_or_nan v"
  shows "\<forall>v \<in> set ys. nonneg_or_nan v"
proof (cases xs)
  case Nil
  with assms show ?thesis by (auto simp: ema_def split: if_splits)
next
  case (Cons v vs)
  with assms(1) obtain p where p: "1 \<le> period" "float_of_int period = Inr p"
    "ys = v # ema_loop (mk 2 / (p + 1)) (1 - mk 2 / (p + 1)) v vs"
    by (auto simp: ema_def res_bind_Inr_iff Let_def split: if_splits)
  have "\<forall>v \<in> set (ema_loop (mk 2 / (p + 1)) (1 - mk 2 / (p + 1)) v vs). nonneg_or_nan v"
    using assms(2) Cons by (intro ema_loop_nonneg ema_coefficients [OF p(1,2)]) simp_all
  then show ?thesis using p(3) assms(2) Cons by simp
qed

lemma rsi_value_range:
  assumes "nonneg_or_nan g" "nonneg_or_nan l"
  shows "rsi_value g l = NaN \<or> 0 \<le> rsi_value g l \<and> rsi_value g l \<le> mk 100"
proof -
  have hundred: "mk 100 = Fin 100" using mk_of_int [of 100] by simp
  have le: "Fin 1 \<le> x \<Longrightarrow> 0 \<le> mk 100 - mk 100 / x \<and> mk 100 - mk 100 / x \<le> mk 100" for x
  proof (cases x)
    case (Fin r)
    assume "Fin 1 \<le> x"
    then have "0 \<le> mk (100 / r)" "mk (100 / r) \<le> mk 100"
      using Fin by (auto intro!: mk_nonneg mk_mono simp: pos_divide_le_eq)
    moreover have "mk 100 / x = mk (100 / r)" using \<open>Fin 1 \<le> x\<close> Fin by (simp add: hundred)
    ultimately show ?thesis
      using f64_diff_nonneg [of "mk (100 / r)" "mk 100"]
        f64_sub_nonneg_le [of "mk 100" "mk (100 / r)", OF _ fok_mk]
      by (simp add: hundred)
  qed (simp_all add: hundred divide_f64_def)
  have "1 + g / l = NaN \<or> Fin 1 \<le> 1 + g / l"
  proof (cases "g / l = NaN")
    case False
    then have "0 \<le> g / l" using nonneg_or_nan_div [OF assms] by (simp add: nonneg_or_nan_def)
    then have "1 \<le> 1 + g / l" by (intro f64_le_add_nonneg) simp_all
    then show ?thesis by (simp add: one_eq_Fin)
  qed simp
  then show ?thesis using le [of "1 + g / l"] by (auto simp: rsi_value_def hundred)
qed

lemma rsi_range:
  assumes "rsi close period = Inr r" "x \<in> set r"
  shows "x = NaN \<or> 0 \<le> x \<and> x \<le> mk 100"
proof (cases "int (length close) \<le> period")
  case True
  with assms show ?thesis by (auto simp: rsi_def nans_def)
next
  case False
  define delta where "delta = map2 (-) close (shifted close)"
  define gain where "gain = map (\<lambda>d. if 0 < d then d else 0) delta"
  define loss where "loss = map (\<lambda>d. if d < 0 then - d else 0) delta"
  obtain ag al where e: "ema gain (2 * period - 1) = Inr ag" "ema loss (2 * period - 1) = Inr al"
    and r: "r = nans (nat period) @ drop (nat period) (map2 rsi_value ag al)"
    using assms(1) False by (auto simp: rsi_def Let_def res_bind_Inr_iff wilder_smooth_def delta_def
        gain_def loss_def split: if_splits)
  have pos: "0 \<le> (if 0 < d then d else 0)" "0 \<le> (if d < 0 then - d else 0)" for d :: f64
    by (cases d; auto simp: zero_eq_Fin)+
  have "\<forall>v \<in> set gain. nonneg_or_nan v" "\<forall>v \<in> set loss. nonneg_or_nan v"
    unfolding gain_def loss_def set_map nonneg_or_nan_def using pos by blast+
  then have "\<forall>v \<in> set ag. nonneg_or_nan v" "\<forall>v \<in> set al. nonneg_or_nan v"
    using ema_nonneg [OF e(1)] ema_nonneg [OF e(2)] by blast+
  moreover have "x = NaN \<or> (\<exists>(g, l) \<in> set (zip ag al). x = rsi_value g l)"
    using assms(2) by (fastforce simp: r nans_def dest!: in_set_dropD)
  ultimately show ?thesis
    using rsi_value_range by (blast dest: set_zip_leftD set_zip_rightD)
qed

subsection \<open>Properties\<close>

text \<open>
  C17. Every RSI value is NaN or lies in [0, 100], for any closes, infinities and NaN included,
  and any period for which \<open>rsi\<close> returns.
\<close>

theorem rsi_bounded:
  assumes "rsi close period = Inr r" "i < length r"
  shows "r ! i = NaN \<or> 0 \<le> r ! i \<and> r ! i \<le> mk 100"
  using rsi_range [OF assms(1)] assms(2) by simp

theorem rsi_bounded_witness:
  "\<exists>r. rsi [mk 10, mk 11, mk 9] 2 = Inr r \<and> (r ! 2 = NaN \<or> 0 \<le> r ! 2 \<and> r ! 2 \<le> mk 100)"
proof -
  have "\<exists>r. rsi [mk 10, mk 11, mk 9] 2 = Inr r \<and> length r = 3"
    by (simp add: rsi_def shifted_def wilder_smooth_def ema_def float_of_int_def nans_def f64_eval)
  then show ?thesis using rsi_bounded [of "[mk 10, mk 11, mk 9]" 2 _ 2] by auto
qed



text \<open>
  The docstring of \<open>stochastic\<close> promises values bounded by 100; with the close at the top of
  the range, rounding can put \<open>%K\<close> one unit in the last place above it.
\<close>

lemma stochastic_exceeds_100: "mk 100 < stoch_value (mk (270897 / 100)) (mk (270897 / 100)) 0"
  by (simp add: stoch_value_def zero_eq_Fin f64_eval)

end
