(* ===== verification/Zones.thy ===== *)
theory Zones
  imports Indicators
begin

text \<open>
  \<open>vix_core/zones.py\<close> and \<open>vix_core/swings.py\<close>: detection of supply and demand zones over a
  window of bars, the online state machine of a zone, and swing pivots. The ids that
  \<open>Zone\<close> draws from \<open>uuid4\<close> are the argument \<open>ids\<close> (one per zone found); scipy's
  \<open>find_peaks\<close> and numpy's \<open>convolve\<close> are fields of \<open>numlib\<close>. Timestamps of arrays are
  nanoseconds, those of zones microseconds.
\<close>

subsection \<open>Configuration\<close>

record zone_config =
  impulse_body_atr_mult :: f64
  max_base_candles :: nat
  mitigation_level :: f64
  break_buffer_atr :: f64
  expiry_bars :: int
  max_zones :: nat
  atr_period :: nat

definition default_zone_config :: zone_config where
  "default_zone_config = \<lparr>impulse_body_atr_mult = mk (12 / 10), max_base_candles = 4,
     mitigation_level = mk (75 / 100), break_buffer_atr = mk (25 / 100), expiry_bars = 500,
     max_zones = 12, atr_period = 14\<rparr>"

subsection \<open>Detection\<close>

definition to_utc_datetime :: "int \<Rightarrow> int" where
  "to_utc_datetime ns = ns div 1000000000 * 1000000"

definition nan_to_num :: "f64 \<Rightarrow> f64" where
  "nan_to_num x = (case x of NaN \<Rightarrow> 0 | PInf \<Rightarrow> Fin (f64_limit - p2 971)
     | NInf \<Rightarrow> Fin (p2 971 - f64_limit) | Fin r \<Rightarrow> Fin r)"

fun base_walk :: "nat \<Rightarrow> f64 list \<Rightarrow> f64 list \<Rightarrow> nat \<Rightarrow> nat" where
  \<comment> \<open>length of the base that ends just before index \<open>b\<close>\<close>
  "base_walk limit body avg_body 0 = 0"
| "base_walk limit body avg_body (Suc b) =
     (if 0 < limit \<and> body ! b \<le> np_maximum (avg_body ! b) (mk (1 / 10 ^ 12))
      then Suc (base_walk (limit - 1) body avg_body b) else 0)"

lemma base_walk_numeral [simp]:
  "base_walk limit body avg_body (numeral m) =
     (if 0 < limit \<and> body ! pred_numeral m \<le> np_maximum (avg_body ! pred_numeral m) (mk (1 / 10 ^ 12))
      then Suc (base_walk (limit - 1) body avg_body (pred_numeral m)) else 0)"
  by (simp add: numeral_eq_Suc)

definition base_zone ::
  "f64 list \<Rightarrow> f64 list \<Rightarrow> f64 list \<Rightarrow> f64 list \<Rightarrow> int list \<Rightarrow> string \<Rightarrow> nat \<Rightarrow> nat \<Rightarrow> zone" where
  "base_zone opens high low close ts new_id i base_len =
     (let base_start = i - base_len; w = Suc i - base_start in
      \<lparr>z_id = new_id,
       z_kind = (if close ! i < opens ! i then SUPPLY else DEMAND),
       z_top = np_max (take w (drop base_start high)),
       z_bottom = np_min (take w (drop base_start low)),
       z_created = to_utc_datetime (ts ! i), z_state = FRESH, z_touches = 0,
       z_score = int base_len\<rparr>)"

function scan_zones ::
  "zone_config \<Rightarrow> bool list \<Rightarrow> f64 list \<Rightarrow> f64 list \<Rightarrow> (string \<Rightarrow> nat \<Rightarrow> nat \<Rightarrow> zone) \<Rightarrow>
   (nat \<Rightarrow> string) \<Rightarrow> nat \<Rightarrow> nat \<Rightarrow> nat \<Rightarrow> zone list" where
  "scan_zones cfg impulse body avg_body new_zone ids n k i =
     (if \<not> i < n - 1 then []
      else if \<not> impulse ! i then scan_zones cfg impulse body avg_body new_zone ids n k (i + 1)
      else
        let base_len = base_walk (max_base_candles cfg) body avg_body i in
        if 1 \<le> base_len
        then new_zone (ids k) i base_len #
               scan_zones cfg impulse body avg_body new_zone ids n (Suc k) (i + (base_len + 1))
        else scan_zones cfg impulse body avg_body new_zone ids n k (i + (base_len + 1)))"
  by pat_completeness auto
termination
  by (relation "measure (\<lambda>(cfg, impulse, body, avg, new_zone, ids, n, k, i). n - i)") auto

declare scan_zones.simps [simp del]

definition build_zones ::
  "numlib \<Rightarrow> zone_config \<Rightarrow> (nat \<Rightarrow> string) \<Rightarrow> f64 list \<Rightarrow> f64 list \<Rightarrow> f64 list \<Rightarrow> f64 list \<Rightarrow>
   int list \<Rightarrow> zone list res" where
  "build_zones lib cfg ids opens high low close ts =
     (let n = length opens in
      if \<not> (n = length high \<and> length high = length low \<and> length low = length close)
      then Inl (ValueError ''OHLC arrays must share one shape'')
      else if n \<noteq> length ts then Inl (ValueError ''timestamps length must match OHLC'')
      else if n < atr_period cfg + 5 then Inr []
      else
        let body = map abs (map2 (-) close opens);
            avg_body = lib_convolve_same lib body (replicate 20 (mk 1 / mk 20))
        in res_bind (atr high low close (int (atr_period cfg))) (\<lambda>atr_values.
           let threshold = map (\<lambda>a. impulse_body_atr_mult cfg * nan_to_num a) atr_values in
           res_bind (np_bin np_maximum threshold (map (\<lambda>x. x * mk (3 / 2)) avg_body)) (\<lambda>lim.
           res_bind (np_bin (\<lambda>b t. t < b) body lim) (\<lambda>impulse.
           Inr (tail_slice (max_zones cfg)
             (scan_zones cfg impulse body avg_body (base_zone opens high low close ts) ids n 0
               (atr_period cfg + 1)))))))"

subsection \<open>The state machine\<close>

definition zone_broken :: "zone_config \<Rightarrow> zone \<Rightarrow> bar \<Rightarrow> f64 \<Rightarrow> bool" where
  "zone_broken cfg z b atr_value =
     (let buffer = break_buffer_atr cfg * atr_value in
      case z_kind z of
        DEMAND \<Rightarrow> b_close b < z_bottom z - buffer
      | SUPPLY \<Rightarrow> z_top z + buffer < b_close b)"

definition zone_touched :: "zone \<Rightarrow> bar \<Rightarrow> bool" where
  "zone_touched z b \<longleftrightarrow> z_bottom z \<le> b_high b \<and> b_low b \<le> z_top z"

definition zone_depth :: "zone \<Rightarrow> bar \<Rightarrow> f64" where
  "zone_depth z b =
     (let clamped = py_min (py_max (b_close b) (z_bottom z)) (z_top z) in
      case z_kind z of DEMAND \<Rightarrow> z_top z - clamped | SUPPLY \<Rightarrow> clamped - z_bottom z)"

definition zone_mitigated :: "zone_config \<Rightarrow> zone \<Rightarrow> bar \<Rightarrow> bool" where
  "zone_mitigated cfg z b =
     (let zone_height = z_top z - z_bottom z in
      0 < zone_height \<and> mitigation_level cfg * zone_height \<le> zone_depth z b)"

definition zone_update :: "zone_config \<Rightarrow> zone \<Rightarrow> bar \<Rightarrow> f64 \<Rightarrow> zone" where
  "zone_update cfg z b atr_value =
     (if z_state z = BROKEN then z
      else if zone_broken cfg z b atr_value then z\<lparr>z_state := BROKEN\<rparr>
      else if zone_touched z b then
        z\<lparr>z_touches := z_touches z + 1,
          z_state := (if zone_mitigated cfg z b then MITIGATED
                      else if z_state z = FRESH then TESTED else z_state z)\<rparr>
      else z)"

definition zone_update_all :: "zone_config \<Rightarrow> zone list \<Rightarrow> bar \<Rightarrow> f64 \<Rightarrow> zone list \<times> zone list" where
  \<comment> \<open>the engine's new list and the active zones returned\<close>
  "zone_update_all cfg zs b atr_value =
     (let zs' = map (\<lambda>z. zone_update cfg z b atr_value) zs in
      (zs', filter (\<lambda>z. z_state z \<noteq> BROKEN \<and> z_touches z \<le> expiry_bars cfg) zs'))"

subsection \<open>Swings\<close>

record swing =
  w_index :: nat
  w_price :: f64
  w_kind :: string

definition detect_swings :: "numlib \<Rightarrow> f64 list \<Rightarrow> f64 list \<Rightarrow> int \<Rightarrow> swing list res" where
  "detect_swings lib high low lookback =
     (if length high \<noteq> length low then Inl (ValueError ''high/low shape mismatch'')
      else if lookback < 1 then Inl (ValueError ''lookback must be >= 1'')
      else if int (length high) < 2 * lookback + 1 then Inr []
      else
        let distance = 2 * lookback + 1;
            high_idx = lib_find_peaks lib distance high;
            low_idx = lib_find_peaks lib distance (map uminus low)
        in Inr (sort_key w_index
             (map (\<lambda>i. \<lparr>w_index = i, w_price = high ! i, w_kind = ''high''\<rparr>) high_idx @
              map (\<lambda>i. \<lparr>w_index = i, w_price = low ! i, w_kind = ''low''\<rparr>) low_idx)))"

fun last_swing_from :: "swing option \<Rightarrow> swing list \<Rightarrow> nat \<Rightarrow> string \<Rightarrow> swing option" where
  "last_swing_from cand [] index kind = cand"
| "last_swing_from cand (s # ss) index kind =
     (if index \<le> w_index s then cand
      else last_swing_from (if w_kind s = kind then Some s else cand) ss index kind)"

definition last_swing_before :: "swing list \<Rightarrow> nat \<Rightarrow> string \<Rightarrow> swing option" where
  "last_swing_before swings index kind = last_swing_from None swings index kind"

subsection \<open>Facts about the state machine\<close>

fun state_rank :: "zone_state \<Rightarrow> nat" where
  "state_rank FRESH = 0"
| "state_rank TESTED = 1"
| "state_rank MITIGATED = 2"
| "state_rank BROKEN = 3"

definition same_zone :: "zone \<Rightarrow> zone \<Rightarrow> bool" where
  "same_zone a b \<longleftrightarrow> z_id a = z_id b \<and> z_kind a = z_kind b \<and> z_top a = z_top b \<and>
     z_bottom a = z_bottom b \<and> z_created a = z_created b \<and> z_score a = z_score b"

text \<open>One closed bar takes a zone to its next version; \<open>zone_run\<close> is any number of bars.\<close>

inductive zone_run :: "zone_config \<Rightarrow> zone \<Rightarrow> (bar \<times> f64) list \<Rightarrow> zone \<Rightarrow> bool" for cfg where
  zone_run_start: "zone_run cfg z [] z"
| zone_run_bar: "zone_run cfg (zone_update cfg z b a) bs z' \<Longrightarrow> zone_run cfg z ((b, a) # bs) z'"

inductive_cases zone_run_NilE: "zone_run cfg z [] z'"
inductive_cases zone_run_ConsE: "zone_run cfg z (x # bs) z'"

lemma zone_run_foldl: "zone_run cfg z bs z' \<longleftrightarrow> z' = foldl (\<lambda>z (b, a). zone_update cfg z b a) z bs"
proof (induction bs arbitrary: z)
  case Nil
  show ?case by (auto intro: zone_run_start elim: zone_run_NilE)
next
  case (Cons x bs)
  obtain b a where "x = (b, a)" by (cases x)
  with Cons show ?case by (auto intro: zone_run_bar elim!: zone_run_ConsE)
qed

lemma zone_update_advances:
  "state_rank (z_state z) \<le> state_rank (z_state (zone_update cfg z b a)) \<and>
   z_touches z \<le> z_touches (zone_update cfg z b a) \<and>
   z_touches (zone_update cfg z b a) \<le> z_touches z + 1 \<and> same_zone z (zone_update cfg z b a)"
  by (cases "z_state z") (auto simp: zone_update_def same_zone_def)

lemma zone_update_broken: "z_state z = BROKEN \<Longrightarrow> zone_update cfg z b a = z"
  by (simp add: zone_update_def)

lemma zone_update_fresh:
  "z_state z = FRESH \<longrightarrow> z_touches z = 0 \<Longrightarrow>
     z_state (zone_update cfg z b a) = FRESH \<longrightarrow> z_touches (zone_update cfg z b a) = 0"
  by (auto simp: zone_update_def)

lemma zone_run_lifecycle:
  "zone_run cfg z bs z' \<Longrightarrow>
     state_rank (z_state z) \<le> state_rank (z_state z') \<and> z_touches z \<le> z_touches z' \<and>
     z_touches z' \<le> z_touches z + int (length bs) \<and> same_zone z z' \<and> (z_state z = BROKEN \<longrightarrow> z' = z)"
proof (induction rule: zone_run.induct)
  case (zone_run_start z)
  show ?case by (simp add: same_zone_def)
next
  case (zone_run_bar z b a bs z')
  then show ?case
    using zone_update_advances [of z cfg b a] zone_update_broken [of z cfg b a]
    by (auto simp: same_zone_def)
qed

lemma zone_run_fresh:
  "zone_run cfg z bs z' \<Longrightarrow> 0 \<le> z_touches z \<Longrightarrow>
     (z_state z \<noteq> BROKEN \<longrightarrow> (z_state z = FRESH \<longleftrightarrow> z_touches z = 0)) \<Longrightarrow>
     z_state z' \<noteq> BROKEN \<longrightarrow> (z_state z' = FRESH \<longleftrightarrow> z_touches z' = 0)"
proof (induction rule: zone_run.induct)
  case (zone_run_bar z b a bs z')
  have "0 \<le> z_touches (zone_update cfg z b a)"
    using zone_update_advances [of z cfg b a] zone_run_bar.prems(1) by linarith
  moreover have "z_state (zone_update cfg z b a) \<noteq> BROKEN \<longrightarrow>
      (z_state (zone_update cfg z b a) = FRESH \<longleftrightarrow> z_touches (zone_update cfg z b a) = 0)"
    using zone_run_bar.prems by (auto simp: zone_update_def)
  ultimately show ?case by (rule zone_run_bar.IH)
qed simp

subsection \<open>Facts about detection\<close>

lemma base_walk_le: "base_walk limit body avg b \<le> limit \<and> base_walk limit body avg b \<le> b"
proof (induction b arbitrary: limit)
  case (Suc b)
  have "base_walk (limit - 1) body avg b \<le> limit - 1 \<and> base_walk (limit - 1) body avg b \<le> b"
    by (rule Suc.IH)
  then show ?case by auto
qed simp

lemma scan_zones_members:
  "z \<in> set (scan_zones cfg impulse body avg new_zone ids n k i) \<Longrightarrow>
     \<exists>k' j len. i \<le> j \<and> j < n - 1 \<and> impulse ! j \<and> 1 \<le> len \<and> len \<le> max_base_candles cfg \<and>
       len \<le> j \<and> z = new_zone (ids k') j len"
proof (induction cfg impulse body avg new_zone ids n k i rule: scan_zones.induct)
  case (1 cfg impulse body avg new_zone ids n k i)
  let ?len = "base_walk (max_base_candles cfg) body avg i"
  consider "\<not> i < n - 1" | "i < n - 1" "\<not> impulse ! i" | "i < n - 1" "impulse ! i" by blast
  then show ?case
  proof cases
    case 1
    with "1.prems" show ?thesis by (simp add: scan_zones.simps)
  next
    case 2
    then have m: "z \<in> set (scan_zones cfg impulse body avg new_zone ids n k (i + 1))"
      using "1.prems" by (simp add: scan_zones.simps [of _ _ _ _ _ _ _ _ i])
    obtain k' j len where j: "i + 1 \<le> j" "j < n - 1" "impulse ! j" "1 \<le> len"
        "len \<le> max_base_candles cfg" "len \<le> j" "z = new_zone (ids k') j len"
      using "1.IH"(1) [OF _ _ m] 2 by blast
    then have "i \<le> j" by simp
    with j show ?thesis by blast
  next
    case 3
    then have "z = new_zone (ids k) i ?len \<and> 1 \<le> ?len \<or>
        z \<in> set (scan_zones cfg impulse body avg new_zone ids n (Suc k) (i + (?len + 1))) \<and> 1 \<le> ?len \<or>
        z \<in> set (scan_zones cfg impulse body avg new_zone ids n k (i + (?len + 1))) \<and> \<not> 1 \<le> ?len"
      using "1.prems" by (auto simp: scan_zones.simps [of _ _ _ _ _ _ _ _ i] Let_def split: if_splits)
    then consider (here) "z = new_zone (ids k) i ?len" "1 \<le> ?len"
      | (there) k' where "z \<in> set (scan_zones cfg impulse body avg new_zone ids n k' (i + (?len + 1)))"
          "k' = (if 1 \<le> ?len then Suc k else k)"
      by auto
    then show ?thesis
    proof cases
      case here
      with 3 base_walk_le [of "max_base_candles cfg" body avg i] show ?thesis by blast
    next
      case there
      then obtain k' j len where j: "i + (?len + 1) \<le> j" "j < n - 1" "impulse ! j" "1 \<le> len"
          "len \<le> max_base_candles cfg" "len \<le> j" "z = new_zone (ids k') j len"
        using 3 "1.IH"(2,3) by (auto split: if_splits)
      then have "i \<le> j" by simp
      with j show ?thesis by blast
    qed
  qed
qed

lemma np_maximum_ge: "a \<noteq> NaN \<Longrightarrow> b \<noteq> NaN \<Longrightarrow> a \<le> np_maximum a b \<and> b \<le> np_maximum a b \<and> np_maximum a b \<noteq> NaN"
  by (auto simp: np_maximum_def f64_not_less f64_le_refl f64_less_imp_le)

lemma np_minimum_le: "a \<noteq> NaN \<Longrightarrow> b \<noteq> NaN \<Longrightarrow> np_minimum a b \<le> a \<and> np_minimum a b \<le> b \<and> np_minimum a b \<noteq> NaN"
  by (auto simp: np_minimum_def f64_not_less f64_le_refl f64_less_imp_le)

lemma np_max_upper:
  "\<forall>x \<in> set xs. x \<noteq> NaN \<Longrightarrow> xs \<noteq> [] \<Longrightarrow> np_max xs \<noteq> NaN \<and> (\<forall>x \<in> set xs. x \<le> np_max xs)"
proof (induction xs rule: np_max.induct)
  case (3 x y xs)
  then show ?case using np_maximum_ge [of x "np_max (y # xs)"] by (auto intro: f64_le_trans)
qed (simp_all add: f64_le_refl)

lemma np_min_lower:
  "\<forall>x \<in> set xs. x \<noteq> NaN \<Longrightarrow> xs \<noteq> [] \<Longrightarrow> np_min xs \<noteq> NaN \<and> (\<forall>x \<in> set xs. np_min xs \<le> x)"
proof (induction xs rule: np_min.induct)
  case (3 x y xs)
  then show ?case using np_minimum_le [of x "np_min (y # xs)"] by (auto intro: f64_le_trans)
qed (simp_all add: f64_le_refl)

lemma set_slice: "j < length xs \<Longrightarrow> a \<le> j \<Longrightarrow> j < a + w \<Longrightarrow> xs ! j \<in> set (take w (drop a xs))"
  by (auto simp: in_set_conv_nth intro!: exI [of _ "j - a"])

lemma in_set_slice: "x \<in> set (take w (drop a xs)) \<Longrightarrow> x \<in> set xs"
  by (auto dest: in_set_takeD in_set_dropD)

lemma base_zone_box:
  assumes "length high = n" "length low = n" "i < n" "len \<le> i"
    and "\<forall>j<n. low ! j \<le> high ! j"
    and z: "z = base_zone opens high low close ts nid i len"
  shows "\<forall>j. i - len \<le> j \<and> j \<le> i \<longrightarrow> z_bottom z \<le> low ! j \<and> high ! j \<le> z_top z"
    and "z_bottom z \<le> z_top z"
proof -
  define H L where "H = take (Suc i - (i - len)) (drop (i - len) high)"
    and "L = take (Suc i - (i - len)) (drop (i - len) low)"
  have nn: "\<forall>x \<in> set high. x \<noteq> NaN" "\<forall>x \<in> set low. x \<noteq> NaN"
    using assms(1,2,5) by (metis f64_less_not_NaN(2) in_set_conv_nth)+
  have mem: "high ! j \<in> set H" "low ! j \<in> set L" if "i - len \<le> j" "j \<le> i" for j
    using that assms(1-4) unfolding H_def L_def by (auto intro!: set_slice)
  then have "H \<noteq> []" "L \<noteq> []" by force+
  moreover have "\<forall>x \<in> set H. x \<noteq> NaN" "\<forall>x \<in> set L. x \<noteq> NaN"
    using nn unfolding H_def L_def by (blast dest: in_set_slice)+
  ultimately have b: "\<forall>x \<in> set H. x \<le> np_max H" "\<forall>x \<in> set L. np_min L \<le> x"
    using np_max_upper np_min_lower by blast+
  have e: "z_top z = np_max H" "z_bottom z = np_min L"
    by (simp_all add: z base_zone_def Let_def H_def L_def)
  show box: "\<forall>j. i - len \<le> j \<and> j \<le> i \<longrightarrow> z_bottom z \<le> low ! j \<and> high ! j \<le> z_top z"
    using mem b by (simp add: e)
  then show "z_bottom z \<le> z_top z"
    using assms(3,5) f64_le_trans by (metis diff_le_self le_refl)
qed

subsection \<open>Facts about swings\<close>

lemma last_swing_from_sorted:
  "sorted (map w_index ss) \<Longrightarrow>
     last_swing_from cand ss index kind =
       (case filter (\<lambda>s. w_index s < index \<and> w_kind s = kind) ss of
          [] \<Rightarrow> cand | xs \<Rightarrow> Some (last xs))"
proof (induction ss arbitrary: cand)
  case (Cons s ss)
  show ?case
  proof (cases "index \<le> w_index s")
    case True
    with Cons.prems have "filter (\<lambda>s. w_index s < index \<and> w_kind s = kind) (s # ss) = []"
      by (auto simp: filter_empty_conv)
    with True show ?thesis by simp
  next
    case False
    with Cons show ?thesis by (auto split: list.split)
  qed
qed simp

subsection \<open>Properties\<close>

text \<open>
  C14. Over any sequence of closed bars a zone only moves forward in FRESH, TESTED, MITIGATED,
  BROKEN, never leaves BROKEN, gains at most one touch per bar and keeps its identity, side and
  edges; a live zone that started fresh and untouched is fresh exactly while it has no touch.
\<close>

theorem zone_lifecycle:
  assumes "zone_run cfg z bs z'"
  shows "state_rank (z_state z) \<le> state_rank (z_state z') \<and> (z_state z = BROKEN \<longrightarrow> z' = z) \<and>
    z_touches z \<le> z_touches z' \<and> z_touches z' \<le> z_touches z + int (length bs) \<and> same_zone z z' \<and>
    (z_state z = FRESH \<and> z_touches z = 0 \<and> z_state z' \<noteq> BROKEN \<longrightarrow>
      (z_state z' = FRESH \<longleftrightarrow> z_touches z' = 0))"
  using zone_run_lifecycle [OF assms] zone_run_fresh [OF assms] by auto

definition demo_zone :: zone where
  "demo_zone = \<lparr>z_id = ''a1'', z_kind = DEMAND, z_top = mk 100, z_bottom = mk 90,
     z_created = 0, z_state = FRESH, z_touches = 0, z_score = 2\<rparr>"

definition demo_bar :: "rat \<Rightarrow> rat \<Rightarrow> rat \<Rightarrow> bar" where
  "demo_bar h l c = \<lparr>b_ts = 0, b_open = mk c, b_high = mk h, b_low = mk l, b_close = mk c,
     b_volume = 1\<rparr>"

theorem zone_lifecycle_witness:
  "\<exists>z'. zone_run default_zone_config demo_zone
      [(demo_bar 101 99 100, mk 4), (demo_bar 100 91 92, mk 4), (demo_bar 95 80 88, mk 4)] z' \<and>
     z_state z' = BROKEN \<and> z_touches z' = 2 \<and> same_zone demo_zone z'"
proof -
  let ?bs = "[(demo_bar 101 99 100, mk 4), (demo_bar 100 91 92, mk 4), (demo_bar 95 80 88, mk 4)]"
  let ?z = "foldl (\<lambda>z (b, a). zone_update default_zone_config z b a) demo_zone ?bs"
  have run: "zone_run default_zone_config demo_zone ?bs ?z" by (simp add: zone_run_foldl)
  moreover have "z_state ?z = BROKEN \<and> z_touches ?z = 2"
    by (simp add: zone_update_def zone_broken_def zone_touched_def zone_mitigated_def zone_depth_def
        demo_zone_def demo_bar_def default_zone_config_def py_min_def py_max_def f64_eval)
  ultimately show ?thesis using zone_lifecycle [OF run] by blast
qed


definition demo_lib :: numlib where
  "demo_lib = \<lparr>lib_mean = (\<lambda>xs. if xs = [] then NaN else hd xs), lib_std = (\<lambda>d xs. 0),
     lib_log = (\<lambda>x. x - 1), lib_convolve_same = (\<lambda>a v. map (\<lambda>x. mk 1) a),
     lib_find_peaks = (\<lambda>d xs. if length xs = 3 then [1] else [])\<rparr>"

definition demo_cfg :: zone_config where
  "demo_cfg = default_zone_config\<lparr>atr_period := 1, impulse_body_atr_mult := mk (1 / 2)\<rparr>"

definition demo_opens :: "f64 list" where
  "demo_opens = [Fin 10, Fin 10, Fin 10, Fin 10, Fin 14, Fin 14]"

definition demo_highs :: "f64 list" where
  "demo_highs = [Fin 11, Fin 11, Fin 11, Fin 14, Fin 14, Fin 14]"

definition demo_lows :: "f64 list" where
  "demo_lows = [Fin 9, Fin 9, Fin 9, Fin 10, Fin 14, Fin 14]"

definition demo_closes :: "f64 list" where
  "demo_closes = [Fin 10, Fin 10, Fin 10, Fin 14, Fin 14, Fin 14]"

lemmas demo_series = demo_opens_def demo_highs_def demo_lows_def demo_closes_def

lemma demo_atr: "atr demo_highs demo_lows demo_closes 1 = Inr [NaN, Fin 2, Fin 2, Fin 4, Fin 0, Fin 0]"
  by (simp add: demo_series atr_def true_range_def np_bin_def shifted_def wilder_smooth_def ema_def
      float_of_int_def np_maximum_def zero_eq_Fin one_eq_Fin f64_eval)

lemma demo_base: "base_walk 4 [Fin 0, Fin 0, Fin 0, Fin 4, Fin 0, Fin 0]
    [Fin 1, Fin 1, Fin 1, Fin 1, Fin 1, Fin 1] 3 = 3"
  by (simp add: np_maximum_def f64_eval)

lemma demo_scan: "scan_zones demo_cfg [False, False, False, True, False, False]
    [Fin 0, Fin 0, Fin 0, Fin 4, Fin 0, Fin 0] [Fin 1, Fin 1, Fin 1, Fin 1, Fin 1, Fin 1]
    new_zone ids 6 0 2 = [new_zone (ids 0) 3 3]"
  by (simp add: scan_zones.simps demo_cfg_def default_zone_config_def demo_base Let_def
      del: base_walk_numeral)

lemma demo_build: "build_zones demo_lib demo_cfg ids demo_opens demo_highs demo_lows demo_closes
    [0, 1, 2, 3, 4, 5] = Inr [base_zone demo_opens demo_highs demo_lows demo_closes [0, 1, 2, 3, 4, 5]
      (ids 0) 3 3]"
proof -
  have len: "length demo_opens = 6" "length demo_highs = 6" "length demo_lows = 6" "length demo_closes = 6"
    by (simp_all add: demo_series)
  have cfg: "atr_period demo_cfg = 1" "max_zones demo_cfg = 12" "impulse_body_atr_mult demo_cfg = Fin (1 / 2)"
    by (simp_all add: demo_cfg_def default_zone_config_def f64_eval)
  have body: "map abs (map2 (-) demo_closes demo_opens) = [Fin 0, Fin 0, Fin 0, Fin 4, Fin 0, Fin 0]"
    by (simp add: demo_series f64_eval)
  have avg: "lib_convolve_same demo_lib xs v = map (\<lambda>x. Fin 1) xs" for xs v
    by (simp add: demo_lib_def f64_eval)
  have lim: "map (\<lambda>a. Fin (1 / 2) * nan_to_num a) [NaN, Fin 2, Fin 2, Fin 4, Fin 0, Fin 0] =
      [Fin 0, Fin 1, Fin 1, Fin 2, Fin 0, Fin 0]"
    by (simp add: nan_to_num_def zero_eq_Fin f64_eval)
  have th: "np_bin np_maximum [Fin 0, Fin 1, Fin 1, Fin 2, Fin 0, Fin 0]
      [Fin 1 * mk (3 / 2), Fin 1 * mk (3 / 2), Fin 1 * mk (3 / 2), Fin 1 * mk (3 / 2), Fin 1 * mk (3 / 2),
       Fin 1 * mk (3 / 2)] =
      Inr [Fin (3 / 2), Fin (3 / 2), Fin (3 / 2), Fin 2, Fin (3 / 2), Fin (3 / 2)]"
    by (simp add: np_bin_def np_maximum_def f64_eval)
  have cmp: "np_bin (\<lambda>b t. t < b) [Fin 0, Fin 0, Fin 0, Fin 4, Fin 0, Fin 0]
      [Fin (3 / 2), Fin (3 / 2), Fin (3 / 2), Fin 2, Fin (3 / 2), Fin (3 / 2)] =
      Inr [False, False, False, True, False, False]"
    by (simp add: np_bin_def)
  show ?thesis
    unfolding build_zones_def Let_def len cfg body avg
    by (simp add: demo_atr lim [simplified] th cmp demo_scan demo_scan [unfolded numeral_2_eq_2] tail_slice_def)
qed


text \<open>
  With the default period a window of exactly 19 bars passes the size guard, but
  \<open>np.convolve(..., mode="same")\<close> returns \<open>max(19, 20)\<close> values, so the comparison raises.
\<close>

lemma build_zones_19_bars_raises:
  assumes "length (lib_convolve_same lib (map abs (map2 (-) close opens)) (replicate 20 (mk 1 / mk 20))) = 20"
    and "length opens = 19" "length high = 19" "length low = 19" "length close = 19" "length ts = 19"
    and "cfg = default_zone_config" "atr high low close 14 = Inr a" "length a = 19"
  shows "build_zones lib cfg ids opens high low close ts =
    Inl (ValueError ''operands could not be broadcast together'')"
  using assms by (simp add: build_zones_def default_zone_config_def np_bin_def Let_def)

text \<open>
  C16. \<open>last_swing_before\<close> on the swings of \<open>detect_swings\<close> returns the latest swing of the
  kind strictly before the bar, and none exactly when there is none: the early \<open>break\<close> is
  sound because the swings come sorted by bar.
\<close>

theorem last_swing_before_detected:
  assumes "detect_swings lib high low lookback = Inr swings"
  shows "last_swing_before swings index kind =
      last_opt (filter (\<lambda>s. w_index s < index \<and> w_kind s = kind) swings) \<and>
    sorted (map w_index swings) \<and>
    (\<forall>s \<in> set swings. w_kind s = ''high'' \<and> w_price s = high ! w_index s \<or>
       w_kind s = ''low'' \<and> w_price s = low ! w_index s)"
proof -
  have s: "sorted (map w_index swings)"
    using assms by (auto simp: detect_swings_def Let_def split: if_splits)
  have "\<forall>s \<in> set swings. w_kind s = ''high'' \<and> w_price s = high ! w_index s \<or>
       w_kind s = ''low'' \<and> w_price s = low ! w_index s"
    using assms by (auto simp: detect_swings_def Let_def split: if_splits)
  then show ?thesis
    using s last_swing_from_sorted [OF s, of None]
    by (auto simp: last_swing_before_def last_opt_def split: list.split)
qed

theorem last_swing_before_detected_witness:
  "\<exists>swings. detect_swings demo_lib [mk 1, mk 3, mk 2] [mk 1, mk 0, mk 1] 1 = Inr swings \<and>
     last_swing_before swings 2 ''low'' =
       last_opt (filter (\<lambda>s. w_index s < 2 \<and> w_kind s = ''low'') swings)"
proof -
  have "\<exists>swings. detect_swings demo_lib [mk 1, mk 3, mk 2] [mk 1, mk 0, mk 1] 1 = Inr swings"
    by (simp add: detect_swings_def demo_lib_def)
  then show ?thesis using last_swing_before_detected by blast
qed

end
