(* ===== verification/Features.thy ===== *)
theory Features
  imports Zones Rows Outcomes Connection
begin

text \<open>
  The feature service: \<open>compute.py\<close> (bars to a feature snapshot), \<open>db.py\<close> (bars in, feature rows
  out) and \<open>consumer.py\<close> (\<open>ohlcv.update\<close> to \<open>feature.computed\<close>, with redelivery counts and a
  dead-letter stream). The Redis client decodes responses, so message ids are \<open>str\<close>.
\<close>

subsection \<open>The feature frame\<close>

definition feature_window_bars :: nat where "feature_window_bars = 500"
definition warmup_index :: nat where "warmup_index = 199"

definition to_ns_array :: "bar list \<Rightarrow> int list" where
  \<comment> \<open>microseconds to nanoseconds\<close>
  "to_ns_array bars = map (\<lambda>b. b_ts b * 1000) bars"

record feature_frame =
  ff_ts :: "int list"
  ff_open :: "f64 list"
  ff_high :: "f64 list"
  ff_low :: "f64 list"
  ff_close :: "f64 list"
  ff_atr :: "f64 list"
  ff_atr_norm :: "f64 list"
  ff_rsi :: "f64 list"
  ff_ema50 :: "f64 list"
  ff_ema200 :: "f64 list"
  ff_bb_upper :: "f64 list"
  ff_bb_mid :: "f64 list"
  ff_bb_lower :: "f64 list"
  ff_stoch_k :: "f64 list"
  ff_stoch_d :: "f64 list"
  ff_log_return :: "f64 list"
  ff_realized_vol :: "f64 list"

definition frame_length :: "feature_frame \<Rightarrow> nat" where
  "frame_length fr = length (ff_close fr)"

definition build_frame :: "numlib \<Rightarrow> bar list \<Rightarrow> feature_frame res" where
  "build_frame lib bars =
     (if bars = [] then Inl (ValueError ''cannot build frame from empty bars'')
      else
        let opens = map b_open bars; high = map b_high bars; low = map b_low bars; close = map b_close bars;
            rets = log_returns lib close
        in res_bind (atr high low close 14) (\<lambda>atr_arr.
           res_bind (rsi close 14) (\<lambda>rsi_arr.
           res_bind (ema close 50) (\<lambda>e50.
           res_bind (ema close 200) (\<lambda>e200.
           res_bind (bollinger_bands lib close 20 (mk 2)) (\<lambda>(mid, upper, lower).
           res_bind (stochastic lib high low close 14 3) (\<lambda>(k, d).
           res_bind (realized_volatility lib rets 21) (\<lambda>vol.
           Inr \<lparr>ff_ts = to_ns_array bars, ff_open = opens, ff_high = high, ff_low = low, ff_close = close,
                ff_atr = atr_arr,
                ff_atr_norm = map2 (\<lambda>a c. if 0 < c then a / c else NaN) atr_arr close,
                ff_rsi = rsi_arr, ff_ema50 = e50, ff_ema200 = e200,
                ff_bb_upper = upper, ff_bb_mid = mid, ff_bb_lower = lower,
                ff_stoch_k = k, ff_stoch_d = d, ff_log_return = rets, ff_realized_vol = vol\<rparr>))))))))"

definition frame_series :: "feature_frame \<Rightarrow> f64 list list" where
  "frame_series fr = [ff_atr fr, ff_atr_norm fr, ff_rsi fr, ff_ema50 fr, ff_ema200 fr, ff_bb_upper fr,
     ff_bb_mid fr, ff_bb_lower fr, ff_stoch_k fr, ff_stoch_d fr, ff_log_return fr, ff_realized_vol fr]"

definition frame_is_complete :: "feature_frame \<Rightarrow> nat \<Rightarrow> bool" where
  "frame_is_complete fr from_index \<longleftrightarrow>
     from_index < frame_length fr \<and> list_all (\<lambda>s. list_all is_fin (drop from_index s)) (frame_series fr)"

definition latest_pivots :: "numlib \<Rightarrow> f64 list \<Rightarrow> f64 list \<Rightarrow> int \<Rightarrow> (f64 option \<times> f64 option) res" where
  "latest_pivots lib high low lookback =
     res_bind (detect_swings lib high low lookback) (\<lambda>swings.
     Inr (last_opt (map w_price (filter (\<lambda>s. w_kind s = ''high'') swings)),
          last_opt (map w_price (filter (\<lambda>s. w_kind s = ''low'') swings))))"

definition last_num :: "f64 list \<Rightarrow> json res" where
  \<comment> \<open>\<open>float(arr[-1])\<close>\<close>
  "last_num xs = (if xs = [] then Inl IndexError else Inr (JNum (last xs)))"

definition frame_columns :: "feature_frame \<Rightarrow> (string \<times> f64 list) list" where
  \<comment> \<open>the numeric columns of a snapshot, in its order\<close>
  "frame_columns fr = [(''close'', ff_close fr), (''atr'', ff_atr fr), (''atr_norm'', ff_atr_norm fr), (''rsi'', ff_rsi fr),
     (''ema50'', ff_ema50 fr), (''ema200'', ff_ema200 fr), (''bb_upper'', ff_bb_upper fr), (''bb_mid'', ff_bb_mid fr),
     (''bb_lower'', ff_bb_lower fr), (''stoch_k'', ff_stoch_k fr), (''stoch_d'', ff_stoch_d fr),
     (''log_return'', ff_log_return fr), (''realized_vol'', ff_realized_vol fr)]"

definition snapshot_from_bars ::
  "numlib \<Rightarrow> (nat \<Rightarrow> string) \<Rightarrow> bar list \<Rightarrow> pytext \<Rightarrow> pytext \<Rightarrow> json dict res" where
  \<comment> \<open>\<open>ids\<close> are the ids its zones draw\<close>
  "snapshot_from_bars lib ids bars symb tf =
     (if length bars < warmup_index + 1 then Inl (ValueError ''need at least 200 bars'')
      else
        res_bind (build_frame lib bars) (\<lambda>fr.
        if \<not> frame_is_complete fr warmup_index
        then Inl (ValueError ''feature window incomplete; refusing to publish NaNs'')
        else
          res_bind (latest_pivots lib (ff_high fr) (ff_low fr) 5) (\<lambda>(swing_high, swing_low).
          res_bind (build_zones lib default_zone_config ids (ff_open fr) (ff_high fr) (ff_low fr) (ff_close fr) (ff_ts fr)) (\<lambda>zs.
          res_bind (res_map (\<lambda>(k, s). res_bind (last_num s) (\<lambda>v. Inr (k, v))) (frame_columns fr)) (\<lambda>numbers.
          Inr ([(''symbol'', JStr symb), (''timeframe'', JStr tf), (''ts'', JStr (TIso (b_ts (last bars))))] @
               numbers @
               [(''swing_high'', json_opt JNum swing_high), (''swing_low'', json_opt JNum swing_low),
                (''zones'', JArr (map (\<lambda>z. JObj (zone_dump z)) (filter (\<lambda>z. z_state z \<noteq> BROKEN) zs)))]))))))"

subsection \<open>Storage\<close>

record feature_config =
  fc_lib :: numlib
  fc_codec :: codec
  fc_ids :: "ecall list \<Rightarrow> nat \<Rightarrow> string"       \<comment> \<open>the zone ids drawn after so many calls\<close>

record feature_world = world +
  fe_processed :: nat

type_synonym ('x, 'a) feature_act = "('x feature_world_ext, 'a) act"

definition fe_connect :: "env \<Rightarrow> ('x, unit) feature_act" where
  "fe_connect ev = db_connect ev"

definition fe_close :: "env \<Rightarrow> ('x, unit) feature_act" where
  "fe_close ev = db_close ev"

definition fe_ping :: "env \<Rightarrow> ('x, bool) feature_act" where
  "fe_ping ev = db_ping ev"

definition row_volume :: "codec \<Rightarrow> json list \<Rightarrow> int res" where
  \<comment> \<open>\<open>int(row[5] or 0)\<close>\<close>
  "row_volume cd row = res_bind (row_item row 5) (\<lambda>v. if json_truthy v then json_int cd v else Inr 0)"

definition bar_of_row :: "codec \<Rightarrow> json list \<Rightarrow> bar res" where
  "bar_of_row cd row =
     res_bind (res_bind (row_item row 0) json_ts) (\<lambda>ts.
     res_bind (row_float cd row 1) (\<lambda>o1.
     res_bind (row_float cd row 2) (\<lambda>h.
     res_bind (row_float cd row 3) (\<lambda>l.
     res_bind (row_float cd row 4) (\<lambda>c.
     res_bind (row_volume cd row) (\<lambda>v.
     Inr \<lparr>b_ts = ts, b_open = o1, b_high = h, b_low = l, b_close = c, b_volume = v\<rparr>))))))"

definition fetch_bars :: "env \<Rightarrow> codec \<Rightarrow> pytext \<Rightarrow> pytext \<Rightarrow> nat \<Rightarrow> ('x, bar list) feature_act" where
  "fetch_bars ev cd symb tf limit =
     bnd (db_ensure ev) (\<lambda>_.
     bnd (call ev ans_rows (SqlRows ''fetch_bars'' [JStr symb, JStr tf, JInt (int limit)])) (\<lambda>rows.
     lift_res (res_map (bar_of_row cd) (rev rows))))"

definition upsert_payload :: "json dict \<Rightarrow> json list" where
  \<comment> \<open>the parameters of the upsert, named; \<open>Jsonb(payload.get("zones") or [])\<close>\<close>
  "upsert_payload row =
     [JObj (dset row ''zones'' (case dget row ''zones'' of None \<Rightarrow> JArr [] | Some z \<Rightarrow> if json_truthy z then z else JArr []))]"

definition upsert_feature_row :: "env \<Rightarrow> json dict \<Rightarrow> ('x, unit) feature_act" where
  "upsert_feature_row ev row =
     bnd (db_ensure ev) (\<lambda>_. call ev ans_unit (SqlRun ''upsert_feature'' (upsert_payload row)))"

subsection \<open>The consumer\<close>

definition feature_stream :: string where "feature_stream = ''ohlcv.update''"
definition feature_out :: string where "feature_out = ''feature.computed''"
definition feature_dlq :: string where "feature_dlq = ''ohlcv.update:dlq''"
definition feature_group :: string where "feature_group = ''feature-service''"
definition max_deliveries :: int where "max_deliveries = 3"
definition min_bars :: nat where "min_bars = 250"

fun join_comma :: "pytext list \<Rightarrow> pytext list" where
  "join_comma [] = []"
| "join_comma [t] = [t]"
| "join_comma (t # ts) = t # T '','' # join_comma ts"

fun as_zone_list :: "codec \<Rightarrow> json \<Rightarrow> json list res" where
  "as_zone_list cd (JStr t) =
     res_bind (json_loads cd t) (\<lambda>v. case v of
        JArr zs \<Rightarrow> Inr zs
      | JObj d \<Rightarrow> Inr (map (\<lambda>(k, x). JStr (T k)) d)
      | JStr s \<Rightarrow> (case text_plain s of None \<Rightarrow> Inl BadAnswer | Some cs \<Rightarrow> Inr (map (\<lambda>c. JStr (T [c])) cs))
      | _ \<Rightarrow> Inl (TypeError ''not iterable''))"
| "as_zone_list cd (JArr zs) = Inr zs"
| "as_zone_list cd v = Inr []"

definition zone_id_text :: "json \<Rightarrow> pytext res" where
  \<comment> \<open>\<open>str(zone.get("id"))\<close>\<close>
  "zone_id_text z = res_bind (json_get z ''id'') (\<lambda>v. Inr (py_str (case v of None \<Rightarrow> JNull | Some x \<Rightarrow> x)))"

definition feature_event :: "codec \<Rightarrow> pytext \<Rightarrow> pytext \<Rightarrow> json dict \<Rightarrow> json dict res" where
  "feature_event cd symb tf snap =
     res_bind (res_bind (getitem snap ''zones'') (as_zone_list cd)) (\<lambda>zs.
     res_bind (res_map zone_id_text zs) (\<lambda>ids.
     res_bind (getitem snap ''ts'') (\<lambda>ts.
     res_bind (getitem snap ''close'') (\<lambda>close.
     res_bind (getitem snap ''rsi'') (\<lambda>rsi_v.
     res_bind (getitem snap ''atr_norm'') (\<lambda>an.
     Inr [(''symbol'', JStr symb), (''timeframe'', JStr tf), (''ts'', JStr (py_str ts)),
          (''close'', JStr (py_str close)), (''rsi'', JStr (py_str rsi_v)), (''atr_norm'', JStr (py_str an)),
          (''zone_ids'', JStr (TCat (join_comma ids)))]))))))"

definition snapshot_now :: "feature_config \<Rightarrow> bar list \<Rightarrow> pytext \<Rightarrow> pytext \<Rightarrow> ('x, json dict) feature_act" where
  "snapshot_now cfg bars symb tf =
     bnd (look log) (\<lambda>l. lift_res (snapshot_from_bars (fc_lib cfg) (fc_ids cfg l) bars symb tf))"

definition process_bar_event ::
  "env \<Rightarrow> feature_config \<Rightarrow> pytext \<Rightarrow> pytext \<Rightarrow> pytext \<Rightarrow> ('x, json dict) feature_act" where
  "process_bar_event ev cfg symb tf cid =
     bnd (fetch_bars ev (fc_codec cfg) symb tf feature_window_bars) (\<lambda>bars.
     if length bars < min_bars then ret []
     else
       bnd (snapshot_now cfg bars symb tf) (\<lambda>snap.
       bnd (upsert_feature_row ev snap) (\<lambda>_.
       bnd (lift_res (feature_event (fc_codec cfg) symb tf snap)) (\<lambda>event.
       bnd (stream_fields ev event (Some cid)) (\<lambda>entry.
       bnd (call ev ans_unit (XAdd feature_out entry)) (\<lambda>_.
       ret snap))))))"

definition feature_ack :: "env \<Rightarrow> string \<Rightarrow> ('x, unit) act" where
  "feature_ack ev mid = call ev ans_unit (XAck feature_stream feature_group mid)"

definition times_delivered :: "json \<Rightarrow> json res" where
  \<comment> \<open>\<open>entry.get("times_delivered") or entry.get("time_delivered") or 1\<close>\<close>
  "times_delivered entry =
     res_bind (json_get entry ''times_delivered'') (\<lambda>a.
     case a of
       Some v \<Rightarrow> if json_truthy v then Inr v
         else res_bind (json_get entry ''time_delivered'') (\<lambda>b. Inr (case b of Some u \<Rightarrow> if json_truthy u then u else JInt 1 | None \<Rightarrow> JInt 1))
     | None \<Rightarrow> res_bind (json_get entry ''time_delivered'') (\<lambda>b. Inr (case b of Some u \<Rightarrow> if json_truthy u then u else JInt 1 | None \<Rightarrow> JInt 1)))"

definition delivery_count :: "env \<Rightarrow> codec \<Rightarrow> string \<Rightarrow> ('x, int) act" where
  "delivery_count ev cd mid =
     bnd (call ev ans_json (RedisCmd ''xpending_range'' [JStr (T feature_stream), JStr (T feature_group), JStr (T mid)])) (\<lambda>pending.
     case pending of
       Some (JArr (entry # es)) \<Rightarrow> lift_res (res_bind (times_delivered entry) (json_int cd))
     | _ \<Rightarrow> ret 1)"

definition decode_id :: "string \<Rightarrow> pytext res" where
  \<comment> \<open>\<open>message_id.decode()\<close> of a \<open>str\<close>\<close>
  "decode_id mid = Inl (AttributeError ''decode'')"

definition dead_letter :: "env \<Rightarrow> string \<Rightarrow> fields \<Rightarrow> string \<Rightarrow> ('x, unit) act" where
  "dead_letter ev mid fs reason =
     bnd (lift_res (decode_id mid)) (\<lambda>original.
     bnd (call ev ans_unit (XAdd feature_dlq (dset (dset fs ''dlq_reason'' (T reason)) ''original_id'' original))) (\<lambda>_.
     feature_ack ev mid))"

definition well_formed_event :: "fields \<Rightarrow> (pytext \<times> pytext) option" where
  \<comment> \<open>symbol and timeframe of an event that has both and a \<open>ts\<close>\<close>
  "well_formed_event decoded =
     (case (dget decoded ''symbol'', dget decoded ''timeframe'') of
        (Some s, Some t) \<Rightarrow> if text_nonempty s \<and> text_nonempty t \<and> dhas decoded ''ts'' then Some (s, t) else None
      | _ \<Rightarrow> None)"

definition process_guarded ::
  "env \<Rightarrow> feature_config \<Rightarrow> string \<Rightarrow> fields \<Rightarrow> pytext \<Rightarrow> pytext \<Rightarrow> pytext \<Rightarrow> int \<Rightarrow> ('x, bool) feature_act" where
  \<comment> \<open>the \<open>try\<close> block: whether the event was processed\<close>
  "process_guarded ev cfg mid decoded symb tf cid deliveries =
     attempt (bnd (process_bar_event ev cfg symb tf cid) (\<lambda>_. ret True))
       (\<lambda>e. if \<not> is_exception e then throw e
            else if max_deliveries \<le> deliveries
            then bnd (dead_letter ev mid decoded ''max_deliveries'') (\<lambda>_.
                 bnd (feature_ack ev mid) (\<lambda>_. ret False))
            else ret False)"

definition feature_handle :: "env \<Rightarrow> feature_config \<Rightarrow> string \<Rightarrow> fields \<Rightarrow> ('x, unit) feature_act" where
  "feature_handle ev cfg mid decoded =
     bnd (get_or_create_correlation_id ev decoded) (\<lambda>cid.
     bnd (bind_correlation_id cid) (\<lambda>_.
     case well_formed_event decoded of
       None \<Rightarrow> bnd (dead_letter ev mid decoded ''malformed'') (\<lambda>_. unbind_correlation_id)
     | Some (symb, tf) \<Rightarrow>
         bnd (delivery_count ev (fc_codec cfg) mid) (\<lambda>deliveries.
         bnd (process_guarded ev cfg mid decoded symb tf cid deliveries) (\<lambda>ok.
         if \<not> ok then ret ()
         else
           bnd (feature_ack ev mid) (\<lambda>_.
           bnd (update (\<lambda>w. w\<lparr>fe_processed := Suc (fe_processed w)\<rparr>)) (\<lambda>_.
           unbind_correlation_id))))))"

definition feature_round :: "env \<Rightarrow> feature_config \<Rightarrow> ('x, unit) feature_act" where
  "feature_round ev cfg =
     bnd (read_group ev feature_stream feature_group) (\<lambda>response.
     case response of
       None \<Rightarrow> ret ()
     | Some ms \<Rightarrow> each (\<lambda>(mid, fs). feature_handle ev cfg mid fs) ms)"

fun feature_rounds :: "env \<Rightarrow> feature_config \<Rightarrow> nat \<Rightarrow> ('x, unit) feature_act" where
  "feature_rounds ev cfg 0 = ret ()"
| "feature_rounds ev cfg (Suc n) = bnd (feature_round ev cfg) (\<lambda>_. feature_rounds ev cfg n)"

definition feature_run_forever :: "env \<Rightarrow> feature_config \<Rightarrow> nat \<Rightarrow> ('x, unit) feature_act" where
  \<comment> \<open>the first \<open>n\<close> rounds\<close>
  "feature_run_forever ev cfg n =
     bnd (ensure_group ev feature_stream feature_group) (\<lambda>_. feature_rounds ev cfg n)"

definition feature_health :: "('x, json dict) feature_act" where
  "feature_health = look (\<lambda>w. [(''service'', JStr (T ''feature-service'')), (''status'', JStr (T ''ok'')),
     (''events_processed'', JInt (int (fe_processed w)))])"

subsection \<open>The type of a snapshot\<close>

lemma length_log_returns [simp]: "length (log_returns lib close) = length close"
  by (simp add: log_returns_def)

lemma length_atr: "atr high low close p = Inr a \<Longrightarrow> length high = length low \<Longrightarrow> length a = length high"
  by (auto simp: atr_def wilder_smooth_def res_bind_Inr_iff dest!: length_ema length_true_range split: if_splits)

lemma length_rsi: "rsi close p = Inr a \<Longrightarrow> 0 \<le> p \<Longrightarrow> length a = length close"
  by (auto simp: rsi_def wilder_smooth_def res_bind_Inr_iff Let_def dest!: length_ema split: if_splits)

lemma length_bollinger:
  "bollinger_bands lib close p k = Inr (m, u, l) \<Longrightarrow> 0 < p \<Longrightarrow>
     length m = length close \<and> length u = length close \<and> length l = length close"
  by (auto simp: bollinger_bands_def Let_def split: if_splits)

lemma length_realized_volatility:
  "realized_volatility lib xs n = Inr v \<Longrightarrow> 0 < n \<Longrightarrow> length v = length xs"
  by (auto simp: realized_volatility_def Let_def split: if_splits)

lemma length_stochastic:
  "stochastic lib high low close kp dp = Inr (k, d) \<Longrightarrow> 0 < kp \<Longrightarrow> 0 < dp \<Longrightarrow>
     length k = length high \<and> length d = length high"
  by (auto simp: stochastic_def Let_def res_bind_Inr_iff split: if_splits)

lemma build_frame_lengths:
  assumes "build_frame lib bars = Inr fr"
  shows "ff_close fr = map b_close bars" "\<And>s. s \<in> set (frame_series fr) \<Longrightarrow> length s = length bars"
    "ema (map b_close bars) 50 = Inr (ff_ema50 fr)" "bars \<noteq> []"
  using assms
  by (auto simp: build_frame_def Let_def res_bind_Inr_iff frame_series_def split: if_splits
      dest: length_ema length_rsi length_bollinger length_realized_volatility length_stochastic length_atr)

lemma is_fin_add: "is_fin (a + b) \<Longrightarrow> is_fin a \<and> is_fin b"
  by (cases a; cases b) (auto simp: f64_ops)

lemma is_fin_mult: "is_fin (a * b) \<Longrightarrow> is_fin a \<and> is_fin b"
  by (cases a; cases b) (auto simp: f64_ops inf_sign_def split: if_splits)

lemma ema_loop_last_fin: "xs \<noteq> [] \<Longrightarrow> is_fin (last (ema_loop a d v xs)) \<Longrightarrow> is_fin (last xs)"
proof (induction xs arbitrary: v)
  case (Cons x xs)
  show ?case
  proof (cases xs)
    case Nil
    then show ?thesis using Cons.prems is_fin_add [of "x * a"] is_fin_mult [of x a] by (auto simp: Let_def)
  next
    case (Cons y ys)
    have "ema_loop a d (x * a + d * v) xs \<noteq> []" using Cons by (simp add: Let_def)
    then show ?thesis using Cons Cons.IH [of "x * a + d * v"] Cons.prems by (simp add: Let_def)
  qed
qed simp

lemma ema_last_fin:
  assumes "ema xs p = Inr ys" "xs \<noteq> []" "is_fin (last ys)"
  shows "is_fin (last xs)"
proof -
  obtain v vs where xs: "xs = v # vs" using assms(2) by (cases xs) auto
  then obtain a d where "ys = v # ema_loop a d v vs"
    using assms(1) by (auto simp: ema_def res_bind_Inr_iff Let_def split: if_splits)
  then show ?thesis
    using assms(3) ema_loop_last_fin [of vs a d v] xs by (cases vs) (auto simp: Let_def)
qed

definition numeric_keys :: "string list" where
  "numeric_keys = [''close'', ''atr'', ''atr_norm'', ''rsi'', ''ema50'', ''ema200'', ''bb_upper'', ''bb_mid'', ''bb_lower'',
     ''stoch_k'', ''stoch_d'', ''log_return'', ''realized_vol'']"

definition snapshot_keys :: "string list" where
  "snapshot_keys = [''symbol'', ''timeframe'', ''ts''] @ numeric_keys @ [''swing_high'', ''swing_low'', ''zones'']"

lemma complete_series_fin:
  assumes "build_frame lib bars = Inr fr" "frame_is_complete fr warmup_index" "t \<in> set (frame_series fr)"
  shows "t \<noteq> [] \<and> is_fin (last t)"
proof -
  have n: "warmup_index < length bars"
    using assms(2) build_frame_lengths(1) [OF assms(1)] by (simp add: frame_is_complete_def frame_length_def)
  have l: "length t = length bars" by (rule build_frame_lengths(2) [OF assms(1,3)])
  then have d: "warmup_index < length t" using n by simp
  then have "t \<noteq> []" by auto
  moreover have "list_all is_fin (drop warmup_index t)"
    using assms(2,3) by (simp add: frame_is_complete_def list_all_iff)
  moreover have "drop warmup_index t \<noteq> []" using d by simp
  ultimately show ?thesis
    using last_drop [OF d] last_in_set [of "drop warmup_index t"] by (simp add: list_all_iff)
qed

lemma complete_close_fin:
  assumes "build_frame lib bars = Inr fr" "frame_is_complete fr warmup_index"
  shows "ff_close fr \<noteq> [] \<and> is_fin (last (ff_close fr))"
proof -
  have "ff_ema50 fr \<in> set (frame_series fr)" by (simp add: frame_series_def)
  then have "is_fin (last (ff_ema50 fr))" using complete_series_fin [OF assms] by blast
  moreover have "map b_close bars \<noteq> []" using build_frame_lengths(4) [OF assms(1)] by simp
  ultimately show ?thesis
    using ema_last_fin [OF build_frame_lengths(3) [OF assms(1)]] build_frame_lengths(1) [OF assms(1)] by simp
qed

lemma complete_columns_fin:
  assumes "build_frame lib bars = Inr fr" "frame_is_complete fr warmup_index" "s \<in> snd ` set (frame_columns fr)"
  shows "s \<noteq> [] \<and> is_fin (last s)"
proof -
  have "s = ff_close fr \<or> s \<in> set (frame_series fr)"
    using assms(3) unfolding frame_columns_def frame_series_def by (simp only: list.set image_insert image_empty snd_conv insert_iff)
  then show ?thesis
  proof
    assume "s = ff_close fr" then show ?thesis using complete_close_fin [OF assms(1,2)] by simp
  next
    assume "s \<in> set (frame_series fr)" then show ?thesis by (rule complete_series_fin [OF assms(1,2)])
  qed
qed

lemma numbers_of_columns:
  "res_map (\<lambda>(k, s). res_bind (last_num s) (\<lambda>v. Inr (k, v))) cs = Inr numbers \<Longrightarrow>
     numbers = map (\<lambda>(k, s). (k, JNum (last s))) cs"
  by (induction cs arbitrary: numbers) (auto simp: res_bind_Inr_iff last_num_def split: if_splits)

lemma length_build_zones:
  "build_zones lib default_zone_config ids op hi lo cl ts = Inr zs \<Longrightarrow> length zs \<le> 12"
  by (auto simp: build_zones_def Let_def res_bind_Inr_iff default_zone_config_def length_tail_slice split: if_splits)

lemma snapshot_shape:
  assumes "snapshot_from_bars lib ids bars symb tf = Inr row"
  obtains fr sh sl zs where "build_frame lib bars = Inr fr" "frame_is_complete fr warmup_index"
    "row = [(''symbol'', JStr symb), (''timeframe'', JStr tf), (''ts'', JStr (TIso (b_ts (last bars))))] @
       map (\<lambda>(k, s). (k, JNum (last s))) (frame_columns fr) @
       [(''swing_high'', json_opt JNum sh), (''swing_low'', json_opt JNum sl),
        (''zones'', JArr (map (\<lambda>z. JObj (zone_dump z)) (filter (\<lambda>z. z_state z \<noteq> BROKEN) zs)))]"
    "build_zones lib default_zone_config ids (ff_open fr) (ff_high fr) (ff_low fr) (ff_close fr) (ff_ts fr) = Inr zs"
    "warmup_index < length bars"
proof -
  have n: "\<not> length bars < warmup_index + 1" using assms by (auto simp: snapshot_from_bars_def)
  obtain fr where fr: "build_frame lib bars = Inr fr"
    using assms n unfolding snapshot_from_bars_def by (cases "build_frame lib bars") simp_all
  have c: "frame_is_complete fr warmup_index"
    using assms n fr unfolding snapshot_from_bars_def by (cases "frame_is_complete fr warmup_index") simp_all
  obtain sh sl where p: "latest_pivots lib (ff_high fr) (ff_low fr) 5 = Inr (sh, sl)"
    using assms n fr c unfolding snapshot_from_bars_def by (cases "latest_pivots lib (ff_high fr) (ff_low fr) 5") auto
  obtain zs where z: "build_zones lib default_zone_config ids (ff_open fr) (ff_high fr) (ff_low fr) (ff_close fr) (ff_ts fr) = Inr zs"
    using assms n fr c p unfolding snapshot_from_bars_def
    by (cases "build_zones lib default_zone_config ids (ff_open fr) (ff_high fr) (ff_low fr) (ff_close fr) (ff_ts fr)") simp_all
  obtain numbers where nums: "res_map (\<lambda>(k, s). res_bind (last_num s) (\<lambda>v. Inr (k, v))) (frame_columns fr) = Inr numbers"
    using assms n fr c p z unfolding snapshot_from_bars_def
    by (cases "res_map (\<lambda>(k, s). res_bind (last_num s) (\<lambda>v. Inr (k, v))) (frame_columns fr)") simp_all
  show ?thesis
    using that [OF fr c _ z, of sh sl] assms n fr c p z nums numbers_of_columns [OF nums]
    unfolding snapshot_from_bars_def by simp
qed

text \<open>
  C35. A snapshot that is returned has exactly the columns of the feature row, in order; its
  thirteen numeric columns are finite doubles, its timestamp is the one of the last bar, the pivots
  are numbers or null, and its zones are at most twelve, none of them broken. It exists only for a
  window of 200 bars or more.
\<close>

theorem snapshot_typed:
  assumes "snapshot_from_bars lib ids bars symb tf = Inr row"
  shows "200 \<le> length bars \<and> map fst row = snapshot_keys \<and>
    (\<forall>k \<in> set numeric_keys. \<exists>x. dget row k = Some (JNum (Fin x))) \<and>
    dget row ''symbol'' = Some (JStr symb) \<and> dget row ''timeframe'' = Some (JStr tf) \<and>
    dget row ''ts'' = Some (JStr (TIso (b_ts (last bars)))) \<and>
    (\<forall>k \<in> {''swing_high'', ''swing_low''}. dget row k = Some JNull \<or> (\<exists>x. dget row k = Some (JNum x))) \<and>
    (\<exists>zs. dget row ''zones'' = Some (JArr (map (\<lambda>z. JObj (zone_dump z)) zs)) \<and> length zs \<le> 12 \<and>
       list_all (\<lambda>z. z_state z \<noteq> BROKEN) zs)"
proof -
  obtain fr sh sl zs where fr: "build_frame lib bars = Inr fr" "frame_is_complete fr warmup_index"
    and row: "row = [(''symbol'', JStr symb), (''timeframe'', JStr tf), (''ts'', JStr (TIso (b_ts (last bars))))] @
       map (\<lambda>(k, s). (k, JNum (last s))) (frame_columns fr) @
       [(''swing_high'', json_opt JNum sh), (''swing_low'', json_opt JNum sl),
        (''zones'', JArr (map (\<lambda>z. JObj (zone_dump z)) (filter (\<lambda>z. z_state z \<noteq> BROKEN) zs)))]"
    and z: "build_zones lib default_zone_config ids (ff_open fr) (ff_high fr) (ff_low fr) (ff_close fr) (ff_ts fr) = Inr zs"
    and n: "warmup_index < length bars"
    by (rule snapshot_shape [OF assms])
  have fin: "\<exists>x. last s = Fin x" if "s \<in> snd ` set (frame_columns fr)" for s
    using complete_columns_fin [OF fr that] by (cases "last s") auto
  have "length (filter (\<lambda>z. z_state z \<noteq> BROKEN) zs) \<le> 12"
    using length_build_zones [OF z] length_filter_le [of "\<lambda>z. z_state z \<noteq> BROKEN" zs] by linarith
  moreover have "list_all (\<lambda>z. z_state z \<noteq> BROKEN) (filter (\<lambda>z. z_state z \<noteq> BROKEN) zs)"
    by (simp add: list_all_iff)
  moreover have "\<forall>k \<in> set numeric_keys. \<exists>x. dget row k = Some (JNum (Fin x))"
    using fin by (simp add: numeric_keys_def row frame_columns_def dget_def)
  moreover have "dget row ''swing_high'' = Some (json_opt JNum sh)" "dget row ''swing_low'' = Some (json_opt JNum sl)"
    by (simp_all add: row frame_columns_def dget_def)
  ultimately show ?thesis
    using n by (cases sh; cases sl) (simp_all add: row frame_columns_def dget_def snapshot_keys_def numeric_keys_def
      warmup_index_def json_opt_def exI [of _ "filter (\<lambda>z. z_state z \<noteq> BROKEN) zs"])
qed

text \<open>A window of 250 flat bars, for the witnesses.\<close>

definition flat_lib :: numlib where
  "flat_lib = \<lparr>lib_mean = hd, lib_std = (\<lambda>d xs. 0), lib_log = (\<lambda>x. 0), lib_convolve_same = (\<lambda>xs k. xs),
     lib_find_peaks = (\<lambda>d xs. [])\<rparr>"

definition flat_bars :: "nat \<Rightarrow> bar list" where
  "flat_bars n = map (\<lambda>i. \<lparr>b_ts = int i * 900000000, b_open = 1, b_high = 1, b_low = 1, b_close = 1, b_volume = 1\<rparr>) [0..<n]"

lemma flat_columns: "map b_open (flat_bars n) = replicate n 1" "map b_high (flat_bars n) = replicate n 1"
  "map b_low (flat_bars n) = replicate n 1" "map b_close (flat_bars n) = replicate n 1"
  by (simp_all add: flat_bars_def comp_def map_replicate_const)

lemma length_flat_bars [simp]: "length (flat_bars n) = n"
  by (simp add: flat_bars_def)

lemma shifted_replicate: "shifted (replicate n x) = replicate n x"
proof (cases n)
  case (Suc m)
  then have "butlast (replicate n x) = replicate m x" by (simp add: butlast_conv_take min_def del: replicate.simps)
  then show ?thesis using Suc by (simp add: shifted_def)
qed (simp add: shifted_def)

lemma windows_replicate: "p \<le> n \<Longrightarrow> windows p (replicate n x) = replicate (n + 1 - p) (replicate p x)"
  by (auto simp: windows_def list_eq_iff_nth_eq)

lemma np_max_ones: "np_max (replicate (Suc n) (1 :: f64)) = 1"
  by (induction n) (simp_all add: np_maximum_def f64_eval one_eq_Fin)

lemma np_min_ones: "np_min (replicate (Suc n) (1 :: f64)) = 1"
  by (induction n) (simp_all add: np_minimum_def f64_eval one_eq_Fin)

lemma ema_constant:
  assumes "1 \<le> p" "float_of_int p = Inr q" "x * (mk 2 / (q + 1)) + (1 - mk 2 / (q + 1)) * x = x"
  shows "ema (replicate n x) p = Inr (replicate n x)"
proof -
  have "ema_loop (mk 2 / (q + 1)) (1 - mk 2 / (q + 1)) x (replicate m x) = replicate m x" for m
    using assms(3) by (induction m) (simp_all add: Let_def)
  then show ?thesis using assms(1,2) by (cases n) (simp_all add: ema_def Let_def)
qed

definition ema_step :: "f64 \<Rightarrow> f64 \<Rightarrow> f64" where
  "ema_step q x = x * (mk 2 / (q + 1)) + (1 - mk 2 / (q + 1)) * x"

lemma ema_step_50: "ema_step (Fin 50) 1 = 1"
  by (simp add: ema_step_def one_eq_Fin f64_eval)

lemma ema_step_200: "ema_step (Fin 200) 1 = 1"
  by (simp add: ema_step_def one_eq_Fin f64_eval)

lemma ema_step_27: "ema_step (Fin 27) 0 = 0"
  by (simp add: ema_step_def one_eq_Fin zero_eq_Fin f64_eval)

lemma float_of_ints: "float_of_int 50 = Inr (Fin 50)" "float_of_int 200 = Inr (Fin 200)" "float_of_int 27 = Inr (Fin 27)"
  by (simp_all add: float_of_int_def f64_eval)

lemma ema_ones: "ema (replicate n 1) 50 = Inr (replicate n 1)" "ema (replicate n 1) 200 = Inr (replicate n 1)"
  using ema_constant [OF _ float_of_ints(1) ema_step_50 [unfolded ema_step_def]]
    ema_constant [OF _ float_of_ints(2) ema_step_200 [unfolded ema_step_def]] by simp_all

lemma ema_zeros: "ema (replicate n 0) 27 = Inr (replicate n 0)"
  using ema_constant [OF _ float_of_ints(3) ema_step_27 [unfolded ema_step_def]] by simp

lemma flat_atr:
  assumes "0 < n"
  shows "atr (replicate n 1) (replicate n 1) (replicate n 1) 14 = Inr ((replicate n 0)[0 := NaN])"
proof -
  have d: "(1::f64) - 1 = 0" "\<bar>0::f64\<bar> = 0" "np_maximum 0 0 = (0::f64)" "np_maximum (np_maximum 0 0) 0 = (0::f64)"
    by (simp_all add: one_eq_Fin zero_eq_Fin np_maximum_def f64_eval)
  have tl: "0 # tl (replicate n 0) = (replicate n 0 :: f64 list)" using assms by (cases n) simp_all
  have "true_range (replicate n 1) (replicate n 1) (replicate n 1) = Inr (replicate n 0)"
    using assms tl by (simp add: true_range_def np_bin_def shifted_replicate d hd_replicate)
  then show ?thesis using assms ema_zeros [of n] by (simp add: atr_def wilder_smooth_def)
qed

lemma flat_rsi:
  assumes "14 < n"
  shows "rsi (replicate n 1) 14 = Inr (nans 14 @ replicate (n - 14) (mk 100))"
proof -
  have d: "(1::f64) - 1 = 0" "\<not> (0::f64) < 0" "rsi_value 0 0 = mk 100"
    by (simp_all add: one_eq_Fin zero_eq_Fin rsi_value_def f64_eval)
  have "replicate n 1 \<noteq> ([] :: f64 list)" using assms by auto
  then show ?thesis using assms ema_zeros [of n]
    by (simp add: rsi_def wilder_smooth_def shifted_replicate d Let_def)
qed

lemma flat_log_returns: "0 < n \<Longrightarrow> log_returns flat_lib (replicate n 1) = replicate n 0"
  by (simp add: log_returns_def shifted_replicate flat_lib_def map_replicate_const list_eq_iff_nth_eq nth_list_update)

lemma flat_bollinger:
  assumes "20 \<le> n"
  shows "bollinger_bands flat_lib (replicate n 1) 20 (mk 2) =
    Inr (nans 19 @ replicate (n - 19) 1, nans 19 @ replicate (n - 19) 1, nans 19 @ replicate (n - 19) 1)"
proof -
  have d: "1 + mk 2 * 0 = (1::f64)" "1 - mk 2 * 0 = (1::f64)"
    by (simp_all add: one_eq_Fin zero_eq_Fin f64_eval)
  show ?thesis using assms
    by (simp add: bollinger_bands_def Let_def windows_replicate flat_lib_def d hd_replicate Suc_diff_le)
qed

lemma flat_volatility:
  assumes "21 \<le> n"
  shows "realized_volatility flat_lib (replicate n 0) 21 = Inr (nans 20 @ replicate (n - 20) 0)"
  using assms by (simp add: realized_volatility_def Let_def windows_replicate flat_lib_def Suc_diff_le)

lemma flat_stochastic:
  assumes "20 \<le> n"
  shows "stochastic flat_lib (replicate n 1) (replicate n 1) (replicate n 1) 14 3 =
    Inr (nans 13 @ replicate (n - 13) (mk 50), nans 15 @ replicate (n - 15) (mk 50))"
proof -
  have d: "(1::f64) - 1 = 0" "\<not> (0::f64) < 0"
    by (simp_all add: one_eq_Fin zero_eq_Fin f64_eval)
  have m: "np_max (replicate 14 (1::f64)) = 1" "np_min (replicate 14 (1::f64)) = 1"
    using np_max_ones [of 13] np_min_ones [of 13] by (simp_all add: eval_nat_numeral)
  have "\<not> n - 13 < 3" using assms by linarith
  then show ?thesis using assms
    by (simp add: stochastic_def Let_def windows_replicate flat_lib_def d m np_bin_def hd_replicate Suc_diff_le)
qed

definition flat_frame :: feature_frame where
  "flat_frame = \<lparr>ff_ts = to_ns_array (flat_bars 250), ff_open = replicate 250 1, ff_high = replicate 250 1,
     ff_low = replicate 250 1, ff_close = replicate 250 1, ff_atr = (replicate 250 0)[0 := NaN],
     ff_atr_norm = (replicate 250 0)[0 := NaN], ff_rsi = nans 14 @ replicate 236 (mk 100),
     ff_ema50 = replicate 250 1, ff_ema200 = replicate 250 1,
     ff_bb_upper = nans 19 @ replicate 231 1, ff_bb_mid = nans 19 @ replicate 231 1, ff_bb_lower = nans 19 @ replicate 231 1,
     ff_stoch_k = nans 13 @ replicate 237 (mk 50), ff_stoch_d = nans 15 @ replicate 235 (mk 50),
     ff_log_return = replicate 250 0, ff_realized_vol = nans 20 @ replicate 230 0\<rparr>"

lemma build_flat_frame: "build_frame flat_lib (flat_bars 250) = Inr flat_frame"
proof -
  have "map2 (\<lambda>a c. if 0 < c then a / c else NaN) ((replicate 250 0)[0 := NaN]) (replicate 250 (1::f64)) = (replicate 250 0)[0 := NaN]"
    by (simp add: list_eq_iff_nth_eq nth_list_update one_eq_Fin zero_eq_Fin f64_eval)
  moreover have "flat_bars 250 \<noteq> []" by (simp add: flat_bars_def)
  ultimately show ?thesis
    by (simp add: build_frame_def flat_columns Let_def flat_log_returns flat_atr flat_rsi ema_ones flat_bollinger
        flat_stochastic flat_volatility flat_frame_def)
qed

lemma flat_frame_complete: "frame_is_complete flat_frame warmup_index"
  by (simp add: frame_is_complete_def frame_length_def frame_series_def flat_frame_def warmup_index_def
      list_all_iff drop_update_cancel nans_def f64_eval)

lemma scan_zones_none: "list_all Not impulse \<Longrightarrow> n \<le> length impulse \<Longrightarrow> scan_zones cfg impulse body avg new_zone ids n k i = []"
proof (induction cfg impulse body avg new_zone ids n k i rule: scan_zones.induct)
  case (1 cfg impulse body avg new_zone ids n k i)
  then show ?case by (subst scan_zones.simps) (auto simp: list_all_length)
qed

lemma flat_zones:
  "build_zones flat_lib default_zone_config ids (replicate 250 1) (replicate 250 1) (replicate 250 1) (replicate 250 1)
     (to_ns_array (flat_bars 250)) = Inr []"
proof -
  let ?c = "impulse_body_atr_mult default_zone_config"
  have d: "\<bar>1 - (1::f64)\<bar> = 0" by (simp add: one_eq_Fin zero_eq_Fin f64_eval)
  have a: "atr (replicate 250 1) (replicate 250 1) (replicate 250 1) (int (atr_period default_zone_config)) =
      Inr ((replicate 250 0)[0 := NaN])"
    using flat_atr [of 250] by (simp add: default_zone_config_def)
  have z: "?c * 0 = 0" "nan_to_num NaN = 0" "nan_to_num 0 = 0" "0 * mk (3 / 2) = (0 :: f64)" "np_maximum 0 0 = 0" "\<not> (0::f64) < 0"
    by (simp_all add: default_zone_config_def zero_eq_Fin nan_to_num_def np_maximum_def f64_eval)
  have t: "map (\<lambda>a. ?c * nan_to_num a) ((replicate 250 0)[0 := NaN]) = replicate 250 0"
    by (simp add: list_eq_iff_nth_eq nth_list_update z)
  have "list_all Not (replicate 250 False)" by (simp add: list_all_iff)
  then have s: "scan_zones default_zone_config (replicate 250 False) b v nz ids 250 0 i = []" for b v nz i
    by (rule scan_zones_none) simp
  have l: "length (to_ns_array (flat_bars 250)) = 250" by (simp add: to_ns_array_def)
  show ?thesis
    unfolding build_zones_def Let_def a t
    by (simp add: l d a t z s np_bin_def flat_lib_def default_zone_config_def [THEN arg_cong [of _ _ atr_period]] tail_slice_def)
qed

lemma flat_snapshot:
  "snapshot_from_bars flat_lib ids (flat_bars 250) symb tf = Inr
     ([(''symbol'', JStr symb), (''timeframe'', JStr tf), (''ts'', JStr (TIso (249 * 900000000)))] @
      map (\<lambda>(k, s). (k, JNum (last s))) (frame_columns flat_frame) @
      [(''swing_high'', JNull), (''swing_low'', JNull), (''zones'', JArr [])])"
proof -
  have p: "latest_pivots flat_lib (ff_high flat_frame) (ff_low flat_frame) 5 = Inr (None, None)"
    by (simp add: latest_pivots_def detect_swings_def flat_frame_def flat_lib_def Let_def sort_key_def last_opt_def)
  have z: "build_zones flat_lib default_zone_config ids (ff_open flat_frame) (ff_high flat_frame) (ff_low flat_frame)
      (ff_close flat_frame) (ff_ts flat_frame) = Inr []"
    using flat_zones by (simp add: flat_frame_def)
  have c: "res_map (\<lambda>(k, s). res_bind (last_num s) (\<lambda>v. Inr (k, v))) (frame_columns flat_frame) =
      Inr (map (\<lambda>(k, s). (k, JNum (last s))) (frame_columns flat_frame))"
    by (simp add: frame_columns_def last_num_def flat_frame_def)
  have "last (flat_bars 250) = flat_bars 250 ! 249" by (subst last_conv_nth) (simp_all add: flat_bars_def)
  then have ts: "b_ts (last (flat_bars 250)) = 249 * 900000000" by (simp add: flat_bars_def)
  show ?thesis
    unfolding snapshot_from_bars_def
    by (simp add: build_flat_frame flat_frame_complete [unfolded warmup_index_def] p z c ts json_opt_def warmup_index_def)
qed

theorem snapshot_typed_witness:
  "\<exists>row x. snapshot_from_bars flat_lib (\<lambda>_. ''z'') (flat_bars 250) (T ''EURUSD'') (T ''M15'') = Inr row \<and>
     map fst row = snapshot_keys \<and> dget row ''rsi'' = Some (JNum (Fin x))"
  using snapshot_typed [OF flat_snapshot [of "\<lambda>_. ''z''" "T ''EURUSD''" "T ''M15''"]] flat_snapshot
  by (fastforce simp: numeric_keys_def)

subsection \<open>Acknowledgement of an event\<close>

text \<open>
  A \<open>str\<close> has no \<open>decode\<close>: dead-lettering raises before anything is written, so a malformed
  event and one that failed three times stop the consumer and stay pending.
\<close>

lemma dead_letter_raises: "dead_letter ev mid fs reason = throw (AttributeError ''decode'')"
  by (rule ext) (simp add: dead_letter_def decode_id_def bnd_def)

lemma malformed_event_raises:
  assumes "well_formed_event decoded = None" "\<And>l. \<exists>t. ans_text (reply ev l NewId) = Inr (Some t)"
  shows "\<exists>w'. feature_handle ev cfg mid decoded w = (Inl (AttributeError ''decode''), w')"
proof -
  obtain t where "ans_text (reply ev (log w) NewId) = Inr (Some t)" using assms(2) by blast
  then show ?thesis
    using assms(1) by (auto simp: feature_handle_def dead_letter_raises bnd_def get_or_create_correlation_id_def
      new_correlation_id_def bind_correlation_id_def call_run split: option.splits)
qed

definition entry_of :: "json dict \<Rightarrow> fields \<Rightarrow> bool" where
  \<comment> \<open>the stream fields of an event\<close>
  "entry_of event entry \<longleftrightarrow> (\<exists>cid. entry = dset (map (\<lambda>(k, v). (k, py_str v)) event) ''correlation_id'' cid)"

lemma keeps_fetch_bars [intro!]: "keeps (log_grows (\<lambda>c. \<not> is_ack c)) (fetch_bars ev cd symb tf n)"
  unfolding fetch_bars_def by auto

lemma keeps_process_bar_event [intro!]:
  "keeps (log_grows (\<lambda>c. \<not> is_ack c)) (process_bar_event ev cfg symb tf cid)"
  unfolding process_bar_event_def snapshot_now_def upsert_feature_row_def by auto

lemma bnd_throw: "bnd (throw e) f = throw e"
  by (rule ext) (simp add: bnd_def)

lemma keeps_process_guarded [intro!]:
  "keeps (log_grows (\<lambda>c. \<not> is_ack c)) (process_guarded ev cfg mid decoded symb tf cid n)"
  unfolding process_guarded_def dead_letter_raises bnd_throw by auto

lemma process_guarded_True:
  "process_guarded ev cfg mid decoded symb tf cid n w = (Inr True, v) \<Longrightarrow>
     \<exists>snap. process_bar_event ev cfg symb tf cid w = (Inr snap, v)"
  unfolding process_guarded_def dead_letter_raises bnd_throw
  by (erule attempt_cases) (auto simp: bnd_Inr_iff split: if_splits)

text \<open>What a processed event wrote: nothing on a short history, else the row and then the entry.\<close>

lemma process_bar_event_writes:
  assumes "process_bar_event ev cfg symb tf cid w = (Inr snap, v)"
  shows "(snap = [] \<and> (\<exists>bars u. fetch_bars ev (fc_codec cfg) symb tf feature_window_bars w = (Inr bars, u) \<and> length bars < min_bars)) \<or>
    (\<exists>ids bars pre mids event entry. snapshot_from_bars (fc_lib cfg) ids bars symb tf = Inr snap \<and> min_bars \<le> length bars \<and>
       feature_event (fc_codec cfg) symb tf snap = Inr event \<and>
       entry_of event entry \<and> set mids \<subseteq> {NewId} \<and>
       log v = log w @ pre @ SqlRun ''upsert_feature'' (upsert_payload snap) # mids @ [XAdd feature_out entry])"
proof -
  obtain bars u where bars: "fetch_bars ev (fc_codec cfg) symb tf feature_window_bars w = (Inr bars, u)"
    and rest: "(if length bars < min_bars then ret []
     else
       bnd (snapshot_now cfg bars symb tf) (\<lambda>snap.
       bnd (upsert_feature_row ev snap) (\<lambda>_.
       bnd (lift_res (feature_event (fc_codec cfg) symb tf snap)) (\<lambda>event.
       bnd (stream_fields ev event (Some cid)) (\<lambda>entry.
       bnd (call ev ans_unit (XAdd feature_out entry)) (\<lambda>_.
       ret snap)))))) u = (Inr snap, v)"
    using assms unfolding process_bar_event_def bnd_Inr_iff by blast
  show ?thesis
  proof (cases "length bars < min_bars")
    case True
    then show ?thesis using bars rest by auto
  next
    case False
    then obtain ids event entry u1 u2 where
      s: "snapshot_from_bars (fc_lib cfg) ids bars symb tf = Inr snap"
      and up: "upsert_feature_row ev snap u = (Inr (), u1)"
      and fe: "feature_event (fc_codec cfg) symb tf snap = Inr event"
      and sf: "stream_fields ev event (Some cid) u1 = (Inr entry, u2)"
      and x: "call ev ans_unit (XAdd feature_out entry) u2 = (Inr (), v)"
      using rest by (auto simp: bnd_Inr_iff snapshot_now_def)
    obtain u0 where u0: "db_ensure ev u = (Inr (), u0)"
      and l1: "log u1 = log u0 @ [SqlRun ''upsert_feature'' (upsert_payload snap)]"
      using up by (auto simp: upsert_feature_row_def bnd_Inr_iff call_run)
    obtain pre where "log u0 = log w @ pre"
      using keepsD [OF keeps_fetch_bars bars] keepsD [OF lgc.keeps_db_ensure [of "\<lambda>c. True"] u0] by (auto simp: log_grows_def)
    then have "log u1 = log w @ pre @ [SqlRun ''upsert_feature'' (upsert_payload snap)]" using l1 by simp
    moreover obtain mids where "log u2 = log u1 @ mids" "set mids \<subseteq> {NewId}"
      using sf unfolding stream_fields_def new_correlation_id_def
      by (auto simp: bnd_Inr_iff call_run split: if_splits option.splits)
    moreover have "entry_of event entry" using stream_fields_value [OF sf] by (simp add: entry_of_def)
    ultimately show ?thesis using s fe x False
      by (intro disjI2 exI [of _ ids] exI [of _ bars] exI [of _ pre] exI [of _ mids] exI [of _ event] exI [of _ entry])
        (auto simp: call_run)
  qed
qed

lemma keeps_delivery_count [intro!]: "keeps (log_grows (\<lambda>c. \<not> is_ack c)) (delivery_count ev cd mid)"
  unfolding delivery_count_def by (auto split: option.split json.split list.split)

text \<open>An acknowledgement is written by the last branch of the handler only.\<close>

lemma feature_handle_acks:
  fixes w w' :: "'x feature_world_scheme"
  assumes "feature_handle ev cfg mid decoded w = (r, w')" "XAck st g i \<in> set (new_calls w w')"
  shows "\<exists>symb tf cid snap v0 v1 v2. well_formed_event decoded = Some (symb, tf) \<and>
    log_grows (\<lambda>c. \<not> is_ack c) w v0 \<and> log_grows (\<lambda>c. \<not> is_ack c) v0 (v1 :: 'x feature_world_scheme) \<and>
    process_bar_event ev cfg symb tf cid v1 = (Inr snap, v2) \<and>
    log w' = log v2 @ [XAck feature_stream feature_group mid]"
proof -
  have none: False if "log_grows (\<lambda>c. \<not> is_ack c) w w'" using log_grows_new_calls [OF that] assms(2) by fastforce
  have calm_id: "keeps (log_grows (\<lambda>c. \<not> is_ack c)) (get_or_create_correlation_id ev decoded)" by auto
  obtain rc v where rc: "get_or_create_correlation_id ev decoded w = (rc, v)" by (metis surj_pair)
  have calm0: "log_grows (\<lambda>c. \<not> is_ack c) w v" by (rule keepsD [OF calm_id rc])
  obtain cid where "rc = Inr cid"
    using assms(1) rc none calm0 by (cases rc) (auto simp: feature_handle_def bnd_def)
  with rc have cid: "get_or_create_correlation_id ev decoded w = (Inr cid, v)" by simp
  let ?v0 = "v\<lparr>ctx := Some cid\<rparr>"
  show ?thesis
  proof (cases "well_formed_event decoded")
    case None
    then have "w' = ?v0"
      using assms(1) cid by (simp add: feature_handle_def bnd_def bind_correlation_id_def dead_letter_raises)
    then show ?thesis using none calm0 by (simp add: log_grows_def)
  next
    case (Some st')
    obtain symb tf where wf: "well_formed_event decoded = Some (symb, tf)" using Some by (cases st') simp
    obtain rn v1 where n: "delivery_count ev (fc_codec cfg) mid ?v0 = (rn, v1)" by (metis surj_pair)
    have calm1: "log_grows (\<lambda>c. \<not> is_ack c) ?v0 v1" by (rule keepsD [OF keeps_delivery_count n])
    have c01: "log_grows (\<lambda>c. \<not> is_ack c) w v1" using calm0 calm1 by (auto simp: log_grows_def)
    obtain d where d: "rn = Inr d"
      using assms(1) cid wf n none c01
      by (cases rn) (auto simp: feature_handle_def bnd_def bind_correlation_id_def)
    obtain rk v2 where g: "process_guarded ev cfg mid decoded symb tf cid d v1 = (rk, v2)" by (metis surj_pair)
    have "log_grows (\<lambda>c. \<not> is_ack c) v1 v2" by (rule keepsD [OF keeps_process_guarded g])
    with c01 have c02: "log_grows (\<lambda>c. \<not> is_ack c) w v2" by (auto simp: log_grows_def)
    have "rk = Inr True"
      using assms(1) cid wf n d g none c02
      by (cases rk) (auto simp: feature_handle_def bnd_def bind_correlation_id_def split: if_splits)
    moreover from this obtain snap where "process_bar_event ev cfg symb tf cid v1 = (Inr snap, v2)"
      using process_guarded_True g by blast
    moreover have "log w' = log v2 @ [XAck feature_stream feature_group mid]"
      using assms(1) cid wf n d g calculation(1)
      by (auto simp: feature_handle_def bnd_def bind_correlation_id_def feature_ack_def call_run
          unbind_correlation_id_def split: sum.splits)
    moreover have "log_grows (\<lambda>c. \<not> is_ack c) w ?v0" using calm0 by (simp add: log_grows_def)
    ultimately show ?thesis using wf calm1 by blast
  qed
qed


text \<open>A run over the flat window.\<close>

definition flat_row :: "bar \<Rightarrow> json list" where
  "flat_row b = [JInt (b_ts b), JNum (b_open b), JNum (b_high b), JNum (b_low b), JNum (b_close b), JInt (b_volume b)]"

definition flat_env :: env where
  "flat_env = \<lparr>reply = (\<lambda>l c. case c of
       SqlRows n ps \<Rightarrow> ARows (map flat_row (rev (flat_bars 250)))
     | SqlRun n ps \<Rightarrow> if n = ''closed'' then AInt 0 else AUnit
     | RedisCmd n ps \<Rightarrow> AJson (JArr [])
     | NewId \<Rightarrow> AText (T ''c9'') | _ \<Rightarrow> AUnit)\<rparr>"

definition flat_config :: feature_config where
  "flat_config = \<lparr>fc_lib = flat_lib, fc_codec = \<lparr>cd_json = (\<lambda>t. Inl JSONDecodeError), cd_float = (\<lambda>t. Inl (ValueError ''float'')),
       cd_int = (\<lambda>t. Inl (ValueError ''int'')), cd_signal = (\<lambda>v. Inl (ValueError ''signal'')),
       cd_order = (\<lambda>v. Inl (ValueError ''order''))\<rparr>, fc_ids = (\<lambda>l n. ''z'')\<rparr>"

definition flat_event :: fields where
  "flat_event = [(''symbol'', T ''Volatility 75 Index''), (''timeframe'', T ''M15''), (''ts'', TInt 0), (''correlation_id'', T ''c1'')]"

definition flat_world :: "feature_world" where
  "flat_world = \<lparr>log = [], ctx = None, conn = True, fe_processed = 0\<rparr>"

lemma flat_replies [simp]:
  "reply flat_env l (SqlRows n ps) = ARows (map flat_row (rev (flat_bars 250)))"
  "reply flat_env l (SqlRun n ps) = (if n = ''closed'' then AInt 0 else AUnit)"
  "reply flat_env l (RedisCmd n ps) = AJson (JArr [])"
  "reply flat_env l (XAdd s fs) = AUnit" "reply flat_env l (XAck s g i) = AUnit"
  by (simp_all add: flat_env_def)

lemma flat_settings [simp]: "fc_lib flat_config = flat_lib" "fc_ids flat_config l = (\<lambda>n. ''z'')"
  by (simp_all add: flat_config_def)

lemma flat_rows_read: "res_map (bar_of_row cd) (map flat_row bs) = Inr bs"
  by (induction bs) (simp_all add: bar_of_row_def flat_row_def row_item_def row_float_def row_volume_def eval_nat_numeral)

lemma flat_feature_event:
  "\<exists>snap event. snapshot_from_bars flat_lib ids (flat_bars 250) symb tf = Inr snap \<and>
     feature_event cd symb tf snap = Inr event"
  unfolding flat_snapshot by (simp add: feature_event_def getitem_def frame_columns_def)

lemma flat_process:
  fixes w :: feature_world
  assumes "conn w"
  shows "\<exists>snap l. process_bar_event flat_env flat_config symb tf (T ''c1'') w = (Inr snap, w\<lparr>log := l\<rparr>)"
proof -
  obtain snap event where s: "snapshot_from_bars flat_lib (\<lambda>n. ''z'') (flat_bars 250) symb tf = Inr snap"
    "feature_event (fc_codec flat_config) symb tf snap = Inr event"
    using flat_feature_event by blast

  obtain l where f: "fetch_bars flat_env (fc_codec flat_config) symb tf feature_window_bars w = (Inr (flat_bars 250), w\<lparr>log := l\<rparr>)"
    using assms by (simp add: fetch_bars_def db_ensure_def db_unusable_def bnd_def call_run rev_map flat_rows_read)
  show ?thesis
    using assms s by (simp add: process_bar_event_def bnd_def f min_bars_def snapshot_now_def
        upsert_feature_row_def db_ensure_def db_unusable_def call_run stream_fields_def)
      (rule exI, rule refl)
qed


end
