(* ===== verification/RateLimit.thy ===== *)
theory RateLimit
  imports Bus Rows
begin

text \<open>
  \<open>api-gateway/app/rate_limiter.py\<close>: the sliding-window limiter over a Redis sorted set. Redis is
  not part of the repository: its sorted-set commands are the record \<open>zset_api\<close>, and the locale
  \<open>sorted_set\<close> states what the limiter relies on. The repository's own double, \<open>FakeRedis\<close> of
  \<open>api-gateway/tests/fakes.py\<close>, provides it. The limiter is shown to refine a log of requests.
\<close>

subsection \<open>Sorted sets\<close>

text \<open>
  The commands of one check, run at the instant \<open>t\<close> (epoch milliseconds) of the server's clock:
  \<open>zremrangebyscore key -inf b\<close>, \<open>zadd key {m: x}\<close>, \<open>zcard key\<close>, \<open>expire key secs\<close> and
  \<open>zrange key 0 0 withscores\<close>.
\<close>

record 's zset_api =
  z_prune :: "int \<Rightarrow> string \<Rightarrow> int \<Rightarrow> 's \<Rightarrow> 's"
  z_add :: "int \<Rightarrow> string \<Rightarrow> string \<Rightarrow> int \<Rightarrow> 's \<Rightarrow> 's"
  z_card :: "int \<Rightarrow> string \<Rightarrow> 's \<Rightarrow> nat"
  z_expire :: "int \<Rightarrow> string \<Rightarrow> int \<Rightarrow> 's \<Rightarrow> 's"
  z_first :: "int \<Rightarrow> string \<Rightarrow> 's \<Rightarrow> (string \<times> int) list"

text \<open>
  \<open>content s k t\<close> is what key \<open>k\<close> holds at instant \<open>t\<close>: members with their scores. An expired
  key may be gone from its deadline on.
\<close>

locale sorted_set =
  fixes api :: "'s zset_api"
    and content :: "'s \<Rightarrow> string \<Rightarrow> int \<Rightarrow> (string \<times> int) set"
    and invar :: "'s \<Rightarrow> bool"
  assumes content_finite: "invar s \<Longrightarrow> finite (content s k t)"
    and invar_prune: "invar s \<Longrightarrow> invar (z_prune api t k b s)"
    and invar_add: "invar s \<Longrightarrow> invar (z_add api t k m x s)"
    and invar_expire: "invar s \<Longrightarrow> invar (z_expire api t k secs s)"
    and content_prune: "invar s \<Longrightarrow> content (z_prune api t k b s) k t = {(m, x) \<in> content s k t. b < x}"
    and content_add: "invar s \<Longrightarrow>
      content (z_add api t k m x s) k t = insert (m, x) {(m', x') \<in> content s k t. m' \<noteq> m}"
    and content_expire: "invar s \<Longrightarrow> t \<le> t' \<Longrightarrow> t' < t + 1000 * secs \<Longrightarrow>
      content (z_expire api t k secs s) k t' = content s k t"
    and content_expired: "invar s \<Longrightarrow> t \<le> t' \<Longrightarrow>
      content (z_expire api t k secs s) k t' = content s k t \<or> content (z_expire api t k secs s) k t' = {}"
    and content_other: "invar s \<Longrightarrow> k' \<noteq> k \<Longrightarrow> content (z_prune api t k b s) k' t' = content s k' t'"
      "invar s \<Longrightarrow> k' \<noteq> k \<Longrightarrow> content (z_add api t k m x s) k' t' = content s k' t'"
      "invar s \<Longrightarrow> k' \<noteq> k \<Longrightarrow> content (z_expire api t k secs s) k' t' = content s k' t'"
    and card_content: "invar s \<Longrightarrow> z_card api t k s = card (content s k t)"
    and first_empty: "invar s \<Longrightarrow> content s k t = {} \<Longrightarrow> z_first api t k s = []"
    and first_least: "invar s \<Longrightarrow> content s k t \<noteq> {} \<Longrightarrow>
      \<exists>m. z_first api t k s = [(m, Min (snd ` content s k t))]"

subsection \<open>The limiter\<close>

record limiter =
  lim_limit :: int
  lim_window_s :: int

definition window_ms :: "limiter \<Rightarrow> int" where
  "window_ms lm = lim_window_s lm * 1000"

record rate_decision =
  allowed :: bool
  remaining :: int
  retry_after_s :: int

definition rate_key :: "string \<Rightarrow> string" where
  "rate_key subject = ''rate:'' @ subject"

definition rate_member :: "int \<Rightarrow> string \<Rightarrow> string" where
  "rate_member now_ms uid = int_str now_ms @ ''-'' @ uid"

definition retry_after :: "limiter \<Rightarrow> f64 \<Rightarrow> int \<Rightarrow> int res" where
  \<comment> \<open>\<open>max(1, ceil((oldest_ms + window_ms - now_ms) / 1000))\<close>; \<open>oldest_ms\<close> is a float\<close>
  "retry_after lm oldest_ms now_ms =
     res_bind (py_ceil ((oldest_ms + mk (of_int (window_ms lm)) - mk (of_int now_ms)) / Fin 1000))
       (\<lambda>c. Inr (max 1 c))"

definition oldest_score :: "limiter \<Rightarrow> int \<Rightarrow> (string \<times> int) list \<Rightarrow> f64" where
  "oldest_score lm now_ms oldest =
     (case oldest of [] \<Rightarrow> mk (of_int (now_ms - window_ms lm)) | (m, x) # rest \<Rightarrow> mk (of_int x))"

definition check_at :: "'s zset_api \<Rightarrow> limiter \<Rightarrow> int \<Rightarrow> string \<Rightarrow> string \<Rightarrow> 's \<Rightarrow> rate_decision res \<times> 's" where
  \<comment> \<open>\<open>check\<close> at \<open>now_ms\<close> with the fresh suffix \<open>uid\<close>, when every command answers\<close>
  "check_at api lm now_ms uid subject s =
     (let key = rate_key subject;
          window_start = now_ms - window_ms lm;
          s1 = z_prune api now_ms key window_start s;
          s2 = z_add api now_ms key (rate_member now_ms uid) now_ms s1;
          count = int (z_card api now_ms key s2);
          s3 = z_expire api now_ms key (lim_window_s lm) s2
      in if count \<le> lim_limit lm
         then (Inr \<lparr>allowed = True, remaining = max (lim_limit lm - count) 0, retry_after_s = 0\<rparr>, s3)
         else
           (res_bind (retry_after lm (oldest_score lm now_ms (z_first api now_ms key s3)) now_ms)
              (\<lambda>r. Inr \<lparr>allowed = False, remaining = 0, retry_after_s = r\<rparr>), s3))"

text \<open>The whole method, each command a round trip that may fail.\<close>

record 's limiter_world = world +
  lw_store :: 's

definition redis_step ::
  "env \<Rightarrow> string \<Rightarrow> string \<Rightarrow> ('s \<Rightarrow> 's) \<Rightarrow> (('s, 'x) limiter_world_ext, unit) act" where
  "redis_step ev cmd key f =
     bnd (call ev ans_unit (RedisZ cmd key)) (\<lambda>_. update (\<lambda>w. w\<lparr>lw_store := f (lw_store w)\<rparr>))"

definition redis_read ::
  "env \<Rightarrow> string \<Rightarrow> string \<Rightarrow> ('s \<Rightarrow> 'a) \<Rightarrow> (('s, 'x) limiter_world_ext, 'a) act" where
  "redis_read ev cmd key f = bnd (call ev ans_unit (RedisZ cmd key)) (\<lambda>_. look (\<lambda>w. f (lw_store w)))"

definition fresh_suffix :: "env \<Rightarrow> ('x, string) act" where
  \<comment> \<open>\<open>uuid4().hex[:8]\<close>\<close>
  "fresh_suffix ev =
     bnd (call ev ans_text NewId) (\<lambda>t. case t of None \<Rightarrow> throw BadAnswer
       | Some t \<Rightarrow> (case text_plain t of None \<Rightarrow> throw BadAnswer | Some s \<Rightarrow> ret (take 8 s)))"

definition record_request ::
  "env \<Rightarrow> 's zset_api \<Rightarrow> limiter \<Rightarrow> string \<Rightarrow> int \<Rightarrow> string \<Rightarrow> (('s, 'x) limiter_world_ext, int) act" where
  \<comment> \<open>prune, add, count, expire; the count\<close>
  "record_request ev api lm key now_ms uid =
     bnd (redis_step ev ''zremrangebyscore'' key (z_prune api now_ms key (now_ms - window_ms lm))) (\<lambda>_.
     bnd (redis_step ev ''zadd'' key (z_add api now_ms key (rate_member now_ms uid) now_ms)) (\<lambda>_.
     bnd (redis_read ev ''zcard'' key (\<lambda>s. int (z_card api now_ms key s))) (\<lambda>count.
     bnd (redis_step ev ''expire'' key (z_expire api now_ms key (lim_window_s lm))) (\<lambda>_.
     ret count))))"

definition rate_verdict ::
  "env \<Rightarrow> 's zset_api \<Rightarrow> limiter \<Rightarrow> string \<Rightarrow> int \<Rightarrow> int \<Rightarrow> (('s, 'x) limiter_world_ext, rate_decision) act" where
  "rate_verdict ev api lm key now_ms count =
     (if count \<le> lim_limit lm
      then ret \<lparr>allowed = True, remaining = max (lim_limit lm - count) 0, retry_after_s = 0\<rparr>
      else
        bnd (redis_read ev ''zrange'' key (z_first api now_ms key)) (\<lambda>oldest.
        bnd (lift_res (retry_after lm (oldest_score lm now_ms oldest) now_ms)) (\<lambda>r.
        ret \<lparr>allowed = False, remaining = 0, retry_after_s = r\<rparr>)))"

definition check ::
  "env \<Rightarrow> 's zset_api option \<Rightarrow> limiter \<Rightarrow> string \<Rightarrow> (('s, 'x) limiter_world_ext, rate_decision) act" where
  "check ev redis lm subject =
     (case redis of
        None \<Rightarrow> ret \<lparr>allowed = True, remaining = lim_limit lm, retry_after_s = 0\<rparr>
      | Some api \<Rightarrow>
          bnd (call ev ans_int ReadClock) (\<lambda>now.
          bnd (fresh_suffix ev) (\<lambda>uid.
          let now_ms = now div 1000 in
          bnd (record_request ev api lm (rate_key subject) now_ms uid) (\<lambda>count.
          rate_verdict ev api lm (rate_key subject) now_ms count))))"

text \<open>A check that returns is \<open>check_at\<close> at the instant and with the suffix it has read.\<close>

lemma redis_steps_Inr:
  "redis_step ev cmd key f w = (Inr u, w') \<Longrightarrow> lw_store w' = f (lw_store w)"
  "redis_read ev cmd key g w = (Inr y, w') \<Longrightarrow> y = g (lw_store w) \<and> lw_store w' = lw_store w"
  by (auto simp: redis_step_def redis_read_def bnd_Inr_iff call_run)

lemma fresh_suffix_store: "fresh_suffix ev w = (r, w') \<Longrightarrow> lw_store w' = lw_store w"
  by (auto simp: fresh_suffix_def bnd_def call_run split: sum.splits option.splits)

lemma record_request_Inr:
  assumes "record_request ev api lm key now uid w = (Inr c, w')"
  shows "c = int (z_card api now key (z_add api now key (rate_member now uid) now
      (z_prune api now key (now - window_ms lm) (lw_store w))))"
    and "lw_store w' = z_expire api now key (lim_window_s lm) (z_add api now key (rate_member now uid) now
      (z_prune api now key (now - window_ms lm) (lw_store w)))"
  using assms by (auto simp: record_request_def bnd_Inr_iff dest!: redis_steps_Inr)

lemma rate_verdict_Inr:
  assumes "rate_verdict ev api lm key now c w = (Inr d, w')"
  shows "lw_store w' = lw_store w" "Inr d = (if c \<le> lim_limit lm
     then Inr \<lparr>allowed = True, remaining = max (lim_limit lm - c) 0, retry_after_s = 0\<rparr>
     else res_bind (retry_after lm (oldest_score lm now (z_first api now key (lw_store w))) now)
       (\<lambda>r. Inr \<lparr>allowed = False, remaining = 0, retry_after_s = r\<rparr>))"
  using assms by (auto simp: rate_verdict_def bnd_Inr_iff split: if_splits dest!: redis_steps_Inr(2))

lemma check_is_check_at:
  assumes "check ev (Some api) lm subject w = (Inr d, w')"
  shows "\<exists>now uid. check_at api lm now uid subject (lw_store w) = (Inr d, lw_store w')"
proof -
  from assms obtain now uid c v w1 w2 where s: "fresh_suffix ev (w\<lparr>log := v\<rparr>) = (Inr uid, w1)"
    and r: "record_request ev api lm (rate_key subject) now uid w1 = (Inr c, w2)"
    and f: "rate_verdict ev api lm (rate_key subject) now c w2 = (Inr d, w')"
    by (auto simp: check_def bnd_Inr_iff call_run Let_def)
  have "lw_store w1 = lw_store w" using fresh_suffix_store [OF s] by simp
  then show ?thesis
    using record_request_Inr [OF r] rate_verdict_Inr [OF f]
    by (intro exI [of _ now] exI [of _ uid]) (auto simp: check_at_def Let_def)
qed

subsection \<open>Requests in sequence\<close>

record request =
  r_time :: int
  r_uid :: string
  r_subject :: string

fun run_checks :: "'s zset_api \<Rightarrow> limiter \<Rightarrow> request list \<Rightarrow> 's \<Rightarrow> rate_decision res list \<times> 's" where
  "run_checks api lm [] s = ([], s)"
| "run_checks api lm (r # rs) s =
     (case check_at api lm (r_time r) (r_uid r) (r_subject r) s of
        (d, s') \<Rightarrow> (case run_checks api lm rs s' of (ds, s'') \<Rightarrow> (d # ds, s'')))"

text \<open>
  The specification: a log of all requests, allowed or not. A request is allowed when the log
  holds at most \<open>limit\<close> requests of its subject in the window that ends with it.
\<close>

definition in_window :: "limiter \<Rightarrow> request \<Rightarrow> request \<Rightarrow> bool" where
  "in_window lm r q \<longleftrightarrow> r_subject q = r_subject r \<and> r_time r - window_ms lm < r_time q"

definition window_log :: "limiter \<Rightarrow> request list \<Rightarrow> request \<Rightarrow> request list" where
  "window_log lm past r = filter (in_window lm r) past @ [r]"

definition log_decision :: "limiter \<Rightarrow> request list \<Rightarrow> request \<Rightarrow> rate_decision" where
  "log_decision lm past r =
     (let log = window_log lm past r; count = int (length log);
          oldest = Min (set (map r_time log)) in
      if count \<le> lim_limit lm
      then \<lparr>allowed = True, remaining = lim_limit lm - count, retry_after_s = 0\<rparr>
      else \<lparr>allowed = False, remaining = 0,
            retry_after_s = max 1 (- ((r_time r - oldest - window_ms lm) div 1000))\<rparr>)"

fun log_decisions :: "limiter \<Rightarrow> request list \<Rightarrow> request list \<Rightarrow> rate_decision list" where
  "log_decisions lm past [] = []"
| "log_decisions lm past (r # rs) = log_decision lm past r # log_decisions lm (past @ [r]) rs"

text \<open>Requests arrive in the order of the clock, and their members are distinct.\<close>

definition member_of :: "request \<Rightarrow> string" where
  "member_of r = rate_member (r_time r) (r_uid r)"

definition well_timed :: "limiter \<Rightarrow> request list \<Rightarrow> bool" where
  "well_timed lm rs \<longleftrightarrow> sorted (map r_time rs) \<and> distinct (map member_of rs) \<and>
     list_all (\<lambda>r. 0 \<le> r_time r \<and> r_time r < 2 ^ 51) rs \<and> 0 < lim_window_s lm \<and> window_ms lm < 2 ^ 51"

subsection \<open>The wait is computed exactly\<close>

lemma ceiling_rnd_thousandth:
  assumes "0 \<le> d" "d < 2 ^ 52"
  shows "\<lceil>rnd (of_int d / 1000)\<rceil> = \<lceil>of_int d / (1000 :: rat)\<rceil>"
proof -
  let ?x = "of_int d / 1000 :: rat" and ?c = "\<lceil>of_int d / (1000 :: rat)\<rceil>"
  have c: "?c = - ((- d) div 1000)"
    using ceiling_divide_eq_div [of d 1000, where 'a = rat] by simp
  have cb: "0 \<le> ?c" "?c \<le> 2 ^ 52" using assms unfolding c by linarith+
  have x: "?x \<le> of_int ?c" "of_int ?c - 1 + 1 / 1000 \<le> ?x"
  proof -
    have "d \<le> 1000 * ?c" "1000 * ?c - 999 \<le> d" unfolding c by linarith+
    then have "of_int d \<le> (of_int (1000 * ?c) :: rat)" "(of_int (1000 * ?c - 999) :: rat) \<le> of_int d"
      by (simp_all only: of_int_le_iff)
    then show "?x \<le> of_int ?c" "of_int ?c - 1 + 1 / 1000 \<le> ?x" by simp_all
  qed
  have "\<bar>?x\<bar> \<le> p2 43"
  proof -
    have "d \<le> 2 ^ 52" using assms by simp
    then have "(of_int d :: rat) \<le> of_int (2 ^ 52)" by (simp only: of_int_le_iff)
    then show ?thesis using assms by simp
  qed
  then have err: "\<bar>rnd ?x - ?x\<bar> \<le> p2 (- 10)" using rnd_err [of ?x 43] by simp
  have up: "rnd ?x \<le> of_int ?c"
    using rnd_mono [OF x(1)] rnd_of_int [of ?c] cb by simp
  have "of_int ?c - 1 < rnd ?x"
  proof -
    have "p2 (- 10) = (1 / 1024 :: rat)" by (simp add: p2_def)
    then have "?x \<le> rnd ?x + 1 / 1024" using abs_near_lower [OF err] by simp
    then show ?thesis using x(2) by linarith
  qed
  then show ?thesis using up by (intro ceiling_unique) auto
qed

lemma retry_after_exact:
  assumes "0 \<le> old" "old \<le> now" "now < 2 ^ 51" "0 \<le> window_ms lm" "window_ms lm < 2 ^ 51"
    and "now - window_ms lm \<le> old"
  shows "retry_after lm (mk (of_int old)) now = Inr (max 1 (- ((now - old - window_ms lm) div 1000)))"
proof -
  let ?d = "old + window_ms lm - now"
  have fin: "mk (of_int n) = Fin (of_int n)" if "\<bar>n\<bar> < 2 ^ 52" for n
    using that by (intro mk_of_int) simp
  have "mk (of_int old) + mk (of_int (window_ms lm)) = Fin (of_int (old + window_ms lm))"
    using assms fin [of old] fin [of "window_ms lm"] fin [of "old + window_ms lm"] by simp
  then have "mk (of_int old) + mk (of_int (window_ms lm)) - mk (of_int now) = Fin (of_int ?d)"
    using assms fin [of now] fin [of ?d] by simp
  moreover have "mk (of_int ?d / 1000) = Fin (rnd (of_int ?d / 1000))"
  proof -
    have "\<bar>of_int ?d :: rat\<bar> \<le> 2 ^ 52"
    proof -
      have "\<bar>?d\<bar> \<le> 2 ^ 52" using assms by simp
      then have "(of_int \<bar>?d\<bar> :: rat) \<le> of_int (2 ^ 52)" by (simp only: of_int_le_iff)
      then show ?thesis by simp
    qed
    then have "\<bar>of_int ?d / 1000 :: rat\<bar> \<le> p2 52" by simp
    then show ?thesis using mk_small [of "of_int ?d / 1000" 52] by simp
  qed
  moreover have "\<lceil>of_int ?d / (1000 :: rat)\<rceil> = - ((- ?d) div 1000)"
    using ceiling_divide_eq_div [of ?d 1000, where 'a = rat] by simp
  ultimately show ?thesis
    using ceiling_rnd_thousandth [of ?d] assms by (simp add: retry_after_def algebra_simps)
qed

subsection \<open>The limiter refines the log\<close>

definition entries :: "limiter \<Rightarrow> request list \<Rightarrow> string \<Rightarrow> int \<Rightarrow> (string \<times> int) set" where
  "entries lm past subject t =
     (\<lambda>q. (member_of q, r_time q)) ` {q \<in> set past. r_subject q = subject \<and> t - window_ms lm < r_time q}"

definition log_store ::
  "limiter \<Rightarrow> ('s \<Rightarrow> string \<Rightarrow> int \<Rightarrow> (string \<times> int) set) \<Rightarrow> ('s \<Rightarrow> bool) \<Rightarrow> request list \<Rightarrow> int \<Rightarrow> 's \<Rightarrow> bool" where
  \<comment> \<open>from \<open>now\<close> on, the store shows the part of the log that is still in the window\<close>
  "log_store lm content invar past now s \<longleftrightarrow>
     invar s \<and> (\<forall>q \<in> set past. r_time q \<le> now) \<and>
     (\<forall>subject t. now \<le> t \<longrightarrow>
        {(m, x) \<in> content s (rate_key subject) t. t - window_ms lm < x} = entries lm past subject t)"

lemma log_storeD:
  assumes "log_store lm content invar past now s"
  shows "invar s" "q \<in> set past \<Longrightarrow> r_time q \<le> now"
    "now \<le> t \<Longrightarrow> {(m, x) \<in> content s (rate_key subject) t. t - window_ms lm < x} = entries lm past subject t"
  using assms unfolding log_store_def by simp_all

lemma log_store_later:
  "log_store lm content invar past now s \<Longrightarrow> now \<le> now' \<Longrightarrow> log_store lm content invar past now' s"
  unfolding log_store_def by (meson order_trans)

lemma rate_key_inj [simp]: "rate_key a = rate_key b \<longleftrightarrow> a = b"
  by (simp add: rate_key_def)

lemma entries_snoc:
  "entries lm (past @ [r]) subject t =
     (if r_subject r = subject \<and> t - window_ms lm < r_time r then insert (member_of r, r_time r) (entries lm past subject t)
      else entries lm past subject t)"
  by (auto simp: entries_def)

lemma window_entries:
  "insert (member_of r, r_time r) (entries lm past (r_subject r) (r_time r)) =
     set (map (\<lambda>q. (member_of q, r_time q)) (window_log lm past r))"
  by (auto simp: entries_def window_log_def in_window_def)

lemma distinct_window:
  assumes "distinct (map member_of (past @ [r]))"
  shows "distinct (map (\<lambda>q. (member_of q, r_time q)) (window_log lm past r))"
proof -
  have "distinct (map member_of (window_log lm past r))"
    using assms by (auto simp: window_log_def distinct_map inj_on_def)
  then show ?thesis by (auto simp: distinct_map inj_on_def)
qed

context sorted_set
begin

lemma recorded_content:
  assumes "log_store lm content invar past (r_time r) s" "distinct (map member_of (past @ [r]))"
  shows "content (z_add api (r_time r) (rate_key (r_subject r)) (member_of r) (r_time r)
      (z_prune api (r_time r) (rate_key (r_subject r)) (r_time r - window_ms lm) s)) (rate_key (r_subject r)) (r_time r)
    = insert (member_of r, r_time r) (entries lm past (r_subject r) (r_time r))"
proof -
  have "content (z_prune api (r_time r) (rate_key (r_subject r)) (r_time r - window_ms lm) s)
      (rate_key (r_subject r)) (r_time r) = entries lm past (r_subject r) (r_time r)"
    using log_storeD(1,3) [OF assms(1)] by (simp add: content_prune)
  moreover have "(member_of r, x) \<notin> entries lm past (r_subject r) (r_time r)" for x
    using assms(2) by (auto simp: entries_def image_iff)
  then have "{(m, x) \<in> entries lm past (r_subject r) (r_time r). m \<noteq> member_of r} = entries lm past (r_subject r) (r_time r)"
    by auto
  ultimately show ?thesis
    using log_storeD(1) [OF assms(1)] by (simp add: content_add invar_prune)
qed

lemma log_store_recorded:
  assumes "log_store lm content invar past (r_time r) s" "distinct (map member_of (past @ [r]))" "0 < lim_window_s lm"
  shows "log_store lm content invar (past @ [r]) (r_time r)
    (z_expire api (r_time r) (rate_key (r_subject r)) (lim_window_s lm)
      (z_add api (r_time r) (rate_key (r_subject r)) (member_of r) (r_time r)
        (z_prune api (r_time r) (rate_key (r_subject r)) (r_time r - window_ms lm) s)))"
    (is "log_store _ _ _ _ ?now (z_expire _ _ ?k _ ?s2)")
proof -
  let ?s3 = "z_expire api ?now ?k (lim_window_s lm) ?s2"
  note past = log_storeD [OF assms(1)]
  have inv: "invar ?s2" "invar ?s3" using past(1) by (simp_all add: invar_prune invar_add invar_expire)
  have old: "x \<le> ?now" if "(m, x) \<in> insert (member_of r, ?now) (entries lm past (r_subject r) ?now)" for m x
    using that past(2) by (auto simp: entries_def)
  have "{(m, x) \<in> content ?s3 (rate_key subject) t. t - window_ms lm < x} = entries lm (past @ [r]) subject t"
    if t: "?now \<le> t" for subject t
  proof (cases "subject = r_subject r")
    case False
    then show ?thesis
      using past(1) past(3) [OF t] by (simp add: content_other invar_prune invar_add entries_snoc)
  next
    case True
    show ?thesis
    proof (cases "t < ?now + window_ms lm")
      case in_time: True
      then have c: "content ?s3 ?k t = insert (member_of r, ?now) (entries lm past (r_subject r) ?now)"
        using content_expire [OF inv(1) t, of "lim_window_s lm"] recorded_content [OF assms(1,2)]
        by (simp add: window_ms_def mult.commute)
      show ?thesis using in_time t unfolding True c by (auto simp: entries_def image_iff)
    next
      case False
      have "content ?s3 ?k t \<subseteq> insert (member_of r, ?now) (entries lm past (r_subject r) ?now)"
        using content_expired [OF inv(1) t, of ?k "lim_window_s lm"] recorded_content [OF assms(1,2)] by auto
      then have "{(m, x) \<in> content ?s3 ?k t. t - window_ms lm < x} = {}" using old False by fastforce
      moreover have "entries lm (past @ [r]) (r_subject r) t = {}"
        using past(2) False by (fastforce simp: entries_def)
      ultimately show ?thesis using True by simp
    qed
  qed
  then show ?thesis using inv past(2) unfolding log_store_def by auto
qed

lemma check_at_refines:
  assumes "log_store lm content invar past (r_time r) s" "well_timed lm (past @ [r])"
  shows "\<exists>s'. check_at api lm (r_time r) (r_uid r) (r_subject r) s = (Inr (log_decision lm past r), s') \<and>
    log_store lm content invar (past @ [r]) (r_time r) s'"
proof -
  let ?k = "rate_key (r_subject r)" and ?now = "r_time r" and ?log = "window_log lm past r"
  let ?s2 = "z_add api ?now ?k (member_of r) ?now (z_prune api ?now ?k (?now - window_ms lm) s)"
  let ?s3 = "z_expire api ?now ?k (lim_window_s lm) ?s2"
  let ?f = "\<lambda>q. (member_of q, r_time q)" and ?old = "Min (set (map r_time ?log))"
  have wt: "distinct (map member_of (past @ [r]))" "0 < lim_window_s lm" "0 < window_ms lm" "window_ms lm < 2 ^ 51"
    "0 \<le> ?now" "?now < 2 ^ 51"
    using assms(2) by (auto simp: well_timed_def window_ms_def)
  have keep: "log_store lm content invar (past @ [r]) ?now ?s3"
    by (rule log_store_recorded [OF assms(1) wt(1,2)])
  have inv: "invar ?s2" "invar ?s3"
    using log_storeD(1) [OF assms(1)] by (simp_all add: invar_prune invar_add invar_expire)
  have c2: "content ?s2 ?k ?now = set (map ?f ?log)"
    using recorded_content [OF assms(1) wt(1)] window_entries by simp
  have c3: "content ?s3 ?k ?now = set (map ?f ?log)"
    using content_expire [OF inv(1), of ?now ?now "lim_window_s lm" ?k] wt(2) c2 by simp
  have count: "z_card api ?now ?k ?s2 = length ?log"
    using distinct_card [OF distinct_window [OF wt(1)], of lm] c2 by (simp add: card_content [OF inv(1)])
  have "?log \<noteq> []" by (simp add: window_log_def)
  then obtain m where first: "z_first api ?now ?k ?s3 = [(m, ?old)]"
    using first_least [OF inv(2), of ?k ?now] c3 by (auto simp: image_image)
  have "?old \<in> set (map r_time ?log)" using \<open>?log \<noteq> []\<close> by (intro Min_in) auto
  then have "?now - window_ms lm \<le> ?old" using wt(3) by (auto simp: window_log_def in_window_def)
  moreover have "?old \<le> ?now" by (rule Min_le) (auto simp: window_log_def)
  moreover have "0 \<le> ?old"
    using \<open>?old \<in> _\<close> assms(2) by (auto simp: window_log_def well_timed_def list_all_iff)
  ultimately have "retry_after lm (mk (of_int ?old)) ?now =
      Inr (max 1 (- ((?now - ?old - window_ms lm) div 1000)))"
    using wt by (intro retry_after_exact) auto
  then show ?thesis
    using keep count first by (auto simp: check_at_def Let_def log_decision_def oldest_score_def member_of_def)
qed

lemma run_checks_refines:
  "well_timed lm (past @ rs) \<Longrightarrow> log_store lm content invar past (case rs of [] \<Rightarrow> 0 | r # _ \<Rightarrow> r_time r) s \<Longrightarrow>
     fst (run_checks api lm rs s) = map Inr (log_decisions lm past rs)"
proof (induction rs arbitrary: past s)
  case (Cons r rs)
  have wt: "well_timed lm (past @ [r])" "well_timed lm ((past @ [r]) @ rs)"
    using Cons.prems(1) by (auto simp: well_timed_def sorted_append)
  obtain s' where s': "check_at api lm (r_time r) (r_uid r) (r_subject r) s = (Inr (log_decision lm past r), s')"
    "log_store lm content invar (past @ [r]) (r_time r) s'"
    using check_at_refines [OF _ wt(1)] Cons.prems(2) by auto
  have "fst (run_checks api lm rs s') = map Inr (log_decisions lm (past @ [r]) rs)"
  proof (cases rs)
    case (Cons q qs)
    then have "r_time r \<le> r_time q" using wt(2) by (simp add: well_timed_def sorted_append)
    then show ?thesis
      using Cons.IH [OF wt(2)] log_store_later [OF s'(2)] Cons by simp
  qed simp
  then show ?case using s'(1) by (simp add: case_prod_beta)
qed simp

end

subsection \<open>The repository's double of Redis\<close>

record fake_redis =
  fr_zsets :: "(string \<times> (string \<times> int) list) list"

definition fake_zset :: "fake_redis \<Rightarrow> string \<Rightarrow> (string \<times> int) list" where
  \<comment> \<open>\<open>self.zsets.get(key, {})\<close>\<close>
  "fake_zset f key = (case dget (fr_zsets f) key of None \<Rightarrow> [] | Some zs \<Rightarrow> zs)"

definition fake_zadd :: "string \<Rightarrow> string \<Rightarrow> int \<Rightarrow> fake_redis \<Rightarrow> fake_redis" where
  "fake_zadd key m x f = f\<lparr>fr_zsets := dset (fr_zsets f) key (dset (fake_zset f key) m x)\<rparr>"

definition fake_zremrangebyscore :: "string \<Rightarrow> int \<Rightarrow> fake_redis \<Rightarrow> fake_redis" where
  "fake_zremrangebyscore key b f =
     f\<lparr>fr_zsets := dset (fr_zsets f) key (filter (\<lambda>(m, x). \<not> x \<le> b) (fake_zset f key))\<rparr>"

definition fake_zcard :: "string \<Rightarrow> fake_redis \<Rightarrow> nat" where
  "fake_zcard key f = length (fake_zset f key)"

definition fake_zrange :: "string \<Rightarrow> fake_redis \<Rightarrow> (string \<times> int) list" where
  \<comment> \<open>\<open>zrange(key, 0, 0, withscores=True)\<close>\<close>
  "fake_zrange key f = take 1 (sort_key snd (fake_zset f key))"

definition fake_expire :: "string \<Rightarrow> int \<Rightarrow> fake_redis \<Rightarrow> fake_redis" where
  \<comment> \<open>the double never expires a key\<close>
  "fake_expire key seconds f = f"

definition fake_api :: "fake_redis zset_api" where
  "fake_api = \<lparr>z_prune = (\<lambda>t. fake_zremrangebyscore), z_add = (\<lambda>t. fake_zadd), z_card = (\<lambda>t. fake_zcard),
     z_expire = (\<lambda>t. fake_expire), z_first = (\<lambda>t. fake_zrange)\<rparr>"

definition fake_content :: "fake_redis \<Rightarrow> string \<Rightarrow> int \<Rightarrow> (string \<times> int) set" where
  "fake_content f key t = set (fake_zset f key)"

definition fake_invar :: "fake_redis \<Rightarrow> bool" where
  "fake_invar f \<longleftrightarrow> (\<forall>key. distinct (map fst (fake_zset f key)))"

lemma fake_zset_updates [simp]:
  "fake_zset (fake_zadd k m x f) k' = (if k' = k then dset (fake_zset f k) m x else fake_zset f k')"
  "fake_zset (fake_zremrangebyscore k b f) k' =
     (if k' = k then filter (\<lambda>(m, x). \<not> x \<le> b) (fake_zset f k) else fake_zset f k')"
  "fake_zset (fake_expire k secs f) k' = fake_zset f k'"
  by (simp_all add: fake_zset_def fake_zadd_def fake_zremrangebyscore_def fake_expire_def)

lemma set_dset_distinct:
  "distinct (map fst d) \<Longrightarrow> set (dset d k v) = insert (k, v) {(k', v') \<in> set d. k' \<noteq> k}"
  by (induction d) (force simp: image_iff split: if_splits)+

lemma sort_key_least:
  fixes f :: "'a \<Rightarrow> 'b::linorder"
  assumes "xs \<noteq> []"
  obtains y ys where "sort_key f xs = y # ys" "f y = Min (f ` set xs)" "y \<in> set xs"
proof -
  obtain y ys where y: "sort_key f xs = y # ys"
    using assms by (metis length_0_conv length_sort neq_Nil_conv)
  have mem: "set (y # ys) = set xs" using y by (metis set_sort)
  have "sorted (map f (y # ys))" using sorted_sort_key [of f xs] y by simp
  then have "f y = Min (f ` set (y # ys))" by (intro Min_eqI [symmetric]) auto
  then have "f y = Min (f ` set xs)" by (simp only: mem)
  then show thesis using that [OF y] mem by auto
qed

interpretation fake: sorted_set fake_api fake_content fake_invar
proof
  fix f :: fake_redis and k k' m and b x t t' secs :: int
  assume f: "fake_invar f"
  show "finite (fake_content f k t)" by (simp add: fake_content_def)
  show "fake_invar (z_prune fake_api t k b f)" "fake_invar (z_add fake_api t k m x f)"
    "fake_invar (z_expire fake_api t k secs f)"
    using f by (simp_all add: fake_invar_def fake_api_def distinct_dset distinct_map_filter)
  show "fake_content (z_prune fake_api t k b f) k t = {(m, x) \<in> fake_content f k t. b < x}"
    "fake_content (z_add fake_api t k m x f) k t = insert (m, x) {(m', x') \<in> fake_content f k t. m' \<noteq> m}"
    using f by (auto simp: fake_content_def fake_api_def fake_invar_def set_dset_distinct)
  show "fake_content (z_expire fake_api t k secs f) k t' = fake_content f k t"
    "fake_content (z_expire fake_api t k secs f) k t' = fake_content f k t \<or>
     fake_content (z_expire fake_api t k secs f) k t' = {}"
    by (simp_all add: fake_content_def fake_api_def)
  show "z_card fake_api t k f = card (fake_content f k t)"
    using f by (simp add: fake_content_def fake_api_def fake_invar_def fake_zcard_def distinct_card distinct_map)
  show "z_first fake_api t k f = []" if "fake_content f k t = {}"
    using that by (simp add: fake_content_def fake_api_def fake_zrange_def)
  show "\<exists>m. z_first fake_api t k f = [(m, Min (snd ` fake_content f k t))]" if "fake_content f k t \<noteq> {}"
  proof -
    have "fake_zset f k \<noteq> []" using that by (simp add: fake_content_def)
    from sort_key_least [OF this, of snd] obtain y ys
      where "sort_key snd (fake_zset f k) = y # ys" "snd y = Min (snd ` set (fake_zset f k))" .
    then show ?thesis by (cases y) (simp add: fake_content_def fake_api_def fake_zrange_def)
  qed
  show "fake_content (z_prune fake_api t k b f) k' t' = fake_content f k' t'"
    "fake_content (z_add fake_api t k m x f) k' t' = fake_content f k' t'"
    "fake_content (z_expire fake_api t k secs f) k' t' = fake_content f k' t'" if "k' \<noteq> k"
    using that by (simp_all add: fake_content_def fake_api_def)
qed

text \<open>
  C29. The limiter refines a log of requests: over any sequence of requests in clock order, on any
  store that keeps the laws of Redis sorted sets and starts empty, every check returns, and decides
  as the log does: allowed if and only if at most \<open>limit\<close> requests of the subject, the rejected
  ones included, lie in the window that ends with it, with the exact remainder and wait.
\<close>

theorem limiter_refines_log:
  assumes "sorted_set api content invar" "invar s" "\<And>k t. content s k t = {}" "well_timed lm rs"
  shows "fst (run_checks api lm rs s) = map Inr (log_decisions lm [] rs)"
proof (rule sorted_set.run_checks_refines [OF assms(1)])
  show "log_store lm content invar [] (case rs of [] \<Rightarrow> 0 | r # _ \<Rightarrow> r_time r) s"
    using assms(2,3) by (simp add: log_store_def entries_def)
qed (simp add: assms(4))

subsection \<open>No window admits more than the limit\<close>

definition admitted :: "limiter \<Rightarrow> string \<Rightarrow> int \<Rightarrow> (request \<times> rate_decision res) list \<Rightarrow> request list" where
  \<comment> \<open>the allowed requests of a subject in the window \<open>(t, t + window]\<close>\<close>
  "admitted lm subject t rds =
     map fst (filter (\<lambda>(r, d). r_subject r = subject \<and> t < r_time r \<and> r_time r \<le> t + window_ms lm \<and>
       (case d of Inl e \<Rightarrow> False | Inr d \<Rightarrow> allowed d)) rds)"

lemma log_decisions_snoc:
  "log_decisions lm past (rs @ [r]) = log_decisions lm past rs @ [log_decision lm (past @ rs) r]"
  by (induction rs arbitrary: past) simp_all

lemma length_log_decisions [simp]: "length (log_decisions lm past rs) = length rs"
  by (induction rs arbitrary: past) simp_all

lemma admitted_subset:
  "length (admitted lm subject t (zip rs ds)) \<le>
     length (filter (\<lambda>q. r_subject q = subject \<and> t < r_time q \<and> r_time q \<le> t + window_ms lm) rs)"
  by (induction rs ds rule: list_induct2') (auto simp: admitted_def)

lemma length_filter_mono: "(\<And>x. P x \<Longrightarrow> Q x) \<Longrightarrow> length (filter P xs) \<le> length (filter Q xs)"
  by (induction xs) auto

lemma admitted_bound:
  "int (length (admitted lm subject t (zip rs (map Inr (log_decisions lm [] rs))))) \<le> max 0 (lim_limit lm)"
proof (induction rs rule: rev_induct)
  case Nil
  then show ?case by (simp add: admitted_def)
next
  case (snoc r rs)
  let ?ds = "map Inr (log_decisions lm [] rs)" and ?d = "log_decision lm rs r"
  let ?old = "admitted lm subject t (zip rs ?ds)"
  have split: "admitted lm subject t (zip (rs @ [r]) (map Inr (log_decisions lm [] (rs @ [r])))) =
      ?old @ (if r_subject r = subject \<and> t < r_time r \<and> r_time r \<le> t + window_ms lm \<and> allowed ?d then [r] else [])"
    by (simp add: log_decisions_snoc admitted_def zip_append)
  show ?case
  proof (cases "r_subject r = subject \<and> t < r_time r \<and> r_time r \<le> t + window_ms lm \<and> allowed ?d")
    case True
    have "length ?old \<le> length (filter (\<lambda>q. r_subject q = subject \<and> t < r_time q \<and> r_time q \<le> t + window_ms lm) rs)"
      by (rule admitted_subset)
    also have "\<dots> \<le> length (filter (in_window lm r) rs)"
      using True by (intro length_filter_mono) (auto simp: in_window_def)
    finally have "int (length ?old) + 1 \<le> lim_limit lm"
      using True by (auto simp: log_decision_def window_log_def Let_def split: if_splits)
    then show ?thesis using True unfolding split by simp
  next
    case False
    then show ?thesis using snoc.IH unfolding split by auto
  qed
qed

text \<open>
  C30. The window slides: in any interval as long as the window, wherever it begins, at most
  \<open>limit\<close> requests of one subject are allowed, whatever the other subjects do; there is no burst
  at a boundary.
\<close>

theorem sliding_window_bound:
  assumes "sorted_set api content invar" "invar s" "\<And>k t. content s k t = {}" "well_timed lm rs"
  shows "int (length (admitted lm subject t (zip rs (fst (run_checks api lm rs s))))) \<le> max 0 (lim_limit lm)"
proof -
  have "log_store lm content invar [] (case rs of [] \<Rightarrow> 0 | r # _ \<Rightarrow> r_time r) s"
    using assms(2,3) by (simp add: log_store_def entries_def)
  then have "fst (run_checks api lm rs s) = map Inr (log_decisions lm [] rs)"
    using assms(4) by (intro sorted_set.run_checks_refines [OF assms(1)]) simp_all
  then show ?thesis using admitted_bound by simp
qed

subsection \<open>Concrete requests\<close>

definition two_a_second :: limiter where
  "two_a_second = \<lparr>lim_limit = 2, lim_window_s = 1\<rparr>"

definition burst :: "request list" where
  "burst = [\<lparr>r_time = 5000, r_uid = ''a1'', r_subject = ''alice''\<rparr>, \<lparr>r_time = 5400, r_uid = ''a2'', r_subject = ''alice''\<rparr>,
     \<lparr>r_time = 5500, r_uid = ''b1'', r_subject = ''bob''\<rparr>, \<lparr>r_time = 5900, r_uid = ''a3'', r_subject = ''alice''\<rparr>,
     \<lparr>r_time = 6500, r_uid = ''a4'', r_subject = ''alice''\<rparr>]"

definition no_requests :: fake_redis where
  "no_requests = \<lparr>fr_zsets = []\<rparr>"

lemma no_requests_empty: "fake_invar no_requests" "fake_content no_requests k t = {}"
  by (simp_all add: no_requests_def fake_invar_def fake_content_def fake_zset_def)

lemma burst_well_timed: "well_timed two_a_second burst"
  by (simp add: well_timed_def burst_def two_a_second_def window_ms_def member_of_def rate_member_def int_str_def
      nat_str.simps)

lemma burst_log:
  "log_decisions two_a_second [] burst =
     [\<lparr>allowed = True, remaining = 1, retry_after_s = 0\<rparr>, \<lparr>allowed = True, remaining = 0, retry_after_s = 0\<rparr>,
      \<lparr>allowed = True, remaining = 1, retry_after_s = 0\<rparr>, \<lparr>allowed = False, remaining = 0, retry_after_s = 1\<rparr>,
      \<lparr>allowed = True, remaining = 0, retry_after_s = 0\<rparr>]"
  by (simp add: burst_def log_decision_def window_log_def in_window_def two_a_second_def window_ms_def Let_def)

theorem limiter_refines_log_witness:
  "fst (run_checks fake_api two_a_second burst no_requests) =
     [Inr \<lparr>allowed = True, remaining = 1, retry_after_s = 0\<rparr>, Inr \<lparr>allowed = True, remaining = 0, retry_after_s = 0\<rparr>,
      Inr \<lparr>allowed = True, remaining = 1, retry_after_s = 0\<rparr>, Inr \<lparr>allowed = False, remaining = 0, retry_after_s = 1\<rparr>,
      Inr \<lparr>allowed = True, remaining = 0, retry_after_s = 0\<rparr>]"
  using limiter_refines_log [OF fake.sorted_set_axioms no_requests_empty burst_well_timed] burst_log by simp

theorem sliding_window_bound_witness:
  "int (length (admitted two_a_second ''alice'' 4950 (zip burst (fst (run_checks fake_api two_a_second burst no_requests))))) \<le> 2"
  using sliding_window_bound [OF fake.sorted_set_axioms no_requests_empty burst_well_timed, of "''alice''" 4950]
  by (simp add: two_a_second_def)

end
