(* ===== verification/Gateway.thy ===== *)
theory Gateway
  imports RateLimit
begin

text \<open>
  The API gateway: \<open>auth.py\<close> (tokens), \<open>proxy.py\<close> (the reverse proxy) and \<open>main.py\<close> (the
  correlation middleware, the rate-limit dependency and the exception handler). PyJWT is the
  record \<open>jwt_lib\<close>; the upstream services answer \<open>HttpCall\<close>s. Header names are
  case-insensitive.
\<close>

subsection \<open>Headers\<close>

definition char_lower :: "char \<Rightarrow> char" where
  "char_lower c = (let n = of_char c :: nat in if 65 \<le> n \<and> n \<le> 90 then char_of (n + 32) else c)"

definition str_lower :: "string \<Rightarrow> string" where
  "str_lower s = map char_lower s"

type_synonym headers = "(string \<times> string) list"

definition correlation_header :: string where
  "correlation_header = ''X-Correlation-Id''"

definition header_get :: "headers \<Rightarrow> string \<Rightarrow> string option" where
  "header_get hs name = map_option snd (find_first (\<lambda>(k, v). str_lower k = str_lower name) hs)"

definition header_set :: "headers \<Rightarrow> string \<Rightarrow> string \<Rightarrow> headers" where
  \<comment> \<open>\<open>response.headers[name] = v\<close>\<close>
  "header_set hs name v = filter (\<lambda>(k, x). str_lower k \<noteq> str_lower name) hs @ [(name, v)]"

definition dict_of :: "headers \<Rightarrow> string dict" where
  \<comment> \<open>\<open>{k: v for k, v in items}\<close>\<close>
  "dict_of items = foldl (\<lambda>d (k, v). dset d k v) [] items"

subsection \<open>Requests and responses\<close>

record http_request =
  hq_method :: string
  hq_service :: string
  hq_path :: string
  hq_query :: "string dict"
  hq_headers :: headers
  hq_body :: string
  hq_bearer :: "string option"       \<comment> \<open>what \<open>HTTPBearer\<close> finds in the Authorization header\<close>

record http_response =
  hp_status :: int
  hp_body :: pytext
  hp_headers :: headers
  hp_media :: "string option"

definition json_response :: "int \<Rightarrow> pytext \<Rightarrow> headers \<Rightarrow> http_response" where
  "json_response status body hs =
     \<lparr>hp_status = status, hp_body = body, hp_headers = hs, hp_media = Some ''application/json''\<rparr>"

record jwt_lib =
  jwt_encode :: "json dict \<Rightarrow> string \<Rightarrow> string"
  jwt_decode :: "int \<Rightarrow> string \<Rightarrow> string \<Rightarrow> json dict res"   \<comment> \<open>at an instant in seconds: token, secret\<close>

record 's gateway_config =
  gc_settings :: settings
  gc_jwt :: jwt_lib
  gc_redis :: "'s zset_api option"
  gc_routes :: "string dict option"

definition gateway_limiter :: "'s gateway_config \<Rightarrow> limiter" where
  "gateway_limiter cfg =
     \<lparr>lim_limit = rate_limit_per_minute (gc_settings cfg), lim_window_s = rate_limit_window_seconds (gc_settings cfg)\<rparr>"

subsection \<open>Tokens\<close>

record token_response =
  access_token :: string
  token_type :: string
  expires_in :: int

definition token_claims :: "settings \<Rightarrow> string \<Rightarrow> int \<Rightarrow> json dict" where
  \<comment> \<open>at the instant \<open>now\<close> in microseconds\<close>
  "token_claims st subject now =
     [(''sub'', JStr (T subject)), (''iat'', JInt (now div 1000000)),
      (''exp'', JInt ((now + token_expire_minutes st * 60 * 1000000) div 1000000))]"

definition create_token :: "jwt_lib \<Rightarrow> settings \<Rightarrow> string \<Rightarrow> int \<Rightarrow> string \<times> int" where
  "create_token lib st subject now =
     (jwt_encode lib (token_claims st subject now) (jwt_secret st), token_expire_minutes st * 60)"

definition is_ascii :: "string \<Rightarrow> bool" where
  "is_ascii s \<longleftrightarrow> list_all (\<lambda>c. of_char c < (128 :: nat)) s"

definition compare_digest :: "string \<Rightarrow> string \<Rightarrow> bool res" where
  \<comment> \<open>\<open>hmac.compare_digest\<close> takes ASCII strings only\<close>
  "compare_digest a b =
     (if is_ascii a \<and> is_ascii b then Inr (a = b)
      else Inl (TypeError ''comparing strings with non-ASCII characters is not supported''))"

definition issue_token :: "env \<Rightarrow> 's gateway_config \<Rightarrow> string \<Rightarrow> string \<Rightarrow> ('x, token_response) act" where
  "issue_token ev cfg username password =
     (let st = gc_settings cfg in
      bnd (lift_res (compare_digest username (gateway_username st))) (\<lambda>user_ok.
      bnd (lift_res (compare_digest password (gateway_password st))) (\<lambda>pass_ok.
      if \<not> (user_ok \<and> pass_ok) then throw (HTTPException 401 ''invalid credentials'')
      else
        bnd (call ev ans_int ReadClock) (\<lambda>now.
        let (token, expires) = create_token (gc_jwt cfg) st username now in
        ret \<lparr>access_token = token, token_type = ''bearer'', expires_in = expires\<rparr>))))"

definition raw_token :: "http_request \<Rightarrow> string option" where
  \<comment> \<open>the bearer credentials, else \<open>?token=\<close>\<close>
  "raw_token req = (case hq_bearer req of Some t \<Rightarrow> Some t | None \<Rightarrow> dget (hq_query req) ''token'')"

definition decode_token :: "jwt_lib \<Rightarrow> settings \<Rightarrow> int \<Rightarrow> string \<Rightarrow> json dict res" where
  \<comment> \<open>at an instant in seconds\<close>
  "decode_token lib st now_s raw =
     (case jwt_decode lib now_s raw (jwt_secret st) of
        Inl e \<Rightarrow> Inl (if e = JwtError then HTTPException 401 ''invalid or expired token'' else e)
      | Inr claims \<Rightarrow> Inr claims)"

definition verify_token :: "env \<Rightarrow> 's gateway_config \<Rightarrow> http_request \<Rightarrow> ('x, json dict) act" where
  "verify_token ev cfg req =
     (case raw_token req of
        None \<Rightarrow> throw (HTTPException 401 ''missing bearer token'')
      | Some raw \<Rightarrow>
          if raw = [] then throw (HTTPException 401 ''missing bearer token'')
          else bnd (call ev ans_int ReadClock) (\<lambda>now.
               lift_res (decode_token (gc_jwt cfg) (gc_settings cfg) (now div 1000000) raw)))"

subsection \<open>The proxy\<close>

definition service_routes :: "string dict" where
  "service_routes = [
     (''signals'', ''http://signal-service:8000''),
     (''signal-service'', ''http://signal-service:8000''),
     (''risk'', ''http://risk-service:8000''),
     (''risk-service'', ''http://risk-service:8000''),
     (''ml'', ''http://ml-service:8000''),
     (''ml-service'', ''http://ml-service:8000''),
     (''data'', ''http://data-service:8000''),
     (''data-service'', ''http://data-service:8000''),
     (''features'', ''http://feature-service:8000''),
     (''feature-service'', ''http://feature-service:8000''),
     (''execution'', ''http://execution-service:8000''),
     (''execution-service'', ''http://execution-service:8000''),
     (''notify'', ''http://notify-service:8000''),
     (''notify-service'', ''http://notify-service:8000''),
     (''viz'', ''http://visualization-service:8000''),
     (''visualization-service'', ''http://visualization-service:8000'')]"

definition hop_by_hop :: "string list" where
  "hop_by_hop = [''connection'', ''keep-alive'', ''proxy-authenticate'', ''proxy-authorization'', ''te'',
     ''trailers'', ''transfer-encoding'', ''upgrade'', ''host'', ''content-length'']"

definition safe_headers :: "headers \<Rightarrow> string dict" where
  "safe_headers hs = dict_of (filter (\<lambda>(k, v). str_lower k \<notin> set hop_by_hop) hs)"

definition forward_headers :: "headers \<Rightarrow> string \<Rightarrow> string dict" where
  "forward_headers hs cid =
     dset (filter (\<lambda>(k, v). str_lower k \<noteq> str_lower correlation_header) (safe_headers hs)) correlation_header cid"

definition upstream_args :: "http_request \<Rightarrow> string \<Rightarrow> json list" where
  "upstream_args req cid = [
     JStr (T (hq_method req)),
     JObj (map (\<lambda>(k, v). (k, JStr (T v))) (hq_query req)),
     JStr (T (hq_body req)),
     JObj (map (\<lambda>(k, v). (k, JStr (T v))) (forward_headers (hq_headers req) cid))]"

fun is_http_error :: "exn \<Rightarrow> bool" where
  "is_http_error (HttpError m) = True"
| "is_http_error e = False"

definition upstream_response :: "string \<Rightarrow> int \<times> headers \<times> string \<Rightarrow> http_response" where
  "upstream_response cid up =
     (case up of (status, hs, content) \<Rightarrow>
       \<lparr>hp_status = status, hp_body = T content,
        hp_headers = dset (safe_headers hs) correlation_header cid,
        hp_media = header_get hs ''content-type''\<rparr>)"

definition route_base :: "'s gateway_config \<Rightarrow> string \<Rightarrow> string option" where
  "route_base cfg service =
     dget (case gc_routes cfg of Some r \<Rightarrow> if r \<noteq> [] then r else service_routes | None \<Rightarrow> service_routes) service"

definition proxy_correlation :: "http_request \<Rightarrow> string option \<Rightarrow> string" where
  "proxy_correlation req state_cid =
     (let from_header = (case header_get (hq_headers req) correlation_header of None \<Rightarrow> '''' | Some h \<Rightarrow> h)
      in case state_cid of Some c \<Rightarrow> if c \<noteq> [] then c else from_header | None \<Rightarrow> from_header)"

definition proxy :: "env \<Rightarrow> 's gateway_config \<Rightarrow> http_request \<Rightarrow> string option \<Rightarrow> ('x, http_response) act" where
  \<comment> \<open>the last argument is \<open>request.state.correlation_id\<close>\<close>
  "proxy ev cfg req state_cid =
     (case route_base cfg (hq_service req) of
        None \<Rightarrow> ret \<lparr>hp_status = 404,
                  hp_body = T (''{\"detail\":\"unknown service '' @ hq_service req @ ''\"}''),
                  hp_headers = [], hp_media = Some ''application/json''\<rparr>
      | Some base \<Rightarrow>
          let cid = proxy_correlation req state_cid
          in attempt
               (bnd (call ev ans_http (HttpCall (base @ ''/'' @ hq_path req) (upstream_args req cid)))
                  (\<lambda>up. ret (upstream_response cid up)))
               (\<lambda>e. if e = HttpTimeout
                    then ret (json_response 504 (T ''{\"detail\":\"upstream timeout\"}'') [(correlation_header, cid)])
                    else if is_http_error e
                    then ret (json_response 502 (T ''{\"detail\":\"upstream unavailable\"}'') [(correlation_header, cid)])
                    else throw e))"

subsection \<open>The application\<close>

definition mint_id :: "env \<Rightarrow> ('x, string) act" where
  "mint_id ev =
     bnd (new_correlation_id ev) (\<lambda>t. case text_plain t of None \<Rightarrow> throw BadAnswer | Some s \<Rightarrow> ret s)"

definition subject_of :: "json dict \<Rightarrow> string res" where
  \<comment> \<open>\<open>str(claims.get("sub", "anonymous"))\<close>\<close>
  "subject_of claims =
     (case dget claims ''sub'' of
        None \<Rightarrow> Inr ''anonymous''
      | Some v \<Rightarrow> (case text_plain (py_str v) of None \<Rightarrow> Inl BadAnswer | Some s \<Rightarrow> Inr s))"

definition enforce ::
  "env \<Rightarrow> 's gateway_config \<Rightarrow> http_request \<Rightarrow> string \<Rightarrow> (('s, 'x) limiter_world_ext, headers option) act" where
  \<comment> \<open>the headers of the 429 it raises, or \<open>None\<close>\<close>
  "enforce ev cfg req state_cid =
     bnd (verify_token ev cfg req) (\<lambda>claims.
     bnd (lift_res (subject_of claims)) (\<lambda>subject.
     bnd (check ev (gc_redis cfg) (gateway_limiter cfg) subject) (\<lambda>decision.
     if allowed decision then ret None
     else
       bnd (mint_id ev) (\<lambda>_.
       ret (Some [(''Retry-After'', int_str (retry_after_s decision)), (correlation_header, state_cid)])))))"

definition with_default :: "headers \<Rightarrow> string \<Rightarrow> headers" where
  \<comment> \<open>\<open>headers.setdefault(CORRELATION_HEADER, cid)\<close>\<close>
  "with_default hs cid = (if dhas hs correlation_header then hs else dset hs correlation_header cid)"

definition exception_response :: "int \<Rightarrow> string \<Rightarrow> headers \<Rightarrow> string \<Rightarrow> http_response" where
  "exception_response status detail hs cid =
     json_response status (TJson (JObj [(''detail'', JStr (T detail))])) (with_default hs cid)"

definition handle_http_exception ::
  "(string \<Rightarrow> ('x, http_response) act) \<Rightarrow> string \<Rightarrow> ('x, http_response) act" where
  "handle_http_exception endpoint cid =
     attempt (endpoint cid)
       (\<lambda>e. case e of HTTPException status detail \<Rightarrow> ret (exception_response status detail [] cid) | e \<Rightarrow> throw e)"

definition proxied ::
  "env \<Rightarrow> 's gateway_config \<Rightarrow> http_request \<Rightarrow> string \<Rightarrow> (('s, 'x) limiter_world_ext, http_response) act" where
  \<comment> \<open>the protected route: its dependency, then the proxy\<close>
  "proxied ev cfg req cid =
     bnd (enforce ev cfg req cid) (\<lambda>denied.
     case denied of
       Some hs \<Rightarrow> ret (exception_response 429 ''rate limit exceeded'' hs cid)
     | None \<Rightarrow> proxy ev cfg req (Some cid))"

definition token_endpoint ::
  "env \<Rightarrow> 's gateway_config \<Rightarrow> string \<Rightarrow> string \<Rightarrow> string \<Rightarrow> ('x, http_response) act" where
  "token_endpoint ev cfg username password cid =
     bnd (issue_token ev cfg username password) (\<lambda>t.
     ret (json_response 200 (TJson (JObj [(''access_token'', JStr (T (access_token t))),
       (''token_type'', JStr (T (token_type t))), (''expires_in'', JInt (expires_in t))])) []))"

definition gateway_health :: "'s gateway_config \<Rightarrow> json dict" where
  "gateway_health cfg = [(''service'', JStr (T ''api-gateway'')), (''status'', JStr (T ''ok'')),
     (''redis'', JStr (T (if gc_redis cfg \<noteq> None then ''up'' else ''down''))),
     (''rate_limit_per_minute'', JInt (rate_limit_per_minute (gc_settings cfg)))]"

definition correlation_middleware ::
  "env \<Rightarrow> http_request \<Rightarrow> (string \<Rightarrow> ('x, http_response) act) \<Rightarrow> ('x, http_response) act" where
  "correlation_middleware ev req call_next =
     bnd (case header_get (hq_headers req) correlation_header of
            Some h \<Rightarrow> if h \<noteq> [] then ret h else mint_id ev
          | None \<Rightarrow> mint_id ev) (\<lambda>cid.
     bnd (bind_correlation_id (T cid)) (\<lambda>_.
     bnd (finally_do (call_next cid) unbind_correlation_id) (\<lambda>response.
     ret (response\<lparr>hp_headers := header_set (hp_headers response) correlation_header cid\<rparr>))))"

definition gateway_request ::
  "env \<Rightarrow> 's gateway_config \<Rightarrow> http_request \<Rightarrow> (('s, 'x) limiter_world_ext, http_response) act" where
  \<comment> \<open>a request of a proxied path\<close>
  "gateway_request ev cfg req =
     correlation_middleware ev req (handle_http_exception (proxied ev cfg req))"

definition gateway_token ::
  "env \<Rightarrow> 's gateway_config \<Rightarrow> http_request \<Rightarrow> string \<Rightarrow> string \<Rightarrow> ('x, http_response) act" where
  "gateway_token ev cfg req username password =
     correlation_middleware ev req (handle_http_exception (token_endpoint ev cfg username password))"

subsection \<open>What each layer does to the log\<close>

fun is_http :: "ecall \<Rightarrow> bool" where
  "is_http (HttpCall t args) = True"
| "is_http c = False"

definition no_http :: "'x world_scheme \<Rightarrow> 'x world_scheme \<Rightarrow> bool" where
  "no_http = log_grows (\<lambda>c. \<not> is_http c)"

lemma mint_no_http: "keeps no_http (mint_id ev)"
  unfolding no_http_def mint_id_def new_correlation_id_def by (auto intro!: keeps_log_call split: option.split)

lemma mint_store: "mint_id ev w = (r, w') \<Longrightarrow> lw_store w' = lw_store w"
  by (auto simp: mint_id_def new_correlation_id_def bnd_def call_run split: sum.splits option.splits)

lemma verify_no_http: "keeps no_http (verify_token ev cfg req)"
  unfolding no_http_def verify_token_def by (auto intro!: keeps_log_call split: option.split)

lemma redis_no_http: "keeps no_http (redis_step ev cmd key f)" "keeps no_http (redis_read ev cmd key g)"
  unfolding no_http_def redis_step_def redis_read_def by (auto intro!: keeps_log_call keeps_log_update)

lemma suffix_no_http: "keeps no_http (fresh_suffix ev)"
  unfolding no_http_def fresh_suffix_def by (auto intro!: keeps_log_call split: option.split)

interpretation nh: run_relation no_http
  unfolding no_http_def by unfold_locales (auto simp: lg.R_refl intro: lg.R_trans)

lemma check_no_http: "keeps no_http (check ev redis lm subject)"
proof -
  have "keeps no_http (call ev ans_int ReadClock)"
    unfolding no_http_def by (intro keeps_log_call) simp
  then show ?thesis
    unfolding check_def record_request_def rate_verdict_def Let_def
    by (auto intro!: nh.keeps_bnd redis_no_http suffix_no_http split: option.split)
qed

lemma enforce_no_http: "keeps no_http (enforce ev cfg req cid)"
  unfolding enforce_def by (auto intro!: nh.keeps_bnd verify_no_http check_no_http mint_no_http)

lemma decode_token_Inr:
  "decode_token lib st now raw = Inr claims \<longleftrightarrow> jwt_decode lib now raw (jwt_secret st) = Inr claims"
  by (auto simp: decode_token_def split: sum.splits)

lemma verify_Inr:
  assumes "verify_token ev cfg req w = (Inr claims, w')"
  shows "\<exists>raw now. raw_token req = Some raw \<and> raw \<noteq> [] \<and>
      jwt_decode (gc_jwt cfg) now raw (jwt_secret (gc_settings cfg)) = Inr claims"
    and "lw_store w' = lw_store w"
  using assms
  by (auto simp: verify_token_def decode_token_Inr bnd_Inr_iff call_run split: option.splits if_splits)

definition admits :: "'s gateway_config \<Rightarrow> string \<Rightarrow> 's \<Rightarrow> 's \<Rightarrow> bool" where
  \<comment> \<open>the limiter, when there is one, has allowed a request of the subject\<close>
  "admits cfg subject s s' \<longleftrightarrow> (\<forall>api. gc_redis cfg = Some api \<longrightarrow>
     (\<exists>t uid d. check_at api (gateway_limiter cfg) t uid subject s = (Inr d, s') \<and> allowed d))"

lemma enforce_passed:
  assumes "enforce ev cfg req cid w = (Inr None, w')"
  shows "\<exists>raw now claims subject. raw_token req = Some raw \<and> raw \<noteq> [] \<and>
    jwt_decode (gc_jwt cfg) now raw (jwt_secret (gc_settings cfg)) = Inr claims \<and> subject_of claims = Inr subject \<and>
    admits cfg subject (lw_store w) (lw_store w')"
proof -
  from assms obtain claims v subject d u where v: "verify_token ev cfg req w = (Inr claims, v)"
    and s: "subject_of claims = Inr subject"
    and d: "check ev (gc_redis cfg) (gateway_limiter cfg) subject v = (Inr d, u)"
    and a: "(if allowed d then ret None else bnd (mint_id ev) (\<lambda>_.
         ret (Some [(''Retry-After'', int_str (retry_after_s d)), (correlation_header, cid)]))) u = (Inr None, w')"
    unfolding enforce_def by (auto simp: bnd_Inr_iff)
  have "allowed d" "u = w'" using a by (auto simp: bnd_Inr_iff split: if_splits)
  then show ?thesis
    using verify_Inr [OF v] s d check_is_check_at [of ev _ "gateway_limiter cfg" subject v d u]
    unfolding admits_def by fastforce
qed

lemma handled_cases:
  assumes "handle_http_exception endpoint cid w = (r, w')"
  obtains s where "endpoint cid w = (s, w')"
    "r = (case s of Inl (HTTPException n d) \<Rightarrow> Inr (exception_response n d [] cid) | _ \<Rightarrow> s)"
  using assms by (auto simp: handle_http_exception_def attempt_def split: prod.splits sum.splits exn.splits if_splits)

lemma middleware_cases:
  assumes "correlation_middleware ev req call_next w = (r, w')"
  obtains e where "mint_id ev w = (Inl e, w')" "r = Inl e"
  | cid v s u where "call_next cid (v\<lparr>ctx := Some (T cid)\<rparr>) = (s, u)"
      "header_get (hq_headers req) correlation_header = Some cid \<and> v = w \<or> mint_id ev w = (Inr cid, v)"
      "\<And>h. header_get (hq_headers req) correlation_header = Some h \<Longrightarrow> h \<noteq> [] \<Longrightarrow> cid = h"
      "w' = u \<or> w' = u\<lparr>ctx := None\<rparr>" "\<And>x. s = Inr x \<Longrightarrow> w' = u\<lparr>ctx := None\<rparr>"
      "r = (case s of Inl e \<Rightarrow> Inl e
         | Inr resp \<Rightarrow> Inr (resp\<lparr>hp_headers := header_set (hp_headers resp) correlation_header cid\<rparr>))"
proof -
  let ?mint = "case header_get (hq_headers req) correlation_header of
      Some h \<Rightarrow> if h \<noteq> [] then ret h else mint_id ev | None \<Rightarrow> mint_id ev"
  show ?thesis
    using assms unfolding correlation_middleware_def
  proof (cases rule: bnd_cases)
    case (1 e)
    then have "mint_id ev w = (Inl e, w')" by (auto split: option.splits if_splits)
    then show ?thesis using that(1) 1 by blast
  next
    case (2 cid v)
    obtain s u where su: "call_next cid (v\<lparr>ctx := Some (T cid)\<rparr>) = (s, u)" by (metis surj_pair)
    have "header_get (hq_headers req) correlation_header = Some cid \<and> v = w \<or> mint_id ev w = (Inr cid, v)"
      "\<And>h. header_get (hq_headers req) correlation_header = Some h \<Longrightarrow> h \<noteq> [] \<Longrightarrow> cid = h"
      using 2(1) by (auto split: option.splits if_splits)
    then show ?thesis
      using 2(2) su
      by (intro that(2) [of cid v s u])
        (auto simp: bnd_def bind_correlation_id_def finally_do_def unbind_correlation_id_def split: sum.splits if_splits)
  qed
qed

subsection \<open>Headers of forwarded requests and responses\<close>

lemma dict_of_snoc: "dict_of (hs @ [(k, v)]) = dset (dict_of hs) k v"
  by (simp add: dict_of_def)

lemma dict_of_keys: "distinct (map fst (dict_of hs))" "fst ` set (dict_of hs) = fst ` set hs"
proof -
  have nil: "dict_of [] = []" by (simp add: dict_of_def)
  show "distinct (map fst (dict_of hs))"
    by (induction hs rule: rev_induct) (auto simp: dict_of_snoc distinct_dset nil)
  have keys: "fst ` set (dset d k v) = insert k (fst ` set d)" for d :: "string dict" and k v
    by (simp add: dset_def dom_update)
  show "fst ` set (dict_of hs) = fst ` set hs"
  proof (induction hs rule: rev_induct)
    case (snoc h hs)
    then show ?case by (cases h) (simp add: dict_of_snoc keys)
  qed (simp add: nil)
qed

lemma safe_headers_keys: "k \<in> fst ` set (safe_headers hs) \<Longrightarrow> str_lower k \<notin> set hop_by_hop"
  unfolding safe_headers_def dict_of_keys by auto

lemma filter_dset_new:
  "\<forall>kv \<in> set d. \<not> P (fst kv) \<Longrightarrow> P k0 \<Longrightarrow> filter (\<lambda>(k, v). P k) (dset d k0 v0) = [(k0, v0)]"
  by (induction d) (auto simp: filter_empty_conv)

lemma forward_one_correlation:
  "filter (\<lambda>(k, v). str_lower k = str_lower correlation_header) (forward_headers hs cid) = [(correlation_header, cid)]"
  unfolding forward_headers_def by (rule filter_dset_new) auto

lemma correlation_not_hop: "str_lower correlation_header \<notin> set hop_by_hop"
  by (simp add: correlation_header_def hop_by_hop_def str_lower_def char_lower_def)

lemma forward_no_hop: "(k, v) \<in> set (forward_headers hs cid) \<Longrightarrow> str_lower k \<notin> set hop_by_hop"
  using set_dset_subset [of "filter (\<lambda>(k, v). str_lower k \<noteq> str_lower correlation_header) (safe_headers hs)"
      correlation_header cid] safe_headers_keys [of k hs] correlation_not_hop
  by (force simp: forward_headers_def)

lemma header_set_one:
  "filter (\<lambda>(k, v). str_lower k = str_lower name) (header_set hs name x) = [(name, x)]"
  by (auto simp: header_set_def filter_empty_conv)

subsection \<open>The gate\<close>

lemma proxy_calls:
  assumes "proxy ev cfg req c w = (r, w')"
  shows "w' = w \<or> (\<exists>base cid. route_base cfg (hq_service req) = Some base \<and> cid = proxy_correlation req c \<and>
    w' = w\<lparr>log := log w @ [HttpCall (base @ ''/'' @ hq_path req) (upstream_args req cid)]\<rparr>)"
  using assms
  by (auto simp: proxy_def Let_def attempt_def bnd_def call_run split: option.splits sum.splits if_splits)

lemma proxied_calls:
  assumes "proxied ev cfg req cid w = (r, w')" "HttpCall t args \<in> set (new_calls w w')"
  shows "\<exists>v base. enforce ev cfg req cid w = (Inr None, v) \<and> lw_store w' = lw_store v \<and>
    route_base cfg (hq_service req) = Some base \<and> t = base @ ''/'' @ hq_path req \<and>
    args = upstream_args req (proxy_correlation req (Some cid)) \<and>
    filter is_http (new_calls w w') = [HttpCall t args]"
proof -
  obtain x v where v: "enforce ev cfg req cid w = (x, v)" by (metis surj_pair)
  have g: "no_http w v" by (rule keepsD [OF enforce_no_http v])
  then have none: "HttpCall t args \<notin> set (new_calls w v)"
    using log_grows_new_calls unfolding no_http_def by fastforce
  have "v \<noteq> w'" using assms(2) none by blast
  then have p: "x = Inr None" "proxy ev cfg req (Some cid) v = (r, w')"
    using assms(1) v by (auto simp: proxied_def bnd_def split: sum.splits option.splits)
  from g obtain cs where cs: "log v = log w @ cs" "\<forall>c \<in> set cs. \<not> is_http c"
    unfolding no_http_def log_grows_def by blast
  from proxy_calls [OF p(2)] \<open>v \<noteq> w'\<close> obtain base where base: "route_base cfg (hq_service req) = Some base"
    "w' = v\<lparr>log := log v @ [HttpCall (base @ ''/'' @ hq_path req) (upstream_args req (proxy_correlation req (Some cid)))]\<rparr>"
    by auto
  have new: "new_calls w w' = cs @ [HttpCall (base @ ''/'' @ hq_path req) (upstream_args req (proxy_correlation req (Some cid)))]"
    using cs(1) base(2) by (simp add: new_calls_def)
  have "HttpCall t args = HttpCall (base @ ''/'' @ hq_path req) (upstream_args req (proxy_correlation req (Some cid)))"
    using assms(2) cs(2) unfolding new by auto
  then show ?thesis
    using v p(1) base cs(2) unfolding new by (auto simp: filter_empty_conv)
qed

lemma proxied_grows: "keeps (log_grows (\<lambda>_. True)) (proxied ev cfg req cid)"
proof -
  have "keeps (log_grows (\<lambda>_. True)) (enforce ev cfg req cid)"
    using enforce_no_http unfolding keeps_def no_http_def by (blast intro: log_grows_mono)
  moreover have "keeps (log_grows (\<lambda>_. True)) (proxy ev cfg req c)" for c
    unfolding proxy_def Let_def by (auto intro!: keeps_log_call split: option.split)
  ultimately show ?thesis unfolding proxied_def by (auto split: option.split)
qed

text \<open>A request of the gateway that calls out got through the limiter from the store it started with.\<close>

lemma gateway_emits:
  fixes w :: "('s, 'x) limiter_world_scheme"
  assumes "gateway_request ev cfg req w = (r, w')" "HttpCall t args \<in> set (new_calls w w')"
  obtains cid base and v x :: "('s, 'x) limiter_world_scheme" where
    "enforce ev cfg req cid v = (Inr None, x)" "lw_store v = lw_store w" "lw_store x = lw_store w'"
    "route_base cfg (hq_service req) = Some base" "t = base @ ''/'' @ hq_path req"
    "args = upstream_args req (proxy_correlation req (Some cid))" "filter is_http (new_calls w w') = [HttpCall t args]"
  using assms(1)
proof (cases rule: middleware_cases [OF assms(1) [unfolded gateway_request_def]])
  case (1 e)
  have "no_http w w'" by (rule keepsD [OF mint_no_http 1(1)])
  then have "HttpCall t args \<notin> set (new_calls w w')"
    using log_grows_new_calls unfolding no_http_def by fastforce
  then show ?thesis using assms(2) by blast
next
  case (2 cid v s u)
  let ?v = "v\<lparr>ctx := Some (T cid)\<rparr>"
  obtain s0 where s0: "proxied ev cfg req cid ?v = (s0, u)" by (rule handled_cases [OF 2(1)]) blast
  have "no_http w v"
    using 2(2) nh.R_refl keepsD [OF mint_no_http] by metis
  then obtain cs where cs: "log v = log w @ cs" "\<forall>c \<in> set cs. \<not> is_http c"
    unfolding no_http_def log_grows_def by blast
  have lw: "log w' = log u" "lw_store w' = lw_store u" using 2(4) by auto
  have lv: "lw_store v = lw_store w" using 2(2) mint_store by blast
  obtain ds where ds: "log u = log v @ ds"
    using keepsD [OF proxied_grows s0] by (auto simp: log_grows_def)
  have new: "new_calls w w' = cs @ ds" "new_calls ?v u = ds"
    using lw(1) ds cs(1) by (simp_all add: new_calls_def)
  have "HttpCall t args \<in> set (new_calls ?v u)" using assms(2) cs(2) unfolding new by auto
  from proxied_calls [OF s0 this] obtain x base where x: "enforce ev cfg req cid ?v = (Inr None, x)"
    "lw_store u = lw_store x" "route_base cfg (hq_service req) = Some base" "t = base @ ''/'' @ hq_path req"
    "args = upstream_args req (proxy_correlation req (Some cid))" "filter is_http ds = [HttpCall t args]"
    unfolding new by blast
  have "filter is_http (new_calls w w') = [HttpCall t args]"
    using x(6) cs(2) unfolding new by (simp add: filter_empty_conv)
  then show ?thesis using that [OF x(1) _ _ x(3-5)] lv lw(2) x(2) by simp
qed



subsection \<open>Tokens round-trip\<close>

definition jwt_law :: "jwt_lib \<Rightarrow> json dict \<Rightarrow> string \<Rightarrow> bool" where
  \<comment> \<open>PyJWT: a token decodes to its claims from its \<open>iat\<close> until its \<open>exp\<close>, and is refused after it\<close>
  "jwt_law lib claims secret \<longleftrightarrow> jwt_encode lib claims secret \<noteq> [] \<and>
     (\<forall>iat exp now. dget claims ''iat'' = Some (JInt iat) \<and> dget claims ''exp'' = Some (JInt exp) \<and> iat \<le> now \<longrightarrow>
        jwt_decode lib now (jwt_encode lib claims secret) secret =
          (if now < exp then Inr claims else Inl JwtError))"

lemma expiry_seconds: "(now + m * 60 * 1000000) div 1000000 = now div 1000000 + m * (60 :: int)"
  by simp

text \<open>
  C32. A token is issued for the configured credentials only, and presented later it identifies that
  user for exactly \<open>token_expire_minutes\<close>, to the second; from then on it is refused.
\<close>

theorem token_roundtrip:
  assumes "issue_token ev cfg username password w = (Inr t, w')" "reply ev (log w) ReadClock = AInt now"
    and "jwt_law (gc_jwt cfg) (token_claims (gc_settings cfg) username now) (jwt_secret (gc_settings cfg))"
    and "raw_token req = Some (access_token t)" "reply ev2 (log u) ReadClock = AInt later" "now \<le> later"
  shows "username = gateway_username (gc_settings cfg) \<and> password = gateway_password (gc_settings cfg) \<and>
    expires_in t = token_expire_minutes (gc_settings cfg) * 60 \<and>
    (if later div 1000000 < now div 1000000 + expires_in t
     then \<exists>claims. fst (verify_token ev2 cfg req u) = Inr claims \<and> subject_of claims = Inr username
     else fst (verify_token ev2 cfg req u) = Inl (HTTPException 401 ''invalid or expired token''))"
proof -
  let ?st = "gc_settings cfg" and ?claims = "token_claims (gc_settings cfg) username now"
  have creds: "username = gateway_username ?st" "password = gateway_password ?st"
    and t: "access_token t = jwt_encode (gc_jwt cfg) ?claims (jwt_secret ?st)"
      "expires_in t = token_expire_minutes ?st * 60"
    using assms(1,2)
    by (auto simp: issue_token_def compare_digest_def create_token_def bnd_Inr_iff call_run Let_def split: if_splits)
  have "fst (verify_token ev2 cfg req u) = decode_token (gc_jwt cfg) ?st (later div 1000000) (access_token t)"
    using assms(3-5) t by (auto simp: verify_token_def bnd_def call_run jwt_law_def)
  moreover have "jwt_decode (gc_jwt cfg) (later div 1000000) (access_token t) (jwt_secret ?st) =
      (if later div 1000000 < now div 1000000 + expires_in t then Inr ?claims else Inl JwtError)"
    using assms(3,6) expiry_seconds [of now "token_expire_minutes ?st"] unfolding jwt_law_def t
    by (simp add: token_claims_def zdiv_mono1)
  moreover have "subject_of ?claims = Inr username" by (simp add: subject_of_def token_claims_def)
  ultimately show ?thesis using creds t(2) by (auto simp: decode_token_def)
qed

subsection \<open>Concrete requests\<close>

definition one_token :: "json dict \<Rightarrow> jwt_lib" where
  \<comment> \<open>a library that knows the token of one set of claims\<close>
  "one_token claims = \<lparr>jwt_encode = (\<lambda>c s. ''tok''),
     jwt_decode = (\<lambda>now t s. case (dget claims ''iat'', dget claims ''exp'') of
        (Some (JInt i), Some (JInt e)) \<Rightarrow> if t = ''tok'' \<and> now < e then Inr claims else Inl JwtError
      | _ \<Rightarrow> Inl JwtError)\<rparr>"

lemma one_token_law: "jwt_law (one_token claims) claims secret"
  by (auto simp: jwt_law_def one_token_def)

definition demo_gateway :: "fake_redis gateway_config" where
  "demo_gateway = \<lparr>gc_settings = default_settings,
     gc_jwt = one_token (token_claims default_settings ''vix-admin'' 5000000),
     gc_redis = Some fake_api, gc_routes = None\<rparr>"

definition get_history :: http_request where
  "get_history = \<lparr>hq_method = ''GET'', hq_service = ''signals'', hq_path = ''history'', hq_query = [],
     hq_headers = [(''host'', ''gw''), (''accept'', ''*/*''), (''x-correlation-id'', ''abc'')], hq_body = '''',
     hq_bearer = Some ''tok''\<rparr>"

definition clock_env :: "int \<Rightarrow> env" where
  "clock_env now = \<lparr>reply = (\<lambda>l c. case c of ReadClock \<Rightarrow> AInt now | NewId \<Rightarrow> AText (T ''0123456789abcdef'')
     | HttpCall t args \<Rightarrow> AHttp 200 [(''content-type'', ''application/json''), (''content-length'', ''2'')] ''{}''
     | _ \<Rightarrow> AUnit)\<rparr>"

definition start_gateway :: "fake_redis limiter_world" where
  "start_gateway = \<lparr>log = [], ctx = None, conn = False, lw_store = no_requests\<rparr>"

lemma clock_env_replies [simp]:
  "reply (clock_env now) l ReadClock = AInt now" "reply (clock_env now) l NewId = AText (T ''0123456789abcdef'')"
  "reply (clock_env now) l (RedisZ cmd key) = AUnit"
  "reply (clock_env now) l (HttpCall t args) =
     AHttp 200 [(''content-type'', ''application/json''), (''content-length'', ''2'')] ''{}''"
  by (simp_all add: clock_env_def)

theorem token_roundtrip_witness:
  "\<exists>t w. issue_token (clock_env 5000000) demo_gateway ''vix-admin'' ''change-me-gateway'' start_gateway = (Inr t, w) \<and>
     (\<exists>claims. fst (verify_token (clock_env 3604999999) demo_gateway get_history start_gateway) = Inr claims \<and>
        subject_of claims = Inr ''vix-admin'') \<and>
     fst (verify_token (clock_env 3605000000) demo_gateway get_history start_gateway) =
       Inl (HTTPException 401 ''invalid or expired token'')"
proof -
  let ?ev = "clock_env 5000000"
  obtain t w where i: "issue_token ?ev demo_gateway ''vix-admin'' ''change-me-gateway'' start_gateway = (Inr t, w)"
    and t: "access_token t = ''tok''" "expires_in t = 3600"
    by (simp add: issue_token_def demo_gateway_def default_settings_def compare_digest_def is_ascii_def Let_def
        create_token_def bnd_def call_run one_token_def)
  have law: "jwt_law (gc_jwt demo_gateway) (token_claims (gc_settings demo_gateway) ''vix-admin'' 5000000)
      (jwt_secret (gc_settings demo_gateway))"
    by (simp add: demo_gateway_def one_token_law)
  have raw: "raw_token get_history = Some (access_token t)" by (simp add: raw_token_def get_history_def t)
  note rt = token_roundtrip [OF i clock_env_replies(1) law raw clock_env_replies(1), where u = start_gateway]
  show ?thesis using i rt [of 3604999999] rt [of 3605000000] t(2) by simp
qed

lemma demo_correlation: "header_get (hq_headers get_history) correlation_header = Some ''abc''"
  by code_simp

lemma demo_check:
  fixes w :: "fake_redis limiter_world"
  assumes "lw_store w = no_requests"
  shows "\<exists>v. check (clock_env 5000000) (Some fake_api) (gateway_limiter demo_gateway) ''vix-admin'' w =
     (Inr \<lparr>allowed = True, remaining = 99, retry_after_s = 0\<rparr>, v)"
  by (simp add: check_def bnd_def call_run fresh_suffix_def record_request_def rate_verdict_def redis_step_def
      redis_read_def fake_api_def demo_gateway_def gateway_limiter_def default_settings_def assms
      fake_zremrangebyscore_def fake_zadd_def fake_zcard_def fake_expire_def fake_zset_def no_requests_def Let_def)

lemma demo_enforce:
  fixes w :: "fake_redis limiter_world"
  assumes "lw_store w = no_requests"
  shows "\<exists>v. enforce (clock_env 5000000) demo_gateway get_history ''abc'' w = (Inr None, v)"
proof -
  let ?claims = "token_claims default_settings ''vix-admin'' 5000000"
  have "decode_token (gc_jwt demo_gateway) (gc_settings demo_gateway) 5 ''tok'' = Inr ?claims"
    by (simp add: decode_token_Inr) (simp add: demo_gateway_def one_token_def token_claims_def default_settings_def)
  then have "verify_token (clock_env 5000000) demo_gateway get_history w = (Inr ?claims, w\<lparr>log := log w @ [ReadClock]\<rparr>)"
    by (simp add: verify_token_def raw_token_def get_history_def bnd_def call_run)
  moreover have "subject_of ?claims = Inr ''vix-admin''" "gc_redis demo_gateway = Some fake_api"
    by (simp_all add: subject_of_def token_claims_def demo_gateway_def)
  ultimately show ?thesis
    using demo_check [of "w\<lparr>log := log w @ [ReadClock]\<rparr>"] assms by (auto simp: enforce_def bnd_def)
qed

lemma demo_request:
  "\<exists>resp w t args. gateway_request (clock_env 5000000) demo_gateway get_history start_gateway = (Inr resp, w) \<and>
     HttpCall t args \<in> set (new_calls start_gateway w)"
proof -
  let ?ev = "clock_env 5000000" and ?w = "start_gateway\<lparr>ctx := Some (T ''abc'')\<rparr>"
  have "lw_store ?w = no_requests" by (simp add: start_gateway_def)
  from demo_enforce [OF this] obtain v where "enforce ?ev demo_gateway get_history ''abc'' ?w = (Inr None, v)"
    by blast
  then have "proxied ?ev demo_gateway get_history ''abc'' ?w = proxy ?ev demo_gateway get_history (Some ''abc'') v"
    by (simp add: proxied_def bnd_def)
  moreover have "\<exists>base. route_base demo_gateway (hq_service get_history) = Some base"
    by (simp add: route_base_def demo_gateway_def get_history_def service_routes_def)
  then obtain base where "route_base demo_gateway (hq_service get_history) = Some base" by blast
  then have "\<exists>resp. proxy ?ev demo_gateway get_history (Some ''abc'') v = (Inr resp, v\<lparr>log := log v @
      [HttpCall (base @ ''/'' @ hq_path get_history) (upstream_args get_history (proxy_correlation get_history (Some ''abc'')))]\<rparr>)"
    by (simp add: proxy_def Let_def attempt_def bnd_def call_run)
  ultimately obtain resp t args where "proxied ?ev demo_gateway get_history ''abc'' ?w =
      (Inr resp, v\<lparr>log := log v @ [HttpCall t args]\<rparr>)"
    by (simp only:) blast
  then obtain resp t args where "handle_http_exception (proxied ?ev demo_gateway get_history) ''abc'' ?w =
      (Inr resp, v\<lparr>log := log v @ [HttpCall t args]\<rparr>)"
    by (auto simp: handle_http_exception_def attempt_def)
  then show ?thesis
    unfolding gateway_request_def correlation_middleware_def demo_correlation
    by (simp add: bnd_def bind_correlation_id_def finally_do_def unbind_correlation_id_def new_calls_def)
      (auto simp: start_gateway_def)
qed



end
