(* ===== verification/Commands.thy ===== *)
theory Commands
  imports DataService Features Gateway
begin

text \<open>
  \<open>scripts/start_system.py\<close>: the operations command line. Subprocesses and sockets are \<open>OsCall\<close>s,
  the gateway is reached by \<open>HttpCall\<close>s, \<open>urlparse\<close> is a parameter. The features command runs the
  feature service's frame over the whole stored history.
\<close>

subsection \<open>Shared helpers\<close>

record cli_config =
  ci_settings :: settings
  ci_jwt :: jwt_lib
  ci_url :: "string \<Rightarrow> string option \<times> int option"     \<comment> \<open>\<open>urlparse(url)\<close>: hostname, port\<close>
  ci_terminal :: terminal
  ci_features :: feature_config

definition ops_claims :: "int \<Rightarrow> json dict" where
  "ops_claims now = [(''sub'', JStr (T ''ops-cli'')), (''iat'', JInt (now div 1000000)),
     (''exp'', JInt ((now + 15 * 60 * 1000000) div 1000000))]"

definition mint_token :: "env \<Rightarrow> cli_config \<Rightarrow> ('x, string) act" where
  "mint_token ev cfg =
     bnd (call ev ans_int ReadClock) (\<lambda>now.
     ret (jwt_encode (ci_jwt cfg) (ops_claims now) (jwt_secret (ci_settings cfg))))"

definition auth_headers :: "env \<Rightarrow> cli_config \<Rightarrow> ('x, json) act" where
  "auth_headers ev cfg =
     bnd (mint_token ev cfg) (\<lambda>token.
     bnd (new_correlation_id ev) (\<lambda>cid.
     ret (JObj [(''Authorization'', JStr (T (''Bearer '' @ token))), (correlation_header, JStr cid)])))"

definition http_post :: "env \<Rightarrow> string \<Rightarrow> json list \<Rightarrow> ('x, int) act" where
  \<comment> \<open>the status code\<close>
  "http_post ev url args = bnd (call ev ans_http (HttpCall url args)) (\<lambda>(status, hs, content). ret status)"

fun is_os_error :: "exn \<Rightarrow> bool" where
  "is_os_error (OSError m) = True"
| "is_os_error e = False"

definition default_timeout_s :: int where "default_timeout_s = 120"

fun wait_loop :: "env \<Rightarrow> string \<Rightarrow> int \<Rightarrow> int \<Rightarrow> nat \<Rightarrow> ('x, bool) act" where
  \<comment> \<open>the number bounds the turns of the \<open>while\<close>\<close>
  "wait_loop ev host port deadline 0 = throw Diverged"
| "wait_loop ev host port deadline (Suc n) =
     bnd (call ev ans_int ReadClock) (\<lambda>now.
     if \<not> now < deadline then ret False
     else
       bnd (attempt (bnd (call ev ans_unit (OsCall ''connect'' [JStr (T host), JInt port])) (\<lambda>_. ret True))
              (\<lambda>e. if is_os_error e then bnd (call ev ans_unit (SleepFor (mk 2))) (\<lambda>_. ret False) else throw e)) (\<lambda>ready.
       if ready then ret True else wait_loop ev host port deadline n))"

definition wait_for_tcp :: "env \<Rightarrow> string \<Rightarrow> int \<Rightarrow> nat \<Rightarrow> ('x, bool) act" where
  "wait_for_tcp ev host port fuel =
     bnd (call ev ans_int ReadClock) (\<lambda>now. wait_loop ev host port (now + default_timeout_s * 1000000) fuel)"

definition parse_host_port :: "cli_config \<Rightarrow> string \<Rightarrow> int \<Rightarrow> string \<times> int" where
  "parse_host_port cfg url default_port =
     (let (h, p) = ci_url cfg url
      in (case h of Some s \<Rightarrow> if s = [] then ''localhost'' else s | None \<Rightarrow> ''localhost'',
          case p of Some n \<Rightarrow> if n = 0 then default_port else n | None \<Rightarrow> default_port))"

datatype model_choice = HMM | META_LABEL | BOTH

record cli_args =
  ca_gateway_url :: string
  ca_prod :: bool
  ca_symbol :: "string option"
  ca_days :: int
  ca_timeframes :: "string list"
  ca_chunk_size :: int
  ca_via_gateway :: bool
  ca_timeframe :: string
  ca_model :: model_choice

datatype command = BACKFILL | FEATURES | TRAIN | UP | DOWN | STATUS

definition default_args :: "model_choice \<Rightarrow> cli_args" where
  \<comment> \<open>\<open>--model\<close> is required, the other options default\<close>
  "default_args m = \<lparr>ca_gateway_url = ''http://localhost:8000'', ca_prod = False, ca_symbol = None, ca_days = 365,
     ca_timeframes = [''M5'', ''M15'', ''H1'', ''H4''], ca_chunk_size = 10000, ca_via_gateway = False,
     ca_timeframe = ''M15'', ca_model = m\<rparr>"

definition args_valid :: "command \<Rightarrow> cli_args \<Rightarrow> bool" where
  \<comment> \<open>the \<open>choices\<close> and \<open>nargs\<close> of the parser\<close>
  "args_valid c a \<longleftrightarrow>
     (c = BACKFILL \<longrightarrow> ca_timeframes a \<noteq> []) \<and>
     (c = FEATURES \<longrightarrow> ca_timeframe a \<in> {''M1'', ''M5'', ''M15'', ''H1'', ''H4''}) \<and>
     (c = TRAIN \<longrightarrow> ca_timeframe a \<in> {''M5'', ''M15'', ''H1''})"

definition chosen_symbol :: "cli_config \<Rightarrow> cli_args \<Rightarrow> string" where
  \<comment> \<open>\<open>args.symbol or settings.symbol\<close>\<close>
  "chosen_symbol cfg a =
     (case ca_symbol a of Some s \<Rightarrow> if s = [] then symbol (ci_settings cfg) else s | None \<Rightarrow> symbol (ci_settings cfg))"

definition compose :: "env \<Rightarrow> cli_args \<Rightarrow> string list \<Rightarrow> ('x, int) act" where
  "compose ev a cmd =
     call ev ans_int (OsCall ''docker'' (map (\<lambda>s. JStr (T s))
       ([''compose'', ''-f'', ''docker-compose.yml''] @
        (if ca_prod a then [''-f'', ''docker-compose.prod.yml''] else []) @ cmd)))"

subsection \<open>Backfill\<close>

definition run_backfill :: "env \<Rightarrow> cli_config \<Rightarrow> string \<Rightarrow> cli_args \<Rightarrow> nat \<Rightarrow> ('x, int) data_act" where
  "run_backfill ev cfg symb a fuel =
     bnd (attempt (bnd (terminal_connect ev (ci_terminal cfg)) (\<lambda>_. ret True))
            (\<lambda>e. if is_exception e then ret False else throw e)) (\<lambda>connected.
     if \<not> connected then ret 2
     else
       bnd (da_connect ev) (\<lambda>_.
       bnd (finally_do
              (each (\<lambda>tf. bnd (backfill_timeframe ev (ci_terminal cfg) symb tf (ca_days a) (ca_chunk_size a) fuel) (\<lambda>_. ret ()))
                 (ca_timeframes a))
              (bnd (terminal_shutdown ev (ci_terminal cfg)) (\<lambda>_. da_close ev))) (\<lambda>_.
       ret 0)))"

definition gateway_backfill :: "env \<Rightarrow> cli_config \<Rightarrow> cli_args \<Rightarrow> ('x, int) act" where
  "gateway_backfill ev cfg a =
     bnd (auth_headers ev cfg) (\<lambda>hs.
     bnd (http_post ev (ca_gateway_url a @ ''/data/backfill'')
            [JObj [(''timeframes'', JArr (map (\<lambda>tf. JStr (T tf)) (ca_timeframes a))), (''lookback_days'', JInt (ca_days a))], hs]) (\<lambda>status.
     ret (if status = 202 then 0 else 1)))"

definition cmd_backfill :: "env \<Rightarrow> cli_config \<Rightarrow> cli_args \<Rightarrow> nat \<Rightarrow> ('x, int) data_act" where
  "cmd_backfill ev cfg a fuel =
     (if ca_via_gateway a then gateway_backfill ev cfg a
      else attempt (run_backfill ev cfg (chosen_symbol cfg a) a fuel)
             (\<lambda>e. if e = KeyboardInterrupt then ret 130 else if is_exception e then ret 2 else throw e))"

subsection \<open>Feature history\<close>

definition finite_or_none :: "f64 list \<Rightarrow> nat \<Rightarrow> json" where
  "finite_or_none xs i = (if is_fin (xs ! i) then JNum (xs ! i) else JNull)"

definition history_row :: "string \<Rightarrow> string \<Rightarrow> bar list \<Rightarrow> feature_frame \<Rightarrow> f64 option \<Rightarrow> f64 option \<Rightarrow> json \<Rightarrow> nat \<Rightarrow> json list" where
  "history_row symb tf bars fr swing_high swing_low zones i =
     [JStr (T symb), JStr (T tf), JInt (b_ts (bars ! i)),
      finite_or_none (ff_close fr) i, finite_or_none (ff_atr fr) i, finite_or_none (ff_atr_norm fr) i,
      finite_or_none (ff_rsi fr) i, finite_or_none (ff_ema50 fr) i, finite_or_none (ff_ema200 fr) i,
      finite_or_none (ff_bb_upper fr) i, finite_or_none (ff_bb_mid fr) i, finite_or_none (ff_bb_lower fr) i,
      finite_or_none (ff_stoch_k fr) i, finite_or_none (ff_stoch_d fr) i, finite_or_none (ff_realized_vol fr) i,
      finite_or_none (ff_log_return fr) i, json_opt JNum swing_high, json_opt JNum swing_low, zones]"

definition history_rows :: "numlib \<Rightarrow> (nat \<Rightarrow> string) \<Rightarrow> string \<Rightarrow> string \<Rightarrow> bar list \<Rightarrow> json list list res" where
  "history_rows lib ids symb tf bars =
     res_bind (build_frame lib bars) (\<lambda>fr.
     res_bind (build_zones lib default_zone_config ids (ff_open fr) (ff_high fr) (ff_low fr) (ff_close fr) (ff_ts fr)) (\<lambda>zs.
     res_bind (latest_pivots lib (ff_high fr) (ff_low fr) 5) (\<lambda>(swing_high, swing_low).
     let zones = JArr (map (\<lambda>z. JObj (zone_dump z)) (filter (\<lambda>z. z_state z \<noteq> BROKEN) zs))
     in Inr (map (history_row symb tf bars fr swing_high swing_low zones) [warmup_index + 1..<length bars]))))"

definition cmd_features :: "env \<Rightarrow> cli_config \<Rightarrow> cli_args \<Rightarrow> ('x, int) act" where
  "cmd_features ev cfg a =
     (let symb = chosen_symbol cfg a; fc = ci_features cfg in
      bnd (call ev ans_unit (SqlRun ''connect'' [])) (\<lambda>_.
      bnd (call ev ans_rows (SqlRows ''all_bars'' [JStr (T symb), JStr (T (ca_timeframe a))])) (\<lambda>rows.
      bnd (lift_res (res_map (bar_of_row (fc_codec fc)) rows)) (\<lambda>bars.
      if length bars \<le> warmup_index + 1 then ret 1
      else
        bnd (look log) (\<lambda>l.
        bnd (lift_res (history_rows (fc_lib fc) (fc_ids fc l) symb (ca_timeframe a) bars)) (\<lambda>payload.
        bnd (call ev ans_unit (SqlRun ''connect'' [])) (\<lambda>_.
        bnd (call ev ans_unit (SqlRun ''insert_features'' (map JArr payload))) (\<lambda>_.
        ret 0))))))))"

subsection \<open>Training and the stack\<close>

definition train_models :: "model_choice \<Rightarrow> model_choice list" where
  \<comment> \<open>\<open>sorted(VALID_MODELS)\<close> for both\<close>
  "train_models m = (if m = BOTH then [BOTH, HMM, META_LABEL] else [m])"

fun train_requests :: "env \<Rightarrow> cli_config \<Rightarrow> cli_args \<Rightarrow> model_choice list \<Rightarrow> ('x, int list) act" where
  "train_requests ev cfg a [] = ret []"
| "train_requests ev cfg a (m # ms) =
     bnd (auth_headers ev cfg) (\<lambda>hs.
     bnd (http_post ev (ca_gateway_url a @ ''/ml/train?timeframe='' @ ca_timeframe a) [hs]) (\<lambda>status.
     bnd (train_requests ev cfg a ms) (\<lambda>rest.
     ret ((if status = 202 then 0 else 1) # rest))))"

definition cmd_train :: "env \<Rightarrow> cli_config \<Rightarrow> cli_args \<Rightarrow> ('x, int) act" where
  "cmd_train ev cfg a =
     bnd (train_requests ev cfg a (train_models (ca_model a))) (\<lambda>results.
     ret (if results = [] then 0 else Max (set results)))"

definition cmd_up :: "env \<Rightarrow> cli_config \<Rightarrow> cli_args \<Rightarrow> nat \<Rightarrow> ('x, int) act" where
  "cmd_up ev cfg a fuel =
     bnd (compose ev a [''up'', ''-d'', ''--build'']) (\<lambda>rc.
     if rc \<noteq> 0 then ret rc
     else
       let (pg_host, pg_port) = parse_host_port cfg (database_url (ci_settings cfg)) 5432;
           (redis_host, redis_port) = parse_host_port cfg (redis_url (ci_settings cfg)) 6379;
           (gw_host, gw_port) = parse_host_port cfg (ca_gateway_url a) 80
       in bnd (wait_for_tcp ev pg_host pg_port fuel) (\<lambda>pg.
          bnd (wait_for_tcp ev redis_host redis_port fuel) (\<lambda>rd.
          bnd (wait_for_tcp ev gw_host gw_port fuel) (\<lambda>gw.
          ret (if pg \<and> rd \<and> gw then 0 else 1)))))"

definition cmd_down :: "env \<Rightarrow> cli_args \<Rightarrow> ('x, int) act" where
  "cmd_down ev a = compose ev a [''down'']"

definition cmd_status :: "env \<Rightarrow> cli_args \<Rightarrow> ('x, int) act" where
  "cmd_status ev a = compose ev a [''ps'']"

definition run_command :: "env \<Rightarrow> cli_config \<Rightarrow> command \<Rightarrow> cli_args \<Rightarrow> nat \<Rightarrow> ('x, int) data_act" where
  "run_command ev cfg c a fuel = (case c of
       BACKFILL \<Rightarrow> cmd_backfill ev cfg a fuel
     | FEATURES \<Rightarrow> cmd_features ev cfg a
     | TRAIN \<Rightarrow> cmd_train ev cfg a
     | UP \<Rightarrow> cmd_up ev cfg a fuel
     | DOWN \<Rightarrow> cmd_down ev a
     | STATUS \<Rightarrow> cmd_status ev a)"

subsection \<open>What the commands ask for\<close>

text \<open>The default timeframes of \<open>backfill --via-gateway\<close> include H4, which the data service refuses.\<close>

lemma gateway_backfill_default_rejected:
  "trigger_backfill ev ing (default_backfill_request\<lparr>br_timeframes := ca_timeframes (default_args m)\<rparr>) x w =
     (Inl (HTTPException 422 ''unsupported timeframes''), w)"
  by (simp add: trigger_backfill_def default_args_def ingest_timeframes_def)

text \<open>
  Training both models sends the same request three times: the address does not name a model, and
  the request has no body.
\<close>

definition posted :: "ecall list \<Rightarrow> string list" where
  "posted cs = concat (map (\<lambda>c. case c of HttpCall url args \<Rightarrow> [url] | _ \<Rightarrow> []) cs)"

lemma posted_append [simp]: "posted (xs @ ys) = posted xs @ posted ys"
  by (simp add: posted_def)

lemma auth_headers_post_nothing:
  "auth_headers ev cfg w = (Inr hs, v) \<Longrightarrow> posted (log v) = posted (log w)"
  by (auto simp: auth_headers_def mint_token_def new_correlation_id_def bnd_Inr_iff call_run posted_def
      split: option.splits pytext.splits)

lemma train_posts_alike:
  assumes "train_requests ev cfg a ms w = (Inr rs, w')"
  shows "length rs = length ms \<and> set rs \<subseteq> {0, 1} \<and>
    posted (log w') = posted (log w) @
      replicate (length ms) (ca_gateway_url a @ ''/ml/train?timeframe='' @ ca_timeframe a)"
  using assms
proof (induction ms arbitrary: w rs)
  case Nil
  then show ?case by simp
next
  case (Cons m ms)
  obtain hs u status v rest where h: "auth_headers ev cfg w = (Inr hs, u)"
    and p: "http_post ev (ca_gateway_url a @ ''/ml/train?timeframe='' @ ca_timeframe a) [hs] u = (Inr status, v)"
    and t: "train_requests ev cfg a ms v = (Inr rest, w')" "rs = (if status = 202 then 0 else 1) # rest"
    using Cons.prems by (auto simp: bnd_Inr_iff)
  have "posted (log v) = posted (log u) @ [ca_gateway_url a @ ''/ml/train?timeframe='' @ ca_timeframe a]"
    using p by (auto simp: http_post_def bnd_Inr_iff call_run posted_def)
  then show ?case using Cons.IH [OF t(1)] auth_headers_post_nothing [OF h] t(2) by simp
qed

lemma train_both_three_requests:
  assumes "cmd_train ev cfg (default_args BOTH) w = (Inr rc, w')"
  shows "posted (log w') = posted (log w) @ replicate 3 ''http://localhost:8000/ml/train?timeframe=M15'' \<and> rc \<in> {0, 1}"
proof -
  obtain rs where r: "train_requests ev cfg (default_args BOTH) (train_models BOTH) w = (Inr rs, w')"
    and rc: "rc = (if rs = [] then 0 else Max (set rs))"
    using assms by (auto simp: cmd_train_def bnd_Inr_iff default_args_def)
  have "length rs = 3" "set rs \<subseteq> {0, 1}"
    and p: "posted (log w') = posted (log w) @ replicate 3 ''http://localhost:8000/ml/train?timeframe=M15''"
    using train_posts_alike [OF r] by (auto simp: train_models_def default_args_def eval_nat_numeral)
  moreover from this have "Max (set rs) \<in> set rs" by (intro Max_in) auto
  ultimately show ?thesis using p rc by auto
qed

text \<open>Every row of the feature history holds the pivots and the zones of the whole window.\<close>

lemma history_rows_share_zones:
  assumes "history_rows lib ids symb tf bars = Inr rows"
  shows "length rows = length bars - (warmup_index + 1)"
    and "\<exists>h l z. \<forall>row \<in> set rows. drop 16 row = [h, l, z]"
proof -
  obtain fr h l z where "rows = map (history_row symb tf bars fr h l z) [warmup_index + 1..<length bars]"
    using assms by (auto simp: history_rows_def res_bind_Inr_iff Let_def split: prod.splits)
  then show "length rows = length bars - (warmup_index + 1)" "\<exists>h l z. \<forall>row \<in> set rows. drop 16 row = [h, l, z]"
    by (auto simp: history_row_def)
qed

text \<open>A host counts as ready only when the last call was a connection that succeeded.\<close>

lemma wait_loop_ready:
  assumes "wait_loop ev host port deadline n w = (Inr True, w')"
  shows "\<exists>pre. log w' = pre @ [OsCall ''connect'' [JStr (T host), JInt port]] \<and>
    ans_unit (reply ev pre (OsCall ''connect'' [JStr (T host), JInt port])) = Inr ()"
  using assms
proof (induction n arbitrary: w)
  case (Suc n)
  obtain now where "now < deadline" and r: "bnd (attempt (bnd (call ev ans_unit (OsCall ''connect'' [JStr (T host), JInt port])) (\<lambda>_. ret True))
        (\<lambda>e. if is_os_error e then bnd (call ev ans_unit (SleepFor (mk 2))) (\<lambda>_. ret False) else throw e))
        (\<lambda>ready. if ready then ret True else wait_loop ev host port deadline n)
        (w\<lparr>log := log w @ [ReadClock]\<rparr>) = (Inr True, w')"
    using Suc.prems by (auto simp: bnd_Inr_iff call_run split: if_splits)
  obtain ready v where a: "attempt (bnd (call ev ans_unit (OsCall ''connect'' [JStr (T host), JInt port])) (\<lambda>_. ret True))
        (\<lambda>e. if is_os_error e then bnd (call ev ans_unit (SleepFor (mk 2))) (\<lambda>_. ret False) else throw e)
        (w\<lparr>log := log w @ [ReadClock]\<rparr>) = (Inr ready, v)"
    and rest: "(if ready then ret True else wait_loop ev host port deadline n) v = (Inr True, w')"
    using r by (auto simp: bnd_Inr_iff)
  show ?case
  proof (cases ready)
    case True
    then show ?thesis using a rest
      by (auto simp: attempt_def bnd_def call_run split: sum.splits if_splits)
  next
    case False
    then show ?thesis using Suc.IH rest by simp
  qed
qed simp

end
