(* ===== verification/Visualization.thy ===== *)
theory Visualization
  imports Outcomes Connection
begin

text \<open>
  The visualization service: \<open>db.py\<close> (windows of stored rows by column), \<open>charts.py\<close> (what each
  chart draws) and \<open>routes.py\<close>. A figure is the list of calls made on it; Plotly turns it into
  JSON. Columns come as the driver's values, whose \<open>str\<close> is a parameter.
\<close>

subsection \<open>Rows by column\<close>

datatype cell =
    CNull
  | CBool bool
  | CInt int
  | CNum f64
  | CText string
  | CTime int            \<comment> \<open>a \<open>datetime\<close>\<close>
  | CDecimal f64
  | CJson json

type_synonym columns = "(string \<times> cell list) list"

definition ohlcv_columns :: "string list" where
  "ohlcv_columns = [''ts'', ''open'', ''high'', ''low'', ''close'', ''volume'']"

definition feature_columns :: "string list" where
  "feature_columns = [''ts'', ''close'', ''regime_id'', ''zones'']"

definition signal_columns :: "string list" where
  "signal_columns = [''id'', ''created_ts'', ''direction'', ''entry'', ''sl'', ''tp1'', ''tp2'', ''score'', ''max_score'',
     ''p_win'', ''status'']"

definition to_cols :: "cell list list \<Rightarrow> string list \<Rightarrow> columns" where
  \<comment> \<open>each row has a value per column of its query\<close>
  "to_cols rows names = map (\<lambda>i. (names ! i, map (\<lambda>row. row ! i) rows)) [0..<length names]"

definition row_dicts :: "columns \<Rightarrow> (string \<times> cell) list list" where
  \<comment> \<open>\<open>_dicts\<close>\<close>
  "row_dicts data =
     (let n = (case data of [] \<Rightarrow> 0 | (k, xs) # _ \<Rightarrow> length xs)
      in map (\<lambda>i. map (\<lambda>(k, xs). (k, xs ! i)) data) [0..<n])"

record viz_db =
  vd_rows :: "ecall list \<Rightarrow> string \<Rightarrow> json list \<Rightarrow> cell list list res"    \<comment> \<open>the rows of a query after the calls so far\<close>

definition vz_connect :: "env \<Rightarrow> ('x, unit) act" where
  "vz_connect ev = db_connect ev"

definition vz_close :: "env \<Rightarrow> ('x, unit) act" where
  "vz_close ev = db_close ev"

definition vz_ping :: "env \<Rightarrow> ('x, bool) act" where
  "vz_ping ev = db_ping ev"

definition vz_query :: "env \<Rightarrow> viz_db \<Rightarrow> string \<Rightarrow> (int \<Rightarrow> json list) \<Rightarrow> int \<Rightarrow> ('x, cell list list) act" where
  \<comment> \<open>the rows since so many days ago\<close>
  "vz_query ev db name args days =
     bnd (call ev ans_int ReadClock) (\<lambda>now.
     bnd (db_ensure ev) (\<lambda>_.
     bnd (ask ev (SqlRows name (args (now - days * 86400000000)))) (\<lambda>_.
     bnd (look log) (\<lambda>l. lift_res (vd_rows db l name (args (now - days * 86400000000)))))))"

definition fetch_ohlcv :: "env \<Rightarrow> viz_db \<Rightarrow> string \<Rightarrow> string \<Rightarrow> int \<Rightarrow> ('x, columns) act" where
  "fetch_ohlcv ev db symb tf days =
     bnd (vz_query ev db ''ohlcv'' (\<lambda>since. [JStr (T symb), JStr (T tf), JInt since]) days) (\<lambda>rows.
     ret (to_cols rows ohlcv_columns))"

definition fetch_features_with_regime :: "env \<Rightarrow> viz_db \<Rightarrow> string \<Rightarrow> string \<Rightarrow> int \<Rightarrow> ('x, columns) act" where
  "fetch_features_with_regime ev db symb tf days =
     bnd (vz_query ev db ''features'' (\<lambda>since. [JStr (T symb), JStr (T tf), JInt since]) days) (\<lambda>rows.
     ret (to_cols rows feature_columns))"

definition fetch_signals :: "env \<Rightarrow> viz_db \<Rightarrow> string \<Rightarrow> int \<Rightarrow> ('x, columns) act" where
  "fetch_signals ev db symb days =
     bnd (vz_query ev db ''signals'' (\<lambda>since. [JStr (T symb), JInt since]) days) (\<lambda>rows.
     ret (to_cols rows signal_columns))"

subsection \<open>Charts\<close>

datatype fig_call =
    AddCandlestick "cell list" "cell list" "cell list" "cell list" "cell list" string string string
  | AddHrect f64 f64 string string                      \<comment> \<open>y0, y1, fill colour, annotation\<close>
  | AddMarker json json string string pytext pytext     \<comment> \<open>x, y, symbol, colour, name, hover text\<close>
  | AddVrect cell cell string string                    \<comment> \<open>x0, x1, fill colour, annotation\<close>
  | AddLine string "cell list" "cell list" string       \<comment> \<open>name, x, y, mode\<close>
  | AddBar "string list" "f64 list" string
  | AddAnnotation string
  | UpdateLayout string int                             \<comment> \<open>title, height\<close>

definition color_bull :: string where "color_bull = ''#26a69a''"
definition color_bear :: string where "color_bear = ''#ef5350''"
definition color_supply :: string where "color_supply = ''rgba(239,83,80,0.15)''"
definition color_demand :: string where "color_demand = ''rgba(38,166,154,0.15)''"

definition regime_colors :: "(int \<times> string) list" where
  "regime_colors = [(0, ''rgba(158,158,158,0.12)''), (1, ''rgba(76,175,80,0.10)''), (2, ''rgba(244,67,54,0.10)'')]"

definition regime_labels :: "(int \<times> string) list" where
  "regime_labels = [(0, ''S0 Range''), (1, ''S1 Up''), (2, ''S2 Down'')]"

definition column :: "columns \<Rightarrow> string \<Rightarrow> cell list" where
  \<comment> \<open>\<open>d.get(k, [])\<close>\<close>
  "column d k = (case dget d k of Some xs \<Rightarrow> xs | None \<Rightarrow> [])"

definition upper_char :: "char \<Rightarrow> char" where
  "upper_char c = (let n = (of_char c :: nat) in if 97 \<le> n \<and> n \<le> 122 then char_of (n - 32) else c)"

definition str_upper :: "json \<Rightarrow> string res" where
  \<comment> \<open>\<open>kind.upper()\<close>, ASCII kinds\<close>
  "str_upper v = (case v of JStr t \<Rightarrow> (case text_plain t of Some s \<Rightarrow> Inr (map upper_char s) | None \<Rightarrow> Inl BadAnswer)
     | _ \<Rightarrow> Inl (AttributeError ''upper''))"

definition get_or :: "json dict \<Rightarrow> string \<Rightarrow> json \<Rightarrow> json" where
  "get_or d k dflt = (case dget d k of Some v \<Rightarrow> v | None \<Rightarrow> dflt)"

definition zone_rect :: "codec \<Rightarrow> json dict \<Rightarrow> fig_call res" where
  "zone_rect cd z =
     (let kind = get_or z ''kind'' (JStr (T ''demand''))
      in res_bind (json_float cd (get_or z ''top'' (JInt 0))) (\<lambda>top.
         res_bind (json_float cd (get_or z ''bottom'' (JInt 0))) (\<lambda>bottom.
         res_bind (str_upper kind) (\<lambda>label.
         Inr (AddHrect bottom top (if kind = JStr (T ''demand'') then color_demand else color_supply) label)))))"

definition signal_marker :: "json dict \<Rightarrow> fig_call" where
  "signal_marker sig =
     (let dir = py_str (get_or sig ''direction'' (JStr (T '''')));
          entry = get_or sig ''entry'' JNull
      in AddMarker (get_or sig ''created_ts'' JNull) entry
           (if dir = T ''BUY'' then ''triangle-up'' else ''triangle-down'')
           (if dir = T ''BUY'' then color_bull else color_bear)
           (TCat [dir, T '' '', py_str (get_or sig ''score'' (JStr (T ''''))), T ''/'', py_str (get_or sig ''max_score'' (JStr (T '''')))])
           (TCat [T ''E='', py_str entry, T '' SL='', py_str (get_or sig ''sl'' JNull), T '' TP1='', py_str (get_or sig ''tp1'' JNull)]))"

definition candles :: "columns \<Rightarrow> fig_call list res" where
  "candles ohlcv =
     (if column ohlcv ''ts'' = [] then Inr []
      else res_bind (getitem ohlcv ''ts'') (\<lambda>ts. res_bind (getitem ohlcv ''open'') (\<lambda>op1. res_bind (getitem ohlcv ''high'') (\<lambda>hi.
           res_bind (getitem ohlcv ''low'') (\<lambda>lo. res_bind (getitem ohlcv ''close'') (\<lambda>cl.
           Inr [AddCandlestick ts op1 hi lo cl ''VIX75'' color_bull color_bear]))))))"

definition render_strategy_chart :: "codec \<Rightarrow> columns \<Rightarrow> json dict list \<Rightarrow> json dict list \<Rightarrow> fig_call list res" where
  "render_strategy_chart cd ohlcv zones signals =
     res_bind (candles ohlcv) (\<lambda>a.
     res_bind (res_map (zone_rect cd) zones) (\<lambda>b.
     Inr (a @ b @ map signal_marker signals @ [UpdateLayout ''VIX75 Strategy Chart'' 600])))"

fun regime_of_cell :: "cell \<Rightarrow> int res" where
  \<comment> \<open>\<open>int(r) if r is not None else -1\<close>\<close>
  "regime_of_cell CNull = Inr (- 1)"
| "regime_of_cell (CInt n) = Inr n"
| "regime_of_cell (CBool b) = Inr (of_bool b)"
| "regime_of_cell c = Inl (TypeError ''int'')"

fun cell_truthy :: "cell \<Rightarrow> bool" where
  "cell_truthy CNull = False"
| "cell_truthy (CBool b) = b"
| "cell_truthy (CInt n) = (n \<noteq> 0)"
| "cell_truthy (CNum x) = (\<not> feq x 0)"
| "cell_truthy (CDecimal x) = (\<not> feq x 0)"
| "cell_truthy (CText s) = (s \<noteq> [])"
| "cell_truthy (CTime t) = True"
| "cell_truthy (CJson v) = json_truthy v"

definition regime_band :: "int list \<Rightarrow> cell list \<Rightarrow> nat \<Rightarrow> nat \<Rightarrow> fig_call list" where
  \<comment> \<open>the band of the span from \<open>start\<close> to before \<open>i\<close>, if it is drawn\<close>
  "regime_band ids ts start i =
     (let rid = ids ! start in
      if ts = [] then []
      else let t0 = ts ! start; t1 = ts ! min i (length ts - 1) in
        if cell_truthy t0 \<and> cell_truthy t1
        then (case dget regime_colors rid of
            None \<Rightarrow> []
          | Some color \<Rightarrow> [AddVrect t0 t1 color (case dget regime_labels rid of Some s \<Rightarrow> s | None \<Rightarrow> [])])
        else [])"

fun regime_bands :: "int list \<Rightarrow> cell list \<Rightarrow> nat \<Rightarrow> nat list \<Rightarrow> fig_call list" where
  \<comment> \<open>the loop over \<open>range(1, len(ids) + 1)\<close>, with \<open>span_start\<close>\<close>
  "regime_bands ids ts start [] = []"
| "regime_bands ids ts start (i # is) =
     (if i = length ids \<or> ids ! i \<noteq> ids ! start
      then regime_band ids ts start i @ regime_bands ids ts i is
      else regime_bands ids ts start is)"

definition render_regime_chart :: "columns \<Rightarrow> columns \<Rightarrow> fig_call list res" where
  "render_regime_chart ohlcv features =
     res_bind (res_map regime_of_cell (column features ''regime_id'')) (\<lambda>ids.
     res_bind (if column ohlcv ''ts'' = [] then Inr []
               else res_bind (getitem ohlcv ''ts'') (\<lambda>ts. res_bind (getitem ohlcv ''close'') (\<lambda>cl. Inr [AddLine ''Close'' ts cl ''lines'']))) (\<lambda>line.
     Inr ((if ids = [] then [] else regime_bands ids (column features ''ts'') 0 [1..<length ids + 1]) @ line @
          [UpdateLayout ''HMM Regime Classification'' 400])))"

definition render_ml_explainability :: "(string \<times> f64) list \<Rightarrow> columns \<Rightarrow> fig_call list res" where
  "render_ml_explainability importance timeline =
     res_bind (if column timeline ''ts'' = [] then Inr []
               else res_bind (getitem timeline ''ts'') (\<lambda>ts. res_bind (getitem timeline ''p_up'') (\<lambda>p. Inr [AddLine ''P(win)'' ts p ''lines+markers'']))) (\<lambda>line.
     Inr ((if importance \<noteq> [] then [AddBar (map fst importance) (map snd importance) color_bull]
           else [AddAnnotation ''No model artifact available'']) @ line @ [UpdateLayout ''ML Explainability'' 500]))"

subsection \<open>Routes\<close>

record viz_config =
  vc_settings :: settings
  vc_codec :: codec
  vc_db :: viz_db
  vc_str :: "cell \<Rightarrow> pytext"              \<comment> \<open>\<open>str(v)\<close>\<close>
  vc_load :: "string \<Rightarrow> json dict res"    \<comment> \<open>\<open>load_artifact\<close>\<close>

definition days_valid :: "int \<Rightarrow> bool" where
  "days_valid d \<longleftrightarrow> 1 \<le> d \<and> d \<le> 90"

definition viz_health :: "env \<Rightarrow> ('x, json dict) act" where
  "viz_health ev = bnd (vz_ping ev) (\<lambda>ok. ret [(''service'', JStr (T ''visualization-service'')),
     (''status'', JStr (T (if ok then ''ok'' else ''degraded'')))])"

definition only_dicts :: "json list \<Rightarrow> json dict list" where
  \<comment> \<open>\<open>[zi for zi in z if isinstance(zi, dict)]\<close>\<close>
  "only_dicts z = concat (map (\<lambda>v. case v of JObj d \<Rightarrow> [d] | _ \<Rightarrow> []) z)"

fun first_zones :: "cell list \<Rightarrow> json dict list" where
  \<comment> \<open>of the first cell that is a nonempty list\<close>
  "first_zones [] = []"
| "first_zones (CJson (JArr (z # zs)) # cs) = only_dicts (z # zs)"
| "first_zones (c # cs) = first_zones cs"

fun signal_value :: "(cell \<Rightarrow> pytext) \<Rightarrow> cell \<Rightarrow> json" where
  \<comment> \<open>\<open>str(v) if not isinstance(v, (int, float)) else v\<close>\<close>
  "signal_value str (CInt n) = JInt n"
| "signal_value str (CNum x) = JNum x"
| "signal_value str (CBool b) = JBool b"
| "signal_value str c = JStr (str c)"

definition strategy_chart :: "env \<Rightarrow> viz_config \<Rightarrow> string \<Rightarrow> int \<Rightarrow> ('x, fig_call list) act" where
  "strategy_chart ev cfg tf days =
     (let s = symbol (vc_settings cfg) in
      bnd (fetch_ohlcv ev (vc_db cfg) s tf days) (\<lambda>ohlcv.
      bnd (fetch_signals ev (vc_db cfg) s days) (\<lambda>signals.
      bnd (fetch_features_with_regime ev (vc_db cfg) s tf days) (\<lambda>features.
      lift_res (render_strategy_chart (vc_codec cfg) ohlcv (first_zones (rev (column features ''zones'')))
        (map (map (\<lambda>(k, v). (k, signal_value (vc_str cfg) v))) (row_dicts signals)))))))"

definition regime_chart :: "env \<Rightarrow> viz_config \<Rightarrow> string \<Rightarrow> int \<Rightarrow> ('x, fig_call list) act" where
  "regime_chart ev cfg tf days =
     bnd (fetch_ohlcv ev (vc_db cfg) (symbol (vc_settings cfg)) tf days) (\<lambda>ohlcv.
     bnd (fetch_features_with_regime ev (vc_db cfg) (symbol (vc_settings cfg)) tf days) (\<lambda>features.
     lift_res (render_regime_chart ohlcv features)))"

fun insert_desc :: "string \<times> f64 \<Rightarrow> (string \<times> f64) list \<Rightarrow> (string \<times> f64) list" where
  "insert_desc x [] = [x]"
| "insert_desc x (y # ys) = (if snd x < snd y then y # insert_desc x ys else x # y # ys)"

definition sort_desc :: "(string \<times> f64) list \<Rightarrow> (string \<times> f64) list" where
  \<comment> \<open>\<open>sorted(..., key=..., reverse=True)\<close>, stable\<close>
  "sort_desc ps = foldr insert_desc ps []"

definition json_list :: "json \<Rightarrow> json list res" where
  "json_list v = (case v of JArr xs \<Rightarrow> Inr xs | _ \<Rightarrow> Inl (TypeError ''not iterable''))"

definition plain_name :: "json \<Rightarrow> string res" where
  "plain_name v = (case v of JStr t \<Rightarrow> (case text_plain t of Some s \<Rightarrow> Inr s | None \<Rightarrow> Inl BadAnswer) | _ \<Rightarrow> Inl BadAnswer)"

definition importance_of :: "codec \<Rightarrow> json dict \<Rightarrow> (string \<times> f64) list res" where
  "importance_of cd bundle =
     res_bind (getitem bundle ''model'') (\<lambda>model.
     res_bind (res_bind (json_list (get_or bundle ''feature_names'' (JArr []))) (res_map plain_name)) (\<lambda>names.
     res_bind (json_list (case model of JObj d \<Rightarrow> get_or d ''feature_importances_'' (JArr []) | _ \<Rightarrow> JArr [])) (\<lambda>vs.
     res_bind (res_map (json_float cd) vs) (\<lambda>values.
     Inr (take 20 (sort_desc (zip names values)))))))"

definition ml_explainability :: "viz_config \<Rightarrow> fig_call list res" where
  "ml_explainability cfg =
     (let importance = (case res_bind (vc_load cfg ''models/meta_label_lgbm.joblib'') (importance_of (vc_codec cfg)) of
          Inr i \<Rightarrow> Inr i | Inl e \<Rightarrow> if is_exception e then Inr [] else Inl e)
      in res_bind importance (\<lambda>i. render_ml_explainability i [(''ts'', []), (''p_up'', [])]))"

subsection \<open>The dashboard page\<close>

definition dashboard_lines :: "string list" where
  "dashboard_lines = [
     ''<!DOCTYPE html>'',
     ''<html>'',
     ''<head>'',
     ''<title>VIX75 Dashboard</title>'',
     ''<script src=\"https://cdn.plot.ly/plotly-2.27.0.min.js\"></script>'',
     ''<style>'',
     ''body {{ background:#0d1117; color:#e0e0e0; font-family:monospace; }}'',
     ''#charts div {{ margin-bottom:20px; }}'',
     ''</style>'',
     ''</head>'',
     ''<body>'',
     ''<h1>VIX75 Trading Dashboard</h1>'',
     ''<div id=\"charts\">'',
     ''  <div id=\"strategy\"></div>'',
     ''  <div id=\"regime\"></div>'',
     ''  <div id=\"ml\"></div>'',
     ''</div>'',
     ''<script>'',
     ''const token = new URLSearchParams(window.location.search).get('token') || '' @ [CHR 39, CHR 39] @ '';'',
     ''const opts = {{ headers: {{ 'Authorization': 'Bearer ' + token }} }};'',
     ''const target = '/api/charts';'',
     '''',
     ''Promise.all(['',
     ''  fetch(target+'/strategy', opts).then(r => r.json()),'',
     ''  fetch(target+'/regime', opts).then(r => r.json()),'',
     ''  fetch(target+'/ml_features', opts).then(r => r.json()),'',
     '']).then(([strategy, regime, ml]) => {{'',
     ''  Plotly.newPlot('strategy', strategy.data, strategy.layout);'',
     ''  Plotly.newPlot('regime', regime.data, regime.layout);'',
     ''  Plotly.newPlot('ml', ml.data, ml.layout);'',
     ''}});'',
     ''</script>'',
     ''</body>'',
     ''</html>'']"

definition join_lines :: "string list \<Rightarrow> string" where
  "join_lines ls = concat (map (\<lambda>l. l @ [CHR 10]) (butlast ls)) @ last ls"

definition dashboard_template :: string where
  "dashboard_template = join_lines dashboard_lines"

fun format_braces :: "string \<Rightarrow> string res" where
  \<comment> \<open>\<open>s.format()\<close>: doubled braces stand for one; a field finds no argument and raises, as a lone brace does\<close>
  "format_braces [] = Inr []"
| "format_braces [c] = (if c = CHR ''{'' \<or> c = CHR ''}'' then Inl (ValueError ''Single brace'') else Inr [c])"
| "format_braces (c # d # s) =
     (if c = CHR ''{'' \<or> c = CHR ''}''
      then if d = c then res_bind (format_braces s) (\<lambda>r. Inr (c # r))
           else Inl (ValueError ''replacement field'')
      else res_bind (format_braces (d # s)) (\<lambda>r. Inr (c # r)))"

definition dashboard :: "(int \<times> string) res" where
  "dashboard = res_bind (format_braces dashboard_template) (\<lambda>page. Inr (200, page))"

definition escape_braces :: "string \<Rightarrow> string" where
  "escape_braces s = concat (map (\<lambda>c. if c = CHR ''{'' \<or> c = CHR ''}'' then [c, c] else [c]) s)"

lemma format_braces_other: "c \<noteq> CHR ''{'' \<Longrightarrow> c \<noteq> CHR ''}'' \<Longrightarrow>
    format_braces (c # s) = res_bind (format_braces s) (\<lambda>r. Inr (c # r))"
  by (cases s) simp_all

lemma format_escaped: "format_braces (escape_braces s) = Inr s"
  by (induction s) (auto simp: escape_braces_def format_braces_other)

lemma format_braces_escapes: "format_braces t = Inr s \<Longrightarrow> t = escape_braces s"
  by (induction t arbitrary: s rule: format_braces.induct)
    (auto simp: escape_braces_def res_bind_Inr_iff split: if_splits)

text \<open>The page is served: its template holds no field, only doubled braces.\<close>

lemma format_braces_append:
  "format_braces a = Inr r \<Longrightarrow> format_braces (a @ b) = res_bind (format_braces b) (\<lambda>q. Inr (r @ q))"
proof -
  assume "format_braces a = Inr r"
  then have a: "a = escape_braces r" by (rule format_braces_escapes)
  have "format_braces (escape_braces r @ b) = res_bind (format_braces b) (\<lambda>q. Inr (r @ q))"
  proof (induction r)
    case Nil
    show ?case by (cases "format_braces b") (simp_all add: escape_braces_def res_bind_def)
  next
    case (Cons c r)
    then show ?case
      by (cases "format_braces b") (auto simp: escape_braces_def format_braces_other res_bind_def)
  qed
  then show ?thesis by (simp add: a)
qed

lemma format_joined:
  "ls \<noteq> [] \<Longrightarrow> list_all (\<lambda>l. \<exists>r. format_braces l = Inr r) ls \<Longrightarrow> \<exists>r. format_braces (join_lines ls) = Inr r"
proof (induction ls)
  case (Cons l ls)
  then obtain r where r: "format_braces l = Inr r" by auto
  show ?case
  proof (cases ls)
    case Nil
    then show ?thesis using r by (simp add: join_lines_def)
  next
    case (Cons m ms)
    then obtain q where "format_braces (join_lines ls) = Inr q" using Cons.IH Cons.prems by auto
    moreover have "join_lines (l # ls) = l @ CHR 10 # join_lines ls" using Cons by (simp add: join_lines_def)
    ultimately show ?thesis using format_braces_append [OF r] by (simp add: format_braces_other)
  qed
qed simp

lemma dashboard_served: "\<exists>page. dashboard = Inr (200, page) \<and> dashboard_template = escape_braces page"
proof -
  have "list_all (\<lambda>l. case format_braces l of Inl e \<Rightarrow> False | Inr r \<Rightarrow> True) dashboard_lines" by code_simp
  then have "list_all (\<lambda>l. \<exists>r. format_braces l = Inr r) dashboard_lines"
    by (rule list.pred_mono_strong) (auto split: sum.splits)
  moreover have "dashboard_lines \<noteq> []" by (simp add: dashboard_lines_def)
  ultimately obtain page where "format_braces dashboard_template = Inr page"
    using format_joined unfolding dashboard_template_def by blast
  then show ?thesis using format_braces_escapes by (auto simp: dashboard_def)
qed

subsection \<open>The bands are the maximal runs\<close>

function runs_from :: "nat \<Rightarrow> int list \<Rightarrow> (nat \<times> nat \<times> int) list" where
  \<comment> \<open>maximal runs of equal ids: first index, index after the last, id\<close>
  "runs_from k [] = []"
| "runs_from k (x # xs) =
     (k, Suc (k + length (takeWhile (\<lambda>y. y = x) xs)), x) #
       runs_from (Suc (k + length (takeWhile (\<lambda>y. y = x) xs))) (dropWhile (\<lambda>y. y = x) xs)"
  by pat_completeness auto
termination
  by (relation "measure (length \<circ> snd)") (auto simp: le_imp_less_Suc length_dropWhile_le)

lemma takeWhile_same: "takeWhile (\<lambda>y. y = x) xs = replicate (length (takeWhile (\<lambda>y. y = x) xs)) x"
  by (induction xs) auto

lemma runs_cover: "concat (map (\<lambda>(s, e, r). replicate (e - s) r) (runs_from k ids)) = ids"
proof (induction k ids rule: runs_from.induct)
  case (2 k x xs)
  have "replicate (length (takeWhile (\<lambda>y. y = x) xs)) x @ dropWhile (\<lambda>y. y = x) xs = xs"
    by (metis takeWhile_same takeWhile_dropWhile_id)
  then show ?case using 2 by simp
qed simp

lemma runs_maximal: "successively (\<lambda>(s, e, r) (s', e', r'). e = s' \<and> r \<noteq> r') (runs_from k ids)"
proof (induction k ids rule: runs_from.induct)
  case (2 k x xs)
  show ?case
  proof (cases "dropWhile (\<lambda>y. y = x) xs")
    case Nil
    then show ?thesis by (simp del: dropWhile_eq_Nil_conv)
  next
    case (Cons z zs)
    have "z \<noteq> x" using hd_dropWhile [of "\<lambda>y. y = x" xs, unfolded Cons] by simp
    then show ?thesis using 2 unfolding runs_from.simps(2) Cons by simp
  qed
qed simp

text \<open>A run of equal ids up to \<open>i\<close> is continued by the ids from \<open>i\<close> on.\<close>

lemma run_reaches:
  assumes "start < i" "i \<le> length ids" "\<forall>j. start \<le> j \<and> j < i \<longrightarrow> ids ! j = ids ! start"
  shows "takeWhile (\<lambda>y. y = ids ! start) (drop (Suc start) ids) =
      drop (Suc start) (take i ids) @ takeWhile (\<lambda>y. y = ids ! start) (drop i ids)"
    and "dropWhile (\<lambda>y. y = ids ! start) (drop (Suc start) ids) = dropWhile (\<lambda>y. y = ids ! start) (drop i ids)"
proof -
  have split: "drop (Suc start) ids = drop (Suc start) (take i ids) @ drop i ids"
    using append_take_drop_id [of "i - Suc start" "drop (Suc start) ids"] assms(1) by (simp add: drop_take)
  have all: "y = ids ! start" if member: "y \<in> set (drop (Suc start) (take i ids))" for y
  proof -
    obtain j where "j < length (drop (Suc start) (take i ids))" "y = drop (Suc start) (take i ids) ! j"
      using member unfolding in_set_conv_nth by blast
    then have "y = ids ! (Suc start + j)" "start \<le> Suc start + j \<and> Suc start + j < i" using assms(2) by simp_all
    then show ?thesis using assms(3) by blast
  qed
  show "takeWhile (\<lambda>y. y = ids ! start) (drop (Suc start) ids) =
      drop (Suc start) (take i ids) @ takeWhile (\<lambda>y. y = ids ! start) (drop i ids)"
    unfolding split by (rule takeWhile_append2) (rule all)
  show "dropWhile (\<lambda>y. y = ids ! start) (drop (Suc start) ids) = dropWhile (\<lambda>y. y = ids ! start) (drop i ids)"
    unfolding split by (rule dropWhile_append2) (rule all)
qed

lemma regime_bands_step:
  assumes "start < i" "i \<le> length ids" "\<forall>j. start \<le> j \<and> j < i \<longrightarrow> ids ! j = ids ! start"
  shows "regime_bands ids ts start [i..<length ids + 1] =
    concat (map (\<lambda>(s, e, r). regime_band ids ts s e) (runs_from start (drop start ids)))"
  using assms
proof (induction "length ids + 1 - i" arbitrary: start i)
  case (Suc d)
  have up: "[i..<length ids + 1] = i # [Suc i..<length ids + 1]" using Suc.prems(2) by (simp add: upt_rec)
  have d: "drop start ids = ids ! start # drop (Suc start) ids" using Cons_nth_drop_Suc [of start ids] Suc.prems(1,2) by simp
  let ?eq = "\<lambda>y. y = ids ! start"
  note run = run_reaches [OF Suc.prems]
  show ?case
  proof (cases "i = length ids \<or> ids ! i \<noteq> ids ! start")
    case True
    have first: "drop i ids = [] \<or> \<not> ?eq (hd (drop i ids))"
      using True Suc.prems(2) by (cases "i = length ids") (simp_all add: hd_drop_conv_nth)
    have stop: "takeWhile ?eq (drop i ids) = []" using first by (cases "drop i ids") auto
    have keep: "dropWhile ?eq (drop i ids) = drop i ids" using first by (cases "drop i ids") auto
    have n: "length (takeWhile ?eq (drop (Suc start) ids)) = i - Suc start" using run(1) stop Suc.prems(1,2) by simp
    have rest: "dropWhile ?eq (drop (Suc start) ids) = drop i ids" using run(2) keep by simp
    have runs: "runs_from start (drop start ids) = (start, i, ids ! start) # runs_from i (drop i ids)"
      using Suc.prems(1) by (simp add: d n rest)
    show ?thesis
    proof (cases "i = length ids")
      case True
      then show ?thesis using runs up by simp
    next
      case False
      have "regime_bands ids ts i [Suc i..<length ids + 1] =
          concat (map (\<lambda>(s, e, r). regime_band ids ts s e) (runs_from i (drop i ids)))"
        by (rule Suc.hyps(1)) (use False Suc.hyps(2) Suc.prems(2) in \<open>auto simp: less_Suc_eq_le\<close>)
      then show ?thesis using True runs up by simp
    qed
  next
    case False
    have more: "\<forall>j. start \<le> j \<and> j < Suc i \<longrightarrow> ids ! j = ids ! start"
      using False Suc.prems(3) by (metis less_antisym)
    have "d = length ids + 1 - Suc i" "start < Suc i" "Suc i \<le> length ids"
      using Suc.hyps(2) Suc.prems(1,2) False by linarith+
    then have "regime_bands ids ts start [Suc i..<length ids + 1] =
        concat (map (\<lambda>(s, e, r). regime_band ids ts s e) (runs_from start (drop start ids)))"
      using more by (rule Suc.hyps(1))
    then show ?thesis using False up by simp
  qed
qed simp

lemma regime_bands_are_runs:
  "ids \<noteq> [] \<Longrightarrow> regime_bands ids ts 0 [1..<length ids + 1] =
     concat (map (\<lambda>(s, e, r). regime_band ids ts s e) (runs_from 0 ids))"
  using regime_bands_step [of 0 1 ids ts] by (simp add: Suc_leI)

end
