(* ===== verification/Lifecycle.thy ===== *)
theory Lifecycle
  imports RiskService SignalService MlService Execution Notify DataService Features Visualization Gateway
begin

text \<open>
  How the services start and stop: the \<open>lifespan\<close> of every \<open>main.py\<close>, split at its \<open>yield\<close>, and the
  one-shot runners \<open>consumer_once.py\<close>. A background task is known by what awaiting it gives after it
  was cancelled: \<open>CancelledError\<close> while its loop runs, its own end when the loop had ended before.
\<close>

subsection \<open>Starting\<close>

definition redis_ping :: "env \<Rightarrow> ('x, unit) act" where
  "redis_ping ev = call ev ans_unit (RedisCmd ''ping'' [])"

definition redis_aclose :: "env \<Rightarrow> ('x, unit) act" where
  "redis_aclose ev = call ev ans_unit (RedisCmd ''aclose'' [])"

definition startup_guard :: "('x, unit) act \<Rightarrow> ('x, unit) act" where
  \<comment> \<open>\<open>try: ... except Exception: logger.exception("dependency startup failed")\<close>\<close>
  "startup_guard m = attempt m (\<lambda>e. if is_exception e then ret () else throw e)"

definition execution_start :: "env \<Rightarrow> terminal \<Rightarrow> ('x, unit) terminal_act" where
  "execution_start ev tm = startup_guard (bnd (db_connect ev) (\<lambda>_. bnd (redis_ping ev) (\<lambda>_.
     if dry_run_mode (tm_settings tm) then ret ()
     else bnd (terminal_connect ev tm) (\<lambda>_. ret ()))))"

definition data_start :: "env \<Rightarrow> ('x, unit) data_act" where
  "data_start ev = startup_guard (bnd (da_connect ev) (\<lambda>_. redis_ping ev))"

definition feature_start :: "env \<Rightarrow> ('x, unit) feature_act" where
  "feature_start ev = startup_guard (bnd (fe_connect ev) (\<lambda>_. redis_ping ev))"

definition notify_start :: "env \<Rightarrow> ('x, unit) notify_act" where
  "notify_start ev = startup_guard (bnd (lifecycle_connect ev) (\<lambda>_. redis_ping ev))"

definition signal_start :: "env \<Rightarrow> ('x, unit) act" where
  "signal_start ev = startup_guard (bnd (signal_db_connect ev) (\<lambda>_. redis_ping ev))"

definition ml_start :: "env \<Rightarrow> ('x, unit) act" where
  "ml_start ev = startup_guard (redis_ping ev)"

definition risk_start :: "env \<Rightarrow> ('x, unit) act" where
  "risk_start ev = startup_guard (redis_ping ev)"

definition viz_start :: "env \<Rightarrow> ('x, unit) act" where
  "viz_start ev = startup_guard (vz_connect ev)"

definition gateway_start :: "env \<Rightarrow> ('x, string) act" where
  \<comment> \<open>the \<open>redis_state\<close> of the log line\<close>
  "gateway_start ev = attempt (bnd (redis_ping ev) (\<lambda>_. ret ''up''))
     (\<lambda>e. if is_exception e then ret ''down'' else throw e)"

subsection \<open>Stopping\<close>

definition stop_task :: "unit res \<Rightarrow> ('x, unit) act" where
  \<comment> \<open>\<open>task.cancel(); with suppress(CancelledError): await task\<close>\<close>
  "stop_task out = attempt (lift_res out) (\<lambda>e. if e = CancelledError then ret () else throw e)"

definition lifespan_stop :: "env \<Rightarrow> unit res list \<Rightarrow> ('x, unit) act \<Rightarrow> ('x, unit) act" where
  "lifespan_stop ev outs close_db =
     bnd (each stop_task outs) (\<lambda>_. bnd close_db (\<lambda>_. redis_aclose ev))"

definition execution_stop :: "env \<Rightarrow> unit res \<Rightarrow> unit res \<Rightarrow> ('x, unit) act" where
  "execution_stop ev consumer reconciler = lifespan_stop ev [consumer, reconciler] (db_close ev)"

definition data_stop :: "env \<Rightarrow> unit res \<Rightarrow> ('x, unit) data_act" where
  "data_stop ev ingestor = lifespan_stop ev [ingestor] (da_close ev)"

definition feature_stop :: "env \<Rightarrow> unit res \<Rightarrow> ('x, unit) feature_act" where
  "feature_stop ev consumer = lifespan_stop ev [consumer] (fe_close ev)"

definition notify_stop :: "env \<Rightarrow> unit res \<Rightarrow> ('x, unit) notify_act" where
  "notify_stop ev consumer = lifespan_stop ev [consumer] (lifecycle_close ev)"

definition signal_stop :: "env \<Rightarrow> unit res \<Rightarrow> ('x, unit) act" where
  "signal_stop ev consumer = lifespan_stop ev [consumer] (signal_db_close ev)"

definition ml_stop :: "env \<Rightarrow> unit res \<Rightarrow> ('x, unit) act" where
  "ml_stop ev worker = lifespan_stop ev [worker] (ret ())"

definition risk_stop :: "env \<Rightarrow> unit res \<Rightarrow> ('x, unit) act" where
  "risk_stop ev consumer = lifespan_stop ev [consumer] (ret ())"

definition viz_stop :: "env \<Rightarrow> ('x, unit) act" where
  "viz_stop ev = lifespan_stop ev [] (vz_close ev)"

definition gateway_stop :: "env \<Rightarrow> bool \<Rightarrow> ('x, unit) act" where
  "gateway_stop ev owns_redis = (if owns_redis then redis_aclose ev else ret ())"

subsection \<open>One round of a consumer\<close>

definition suppress_exceptions :: "('x, unit) act \<Rightarrow> ('x, unit) act" where
  "suppress_exceptions m = attempt m (\<lambda>e. if is_exception e then ret () else throw e)"

definition with_database :: "env \<Rightarrow> ('x, 'a) act \<Rightarrow> ('x, unit) act \<Rightarrow> ('x, 'a) act" where
  \<comment> \<open>\<open>try: await db.connect(); body finally: await db.close(); close_redis\<close>\<close>
  "with_database ev body close_redis =
     finally_do (bnd (db_connect ev) (\<lambda>_. body)) (bnd (db_close ev) (\<lambda>_. close_redis))"

definition execution_once :: "env \<Rightarrow> exec_config \<Rightarrow> ('x, nat) store_act" where
  "execution_once ev cfg =
     with_database ev
       (bnd (redis_ping ev) (\<lambda>_. execution_run_once ev
          (cfg\<lparr>xc_executor := (xc_executor cfg)\<lparr>x_backoff_base := mk (1 / 100)\<rparr>\<rparr>)))
       (suppress_exceptions (redis_aclose ev))"

definition signal_once :: "env \<Rightarrow> signal_config \<Rightarrow> ('x, nat) signal_act" where
  "signal_once ev cfg =
     with_database ev (bnd (redis_ping ev) (\<lambda>_. signal_run_once ev cfg)) (redis_aclose ev)"

definition notify_once :: "env \<Rightarrow> codec \<Rightarrow> settings \<Rightarrow> ('x, nat) notify_act" where
  "notify_once ev cd st =
     finally_do (bnd (lifecycle_connect ev) (\<lambda>_. notify_run_once ev cd st))
       (bnd (lifecycle_close ev) (\<lambda>_. suppress_exceptions (redis_aclose ev)))"

definition risk_once :: "env \<Rightarrow> risk_config \<Rightarrow> ('x, nat) risk_act" where
  "risk_once ev cfg = finally_do (risk_run_once ev cfg) (suppress_exceptions (redis_aclose ev))"

subsection \<open>What survives\<close>

text \<open>A dependency that is down never keeps a service from starting; only a cancellation does.\<close>

lemma startup_guard_survives:
  "startup_guard m w = (r, w') \<Longrightarrow> r = Inr () \<or> (\<exists>e. r = Inl e \<and> \<not> is_exception e)"
  by (auto simp: startup_guard_def attempt_def split: prod.splits sum.splits if_splits)

text \<open>
  A task that had ended with an exception of its own takes the shutdown with it: the exception comes
  out of the \<open>await\<close>, and neither the database nor Redis is closed.
\<close>

lemma crashed_task_skips_close:
  assumes "e \<noteq> CancelledError"
  shows "lifespan_stop ev (Inl e # outs) close_db w = (Inl e, w)"
  using assms by (simp add: lifespan_stop_def stop_task_def attempt_def bnd_def)

lemma stop_tasks_done:
  assumes "set outs \<subseteq> {Inr (), Inl CancelledError}"
  shows "each stop_task outs w = (Inr (), w)"
  using assms by (induction outs) (auto simp: stop_task_def attempt_def bnd_def)

text \<open>When every loop was still running, the stop closes the database and then Redis.\<close>

lemma orderly_stop:
  assumes "set outs \<subseteq> {Inr (), Inl CancelledError}" "lifespan_stop ev outs close_db w = (Inr (), w')"
  shows "\<exists>v. close_db w = (Inr (), v) \<and> log w' = log v @ [RedisCmd ''aclose'' []]"
  using assms stop_tasks_done [OF assms(1), of w]
  by (auto simp: lifespan_stop_def redis_aclose_def bnd_def call_run split: prod.splits sum.splits)

text \<open>The first signal ends the consumer of the notification service, and then its shutdown.\<close>

lemma notify_stop_after_signal:
  assumes "dget fs ''signal_id'' = None" "dget fs ''idempotency_key'' = None"
    and "dget fs ''correlation_id'' = Some c" "text_nonempty c"
  shows "fst (notify_stop ev (fst (deliver_one ev cd st stream (i, fs) u)) w) = Inl (AttributeError ''decode'')"
  unfolding anonymous_event_raises [OF assms] notify_stop_def by (simp add: crashed_task_skips_close)

text \<open>A one-shot run without a database still closes Redis and raises the error of the connection.\<close>

lemma once_without_database:
  assumes "reply ev (log w) (SqlRun ''connect'' []) = ARaise e" "e \<noteq> Diverged" "\<not> conn w"
    and "\<And>l. reply ev l (RedisCmd ''aclose'' []) = AUnit"
  shows "signal_once ev cfg w =
    (Inl e, w\<lparr>log := log w @ [SqlRun ''connect'' [], RedisCmd ''aclose'' []], conn := False\<rparr>)"
  using assms
  by (simp add: signal_once_def with_database_def db_connect_def db_close_def db_unusable_run bnd_def call_run
      finally_do_def redis_aclose_def)

text \<open>A stop that closes the database leaves no connection behind.\<close>

lemma stopped_disconnected:
  assumes "signal_stop ev consumer w = (Inr (), w')"
  shows "\<not> conn w'"
  using assms unfolding signal_stop_def lifespan_stop_def signal_db_close_def redis_aclose_def
  by (auto simp: bnd_Inr_iff call_run dest!: db_close_forgets)

end
