(* ===== verification/Reconciliation.thy ===== *)
theory Reconciliation
  imports Execution
begin

text \<open>
  \<open>services/execution-service/app/reconciliation.py\<close>: the sweep that compares the broker's open
  positions with the locally open trades, closes trades whose position is gone and for which
  the deal history has a closing deal, and publishes \<open>order.closed\<close>. Positions and deals are
  the attribute dictionaries the terminal answers.
\<close>

record reconciler =
  rc_mt5 :: bool
  rc_symbol :: string
  rc_codec :: codec

definition deal_entry_out :: int where "deal_entry_out = 1"

subsection \<open>Deal history\<close>

definition deal_field :: "json \<Rightarrow> string \<Rightarrow> json \<Rightarrow> json" where
  "deal_field d name dflt = position_attr d name dflt"

definition deal_float :: "codec \<Rightarrow> string \<Rightarrow> json \<Rightarrow> f64 res" where
  "deal_float cd name d = json_float cd (deal_field d name (JNum 0))"

definition read_deals :: "env \<Rightarrow> int \<Rightarrow> ('x, json list) act" where
  "read_deals ev ticket =
     bnd (ask ev (Mt5Deals ticket)) (\<lambda>a. case a of
        ANone \<Rightarrow> ret [] | AJson (JArr ds) \<Rightarrow> ret ds | ARaise e \<Rightarrow> throw e | _ \<Rightarrow> throw BadAnswer)"

definition out_deals :: "json list \<Rightarrow> json list" where
  "out_deals ds = filter (\<lambda>d. deal_field d ''entry'' JNull = JInt deal_entry_out) ds"

definition summarise_deals :: "codec \<Rightarrow> json list \<Rightarrow> (f64 option \<times> f64) option res" where
  "summarise_deals cd deals =
     (let outs = out_deals deals in
      if outs = [] then Inr None
      else res_bind (res_map (deal_float cd ''volume'') outs) (\<lambda>volumes.
           res_bind (res_map (deal_float cd ''price'') outs) (\<lambda>prices.
           res_bind (res_map (deal_float cd ''profit'') outs) (\<lambda>profits.
             let total_volume = py_sum volumes;
                 notional = py_sum (map2 (*) volumes prices);
                 exit_price = (if 0 < total_volume then Some (notional / total_volume) else None)
             in Inr (Some (exit_price, py_round 2 (py_sum profits)))))))"

definition summarise_close :: "env \<Rightarrow> reconciler \<Rightarrow> int \<Rightarrow> ('x, (f64 option \<times> f64) option) act" where
  "summarise_close ev rc ticket =
     bnd (read_clock ev) (\<lambda>now. bnd (read_deals ev ticket) (\<lambda>ds.
       lift_res (summarise_deals (rc_codec rc) ds)))"

subsection \<open>The sweep\<close>

definition position_ticket :: "json \<Rightarrow> int res" where
  "position_ticket p = (case position_attr p ''ticket'' JNull of
      JInt n \<Rightarrow> Inr n | _ \<Rightarrow> Inl (AttributeError ''ticket''))"

definition broker_tickets :: "reconciler \<Rightarrow> json list \<Rightarrow> int list res" where
  "broker_tickets rc ps =
     res_map position_ticket
       (filter (\<lambda>p. position_attr p ''symbol'' (JStr (T (rc_symbol rc))) = JStr (T (rc_symbol rc))) ps)"

definition local_tickets :: "trade list \<Rightarrow> (int \<times> trade) list" where
  \<comment> \<open>a later row of the same ticket replaces an earlier one\<close>
  "local_tickets rows =
     foldl (\<lambda>d t. case tr_ticket t of None \<Rightarrow> d | Some k \<Rightarrow> dset d k t) [] rows"

definition closed_payload :: "reconciler \<Rightarrow> trade \<Rightarrow> int \<Rightarrow> f64 option \<Rightarrow> f64 \<Rightarrow> json dict" where
  "closed_payload rc t ticket exit_price profit = [
     (''signal_id'', JStr (T (tr_signal t))),
     (''idempotency_key'', JStr (T (tr_key t))),
     (''symbol'', JStr (T (rc_symbol rc))),
     (''ticket'', JInt ticket),
     (''pnl'', JNum profit),
     (''exit_price'', JNum (case exit_price of None \<Rightarrow> 0 | Some p \<Rightarrow> p))]"

definition close_ghost :: "env \<Rightarrow> reconciler \<Rightarrow> int \<times> trade \<Rightarrow> ('x, nat) store_act" where
  "close_ghost ev rc g = (case g of (ticket, t) \<Rightarrow>
     bnd (summarise_close ev rc ticket) (\<lambda>summary.
     case summary of
       None \<Rightarrow> ret 0
     | Some (exit_price, profit) \<Rightarrow>
         bnd (close_by_ticket ev ticket profit exit_price [(''source'', JStr (T ''reconciliation''))])
           (\<lambda>updated.
            if \<not> updated then ret 0
            else bnd (stream_fields ev (closed_payload rc t ticket exit_price profit) None) (\<lambda>fs.
                 bnd (call ev ans_unit (XAdd ''order.closed'' fs)) (\<lambda>_. ret 1)))))"

fun close_ghosts :: "env \<Rightarrow> reconciler \<Rightarrow> (int \<times> trade) list \<Rightarrow> ('x, nat) store_act" where
  "close_ghosts ev rc [] = ret 0"
| "close_ghosts ev rc (g # gs) =
     bnd (close_ghost ev rc g) (\<lambda>n. bnd (close_ghosts ev rc gs) (\<lambda>m. ret (n + m)))"

datatype sweep = Skipped | Swept nat nat  \<comment> \<open>orphans, ghosts closed\<close>

definition reconcile_once :: "env \<Rightarrow> reconciler \<Rightarrow> ('x, sweep) store_act" where
  "reconcile_once ev rc =
     (if \<not> rc_mt5 rc then ret Skipped
      else bnd (read_positions ev None) (\<lambda>positions.
           bnd (lift_res (broker_tickets rc positions)) (\<lambda>at_broker.
           bnd (open_trades ev) (\<lambda>rows.
             let known = local_tickets rows;
                 orphans = remdups (filter (\<lambda>k. \<not> dhas known k) at_broker);
                 ghosts = sort_key fst (filter (\<lambda>(k, t). k \<notin> set at_broker) known)
             in bnd (close_ghosts ev rc ghosts) (\<lambda>n. ret (Swept (length orphans) n))))))"

primrec reconcile_rounds :: "env \<Rightarrow> reconciler \<Rightarrow> f64 \<Rightarrow> nat \<Rightarrow> ('x, unit) store_act" where
  \<comment> \<open>the first \<open>n\<close> rounds of \<open>run_forever\<close>\<close>
  "reconcile_rounds ev rc interval 0 = ret ()"
| "reconcile_rounds ev rc interval (Suc n) =
     bnd (attempt (bnd (reconcile_once ev rc) (\<lambda>_. ret ()))
            (\<lambda>e. if is_exception e then ret () else throw e)) (\<lambda>_.
     bnd (call ev ans_unit (SleepFor interval)) (\<lambda>_.
     reconcile_rounds ev rc interval n))"

subsection \<open>What a sweep changes\<close>

text \<open>Rows outside a set of tickets are left alone, and only open rows with a ticket change.\<close>

definition row_closed :: "int set \<Rightarrow> trade \<Rightarrow> trade \<Rightarrow> bool" where
  "row_closed ks t t' \<longleftrightarrow> t' = t \<or>
     tr_ticket t' = tr_ticket t \<and> (\<exists>k \<in> ks. tr_ticket t = Some k) \<and>
     tr_closed t = None \<and> tr_closed t' \<noteq> None \<and> tr_key t' = tr_key t"

definition closes_only :: "int set \<Rightarrow> 'x store_world_scheme \<Rightarrow> 'x store_world_scheme \<Rightarrow> bool" where
  "closes_only ks w w' \<longleftrightarrow> list_all2 (row_closed ks) (trades w) (trades w')"

lemma row_closed_refl [simp]: "row_closed ks t t"
  by (simp add: row_closed_def)

lemma row_closed_trans: "row_closed ks a b \<Longrightarrow> row_closed ks b c \<Longrightarrow> row_closed ks a c"
  unfolding row_closed_def by auto

interpretation clo: call_relation "closes_only ks" "\<lambda>c. True"
proof
  show "closes_only ks w w" for w :: "'x store_world_scheme"
    by (simp add: closes_only_def list_all2_refl)
  show "closes_only ks u w" if "closes_only ks u v" "closes_only ks v w" for u v w :: "'x store_world_scheme"
    using that unfolding closes_only_def by (rule list_all2_trans [rotated]) (rule row_closed_trans)
qed (simp_all add: closes_only_def list_all2_refl)

lemma sql_close_closes:
  "ticket \<in> ks \<Longrightarrow> list_all2 (row_closed ks) ts (fst (sql_close ticket p extra now ts))"
  by (auto simp: sql_close_def sql_update_def open_ticket_def row_closed_def list_all2_conv_all_nth)

lemma sql_close_rows:
  "sql_close ticket p extra now ts = (ts', n) \<Longrightarrow> ticket \<in> ks \<Longrightarrow> list_all2 (row_closed ks) ts ts'"
  using sql_close_closes [of ticket ks ts p extra now] by simp

lemma closes_statement [intro!]: "keeps (closes_only ks) (statement ev name params)"
  unfolding statement_def by auto

lemma closes_close_by_ticket: "ticket \<in> ks \<Longrightarrow> keeps (closes_only ks) (close_by_ticket ev ticket p x extra)"
proof -
  assume "ticket \<in> ks"
  then have row: "keeps (closes_only ks) (bnd (look (\<lambda>w. sql_close ticket p extra' now (trades w)))
      (\<lambda>(ts, rowcount). bnd (update (\<lambda>w. w\<lparr>trades := ts\<rparr>)) (\<lambda>_. ret (rowcount = 1))))" for extra' now
    by (auto simp: keeps_def bnd_def closes_only_def split: prod.splits intro: sql_close_rows)
  then show ?thesis
    unfolding close_by_ticket_def read_clock_def statement_def
    by (intro clo.keeps_bnd [OF clo.keeps_db_ensure] clo.keeps_bnd [OF clo.keeps_call] row) (rule TrueI)+
qed

lemma closes_deals [intro!]: "keeps (closes_only ks) (summarise_close ev rc ticket)"
  unfolding summarise_close_def read_clock_def read_deals_def by (auto split: ans.split json.split)

lemma closes_ghost: "fst g \<in> ks \<Longrightarrow> keeps (closes_only ks) (close_ghost ev rc g)"
  unfolding close_ghost_def by (cases g) (auto intro!: closes_close_by_ticket)

lemma closes_ghosts: "fst ` set gs \<subseteq> ks \<Longrightarrow> keeps (closes_only ks) (close_ghosts ev rc gs)"
  by (induction gs) (auto intro!: closes_ghost)

lemma closes_open_trades [intro!]: "keeps (closes_only ks) (open_trades ev)"
  unfolding open_trades_def by auto

lemma fst_set_sort [simp]: "fst ` set (sort_key fst xs) = fst ` set xs"
  by simp

subsection \<open>Properties\<close>


definition demo_row :: trade where
  "demo_row = \<lparr>tr_key = ''k1'', tr_signal = ''s1'', tr_symbol = ''V75'', tr_side = BUY,
     tr_lots = Fin 1, tr_entry = Some (Fin 100), tr_sl = Fin 90, tr_tp = Fin 120,
     tr_status = ''filled'', tr_retcode = Some 10009, tr_desc = None, tr_ticket = Some 7,
     tr_requested = 0, tr_executed = Some 1, tr_closed = None, tr_profit = None, tr_raw = []\<rparr>"

definition ghost_env :: env where
  \<comment> \<open>the broker lists position 8 only and has the closing deal of position 7\<close>
  "ghost_env = \<lparr>reply = (\<lambda>l c. case c of
       Mt5Positions t \<Rightarrow> AJson (JArr [JObj [(''ticket'', JInt 8)]])
     | Mt5Deals t \<Rightarrow> AJson (JArr [JObj [(''entry'', JInt 1), (''volume'', JNum (Fin 1)),
         (''price'', JNum (Fin 110)), (''profit'', JNum (Fin 10))]])
     | SqlRun n ps \<Rightarrow> AInt (if n = ''closed'' then 0 else 5) | ReadClock \<Rightarrow> AInt 5 | NewId \<Rightarrow> AText (T ''id'') | _ \<Rightarrow> AUnit)\<rparr>"

definition demo_reconciler :: reconciler where
  "demo_reconciler = \<lparr>rc_mt5 = True, rc_symbol = ''V75'', rc_codec = demo_codec\<rparr>"

lemma demo_sweep:
  "\<exists>w'. reconcile_once ghost_env demo_reconciler (empty_store\<lparr>trades := [demo_row]\<rparr>) =
     (Inr (Swept 1 1), w') \<and> map tr_profit (trades w') = [Some (Fin 10)]"
  by (simp add: reconcile_once_def demo_reconciler_def read_positions_def ghost_env_def bnd_def ask_def
      broker_tickets_def position_attr_def position_ticket_def open_trades_def db_ensure_def db_unusable_def statement_def call_run
      sql_open_trades_def demo_row_def empty_store_def local_tickets_def dhas_def close_ghost_def
      summarise_close_def read_clock_def read_deals_def summarise_deals_def out_deals_def deal_field_def
      deal_entry_out_def deal_float_def py_sum_def sum_step_def close_by_ticket_def sql_close_def
      sql_update_def open_ticket_def stream_fields_def new_correlation_id_def zero_eq_Fin f64_eval)


text \<open>
  Two divergences between the code and what it says of itself. The service builds its
  reconciler without an MT5 module, and such a sweep does nothing; and a manual close sets
  \<open>closed_at\<close>, after which no sweep looks at the row, so the promised realised PnL never comes.
\<close>

lemma reconcile_without_mt5: "\<not> rc_mt5 rc \<Longrightarrow> reconcile_once ev rc w = (Inr Skipped, w)"
  by (simp add: reconcile_once_def)

lemma manually_closed_not_reopened:
  "t \<in> set (sql_open_trades (fst (sql_close ticket profit extra now ts))) \<Longrightarrow> tr_ticket t \<noteq> Some ticket"
  by (auto simp: sql_open_trades_def sql_close_def sql_update_def open_ticket_def split: if_splits)

end
