(* ===== verification/Lifetimes.thy ===== *)
theory Lifetimes
  imports Reconciliation
begin

text \<open>
  The life of a trade row under everything that writes the table: the consumer, the sweep and the
  manual close, in any order. One step is one whole handler run, whether it returns or raises.
\<close>

subsection \<open>Steps of the service\<close>

inductive exec_step ::
  "env \<Rightarrow> exec_config \<Rightarrow> reconciler \<Rightarrow> 'x store_world_scheme \<Rightarrow> 'x store_world_scheme \<Rightarrow> bool"
  for ev :: env and cfg :: exec_config and rc :: reconciler
where
  Delivered: "execution_handle ev cfg mid fs w = (r, w') \<Longrightarrow> exec_step ev cfg rc w w'"
| Swept_once: "reconcile_once ev rc w = (s, w') \<Longrightarrow> exec_step ev cfg rc w w'"
| Closed_by_hand: "close_route ev (xc_executor cfg) ticket w = (v, w') \<Longrightarrow> exec_step ev cfg rc w w'"
| Listed: "positions_route ev w = (p, w') \<Longrightarrow> exec_step ev cfg rc w w'"

inductive exec_run ::
  "env \<Rightarrow> exec_config \<Rightarrow> reconciler \<Rightarrow> 'x store_world_scheme \<Rightarrow> 'x store_world_scheme \<Rightarrow> bool"
  for ev :: env and cfg :: exec_config and rc :: reconciler
where
  Rest: "exec_run ev cfg rc w w"
| Step: "exec_step ev cfg rc w v \<Longrightarrow> exec_run ev cfg rc v w' \<Longrightarrow> exec_run ev cfg rc w w'"

inductive_cases exec_stepE: "exec_step ev cfg rc w w'"

subsection \<open>Rows\<close>

definition row_ok :: "trade \<Rightarrow> bool" where
  "row_ok t \<longleftrightarrow> tr_status t \<in> {''pending'', ''filled'', ''rejected''} \<and> \<not> tr_lots t \<le> 0 \<and>
     (tr_status t \<noteq> ''filled'' \<longrightarrow> tr_ticket t = None \<and> tr_executed t = None) \<and>
     (tr_status t = ''pending'' \<longrightarrow> tr_retcode t = None) \<and>
     (tr_closed t = None \<longleftrightarrow> tr_profit t = None) \<and> (tr_closed t \<noteq> None \<longrightarrow> tr_status t = ''filled'')"

definition closing :: "trade \<Rightarrow> trade \<Rightarrow> bool" where
  "closing t t' \<longleftrightarrow> tr_ticket t \<noteq> None \<and> tr_closed t = None \<and>
     (\<exists>now p raw. t' = t\<lparr>tr_closed := Some now, tr_profit := Some p, tr_raw := raw\<rparr>)"

definition moved :: "trade \<Rightarrow> trade \<Rightarrow> bool" where
  "moved t t' \<longleftrightarrow> t' = t \<or> closing t t'"

lemma moved_refl [simp]: "moved t t"
  by (simp add: moved_def)

lemma moved_trans: "moved a b \<Longrightarrow> moved b c \<Longrightarrow> moved a c"
  by (auto simp: moved_def closing_def)

lemma moved_key: "moved t t' \<Longrightarrow> tr_key t' = tr_key t"
  by (auto simp: moved_def closing_def)

lemma moved_ok: "moved t t' \<Longrightarrow> row_ok t \<Longrightarrow> row_ok t'"
  by (auto simp: moved_def closing_def row_ok_def)

lemma ticket_filled: "row_ok t \<Longrightarrow> tr_ticket t \<noteq> None \<Longrightarrow> tr_status t = ''filled''"
  by (auto simp: row_ok_def)

lemma moved_settled:
  "moved t t' \<Longrightarrow> row_ok t \<Longrightarrow> t' = t \<or> tr_status t = ''filled'' \<and> tr_ticket t \<noteq> None \<and> tr_closed t = None \<and>
     (\<exists>now p raw. t' = t\<lparr>tr_closed := Some now, tr_profit := Some p, tr_raw := raw\<rparr>)"
  unfolding moved_def closing_def using ticket_filled [of t] by metis

lemma moved_keys: "list_all2 moved ts us \<Longrightarrow> map tr_key us = map tr_key ts"
  by (induction rule: list_all2_induct) (simp_all add: moved_key)

lemma moved_all_ok: "list_all2 moved ts us \<Longrightarrow> \<forall>t \<in> set ts. row_ok t \<Longrightarrow> \<forall>t \<in> set us. row_ok t"
  by (induction rule: list_all2_induct) (auto intro: moved_ok)

lemma moved_refls [simp]: "list_all2 moved ts ts"
  by (simp add: list_all2_refl)

subsection \<open>The ledger\<close>

definition ledger :: "'x store_world_scheme \<Rightarrow> 'x store_world_scheme \<Rightarrow> bool" where
  \<comment> \<open>old rows keep their place and at most close; new rows are well formed and have new keys\<close>
  "ledger w w' \<longleftrightarrow> (\<exists>us vs. trades w' = us @ vs \<and> list_all2 moved (trades w) us \<and> (\<forall>v \<in> set vs. row_ok v) \<and>
     distinct (map tr_key vs) \<and> set (map tr_key vs) \<inter> set (map tr_key (trades w)) = {})"

lemma ledger_same: "trades w' = trades w \<Longrightarrow> ledger w w'"
  unfolding ledger_def by (intro exI [of _ "trades w"] exI [of _ "[]"]) simp

lemma ledger_closed: "list_all2 moved (trades w) (trades w') \<Longrightarrow> ledger w w'"
  unfolding ledger_def by (intro exI [of _ "trades w'"] exI [of _ "[]"]) simp

lemma ledger_trans:
  fixes u v w :: "'x store_world_scheme"
  assumes "ledger u v" "ledger v w"
  shows "ledger u w"
proof -
  obtain us vs where a: "trades v = us @ vs" "list_all2 moved (trades u) us" "\<forall>t \<in> set vs. row_ok t"
    "distinct (map tr_key vs)" "set (map tr_key vs) \<inter> set (map tr_key (trades u)) = {}"
    using assms(1) unfolding ledger_def by blast
  obtain xs ys where b: "trades w = xs @ ys" "list_all2 moved (trades v) xs" "\<forall>t \<in> set ys. row_ok t"
    "distinct (map tr_key ys)" "set (map tr_key ys) \<inter> set (map tr_key (trades v)) = {}"
    using assms(2) unfolding ledger_def by blast
  obtain us' vs' where x: "xs = us' @ vs'" "list_all2 moved us us'" "list_all2 moved vs vs'"
    using b(2) unfolding a(1) list_all2_append1 by blast
  have k: "map tr_key us = map tr_key (trades u)" "map tr_key vs' = map tr_key vs"
    using moved_keys a(2) x(3) by blast+
  have "list_all2 moved (trades u) us'"
    by (rule list_all2_trans [OF moved_trans a(2) x(2)])
  moreover have "\<forall>t \<in> set (vs' @ ys). row_ok t"
    using moved_all_ok [OF x(3) a(3)] b(3) by auto
  moreover have "set (map tr_key (trades v)) = set (map tr_key (trades u)) \<union> set (map tr_key vs)"
    unfolding a(1) by (metis k(1) map_append set_append)
  ultimately show ?thesis
    unfolding ledger_def using a(4,5) b(1,4,5) k(2) x(1)
    by (intro exI [of _ us'] exI [of _ "vs' @ ys"]) (simp add: Int_Un_distrib Int_Un_distrib2 Int_commute)
qed

interpretation led: call_relation ledger "\<lambda>c. True"
  by unfold_locales (auto intro: ledger_same ledger_trans)

definition same_rows :: "'x store_world_scheme \<Rightarrow> 'x store_world_scheme \<Rightarrow> bool" where
  "same_rows w w' \<longleftrightarrow> trades w' = trades w"

interpretation same: call_relation same_rows "\<lambda>c. True"
  by unfold_locales (simp_all add: same_rows_def)

lemma same_update: "(\<And>w. trades (f w) = trades w) \<Longrightarrow> keeps same_rows (update f)"
  by (rule same.keeps_update) (simp add: same_rows_def)

lemma same_statement [intro!]: "keeps same_rows (statement ev name params)"
  unfolding statement_def by auto

lemma same_tick [intro!]: "keeps same_rows (read_tick ev x symb)"
  unfolding read_tick_def by (auto split: ans.split)

lemma same_last_error [intro!]: "keeps same_rows (last_error ev)"
  unfolding last_error_def by auto

lemma same_send_loop [intro!]: "keeps same_rows (send_loop ev q req n attempts delay desc err)"
proof (induction n arbitrary: attempts delay desc err)
  case (Suc n)
  have u: "keeps same_rows (update (\<lambda>w. w\<lparr>send_calls := send_calls w @ [req]\<rparr>))"
    by (rule same_update) simp
  show ?case using Suc u by (auto simp: Let_def split: ans.split)
qed auto

lemma same_execute [intro!]: "keeps same_rows (execute ev x q)"
  unfolding execute_def execute_dry_run_def build_request_def read_clock_def by (auto simp: Let_def)

lemma same_audit [intro!]: "keeps same_rows (audit ev a b c d e f)"
  unfolding audit_def by (auto intro!: same_update)

lemma same_duplicate [intro!]: "keeps same_rows count_duplicate"
  unfolding count_duplicate_def by (rule same_update) simp

lemma same_ledger: "keeps same_rows m \<Longrightarrow> keeps ledger m"
  by (auto simp: keeps_def same_rows_def intro: ledger_same)

subsection \<open>The writers of the table\<close>

lemma closing_rows: "list_all2 moved ts (fst (sql_close ticket p extra now ts))"
proof -
  have "moved t (if open_ticket ticket t then t\<lparr>tr_closed := Some now, tr_profit := Some p, tr_raw := raw\<rparr> else t)" for t raw
    by (auto simp: moved_def closing_def open_ticket_def)
  then show ?thesis by (simp add: sql_close_def sql_update_def list_all2_conv_all_nth)
qed

lemma ledger_close_by_ticket [intro!]: "keeps ledger (close_by_ticket ev ticket p x extra)"
proof -
  have row: "keeps ledger (bnd (look (\<lambda>w. sql_close ticket p extra' now (trades w)))
      (\<lambda>(ts, rowcount). bnd (update (\<lambda>w. w\<lparr>trades := ts\<rparr>)) (\<lambda>_. ret (rowcount = 1))))" for extra' now
    using closing_rows [of _ ticket p extra' now]
    by (auto simp: keeps_def bnd_def split: prod.splits intro!: ledger_closed) (metis fst_conv)
  then show ?thesis
    unfolding close_by_ticket_def read_clock_def statement_def
    by (intro led.keeps_bnd [OF led.keeps_db_ensure] led.keeps_bnd [OF led.keeps_call] row) (rule TrueI)+
qed

lemma ledger_reconcile: "keeps ledger (reconcile_once ev rc)"
proof -
  have s: "keeps ledger (summarise_close ev rc ticket)" for ticket
    unfolding summarise_close_def read_clock_def read_deals_def by (auto split: ans.split json.split)
  have g: "keeps ledger (close_ghost ev rc g)" for g
    unfolding close_ghost_def using s by (cases g) auto
  have gs: "keeps ledger (close_ghosts ev rc gs)" for gs
    using g by (induction gs) auto
  show ?thesis
    unfolding reconcile_once_def read_positions_def open_trades_def statement_def Let_def
    using gs by (auto split: ans.split json.split)
qed

lemma ledger_close_route: "keeps ledger (close_route ev x ticket)"
proof -
  have "keeps same_rows (close_position ev x symb ticket volume)" for symb volume
    unfolding close_position_def read_positions_def Let_def
    by (auto split: ans.split json.split list.split)
  note c = same_ledger [OF this] and a = same_ledger [OF same_audit]
  show ?thesis
    unfolding close_route_def trade_by_ticket_def statement_def Let_def
    using c a by auto
qed

lemma ledger_positions: "keeps ledger (positions_route ev)"
  unfolding positions_route_def open_trades_def statement_def by auto

text \<open>A delivery settles the row it inserted, or leaves it pending, and touches no other row.\<close>

definition settles :: "string \<Rightarrow> 'x store_world_scheme \<Rightarrow> 'x store_world_scheme \<Rightarrow> bool" where
  "settles k w w' \<longleftrightarrow> trades w' = trades w \<or>
     (\<exists>st rc d tick p extra now. st \<in> {''filled'', ''rejected''} \<and>
        trades w' = sql_set_status st k rc d tick p extra now (trades w))"

lemma settles_rest:
  fixes m :: "('x, 'a) store_act"
  assumes "keeps (settles k) m" "\<And>x. keeps same_rows (f x)"
  shows "keeps (settles k) (bnd m f)"
  unfolding keeps_def
proof (intro allI impI)
  fix w :: "'x store_world_scheme" and r w'
  assume "bnd m f w = (r, w')"
  then show "settles k w w'"
  proof (cases rule: bnd_cases)
    case (1 e)
    then show ?thesis using keepsD [OF assms(1)] by simp
  next
    case (2 x v)
    then show ?thesis
      using keepsD [OF assms(1) 2(1)] keepsD [OF assms(2) 2(2)] by (simp add: settles_def same_rows_def)
  qed
qed

lemma settles_after:
  fixes m :: "('x, 'a) store_act"
  assumes "keeps same_rows m" "\<And>x. keeps (settles k) (f x)"
  shows "keeps (settles k) (bnd m f)"
  unfolding keeps_def
proof (intro allI impI)
  fix w :: "'x store_world_scheme" and r w'
  assume "bnd m f w = (r, w')"
  then show "settles k w w'"
  proof (cases rule: bnd_cases)
    case (1 e)
    then show ?thesis using keepsD [OF assms(1)] by (simp add: settles_def same_rows_def)
  next
    case (2 x v)
    then show ?thesis
      using keepsD [OF assms(1) 2(1)] keepsD [OF assms(2) 2(2)] by (simp add: settles_def same_rows_def)
  qed
qed

lemma settles_set_status:
  "st \<in> {''filled'', ''rejected''} \<Longrightarrow> keeps (settles k) (set_status ev st k rc d tick p extra)"
  unfolding keeps_def
proof (intro allI impI)
  fix w :: "'x store_world_scheme" and r w'
  assume st: "st \<in> {''filled'', ''rejected''}" and run: "set_status ev st k rc d tick p extra w = (r, w')"
  have "trades w' = trades w \<or> (\<exists>now. trades w' = sql_set_status st k rc d tick p extra now (trades w))"
    using run st by (auto simp: set_status_def statement_def bnd_def call_run
        split: sum.splits if_splits prod.splits dest!: db_ensure_frame)
  with st show "settles k w w'" unfolding settles_def by blast
qed

lemma settles_publish: "keeps (settles (o_key q)) (publish_outcome ev cfg q cid u)"
  unfolding publish_outcome_def Let_def
  by (intro keeps_if settles_rest settles_set_status) auto

lemma settles_execute_order: "keeps (settles (o_key q)) (execute_order ev cfg q cid)"
  unfolding execute_order_def Let_def
  by (intro settles_after [OF same_execute] settles_rest [OF settles_publish]) (auto intro!: same_update)

lemma set_status_last:
  assumes "st \<in> {''filled'', ''rejected''}" "k \<notin> tr_key ` set ts" "tr_key t = k"
    "row_ok t" "tr_status t = ''pending''"
  obtains t' where "sql_set_status st k rc d tick p extra now (ts @ [t]) = ts @ [t']" "tr_key t' = k" "row_ok t'"
  using assms by (auto simp: sql_set_status_def sql_update_last row_ok_def)

lemma insert_then_execute_ledger:
  "keeps ledger (bnd (insert_pending ev q) (\<lambda>inserted.
     if \<not> inserted then count_duplicate else execute_order ev cfg q cid))"
  unfolding keeps_def
proof (intro allI impI)
  fix w :: "'x store_world_scheme" and r w'
  assume "bnd (insert_pending ev q) (\<lambda>inserted.
     if \<not> inserted then count_duplicate else execute_order ev cfg q cid) w = (r, w')"
  then show "ledger w w'"
  proof (cases rule: bnd_cases)
    case (1 e)
    then have "trades w' = trades w"
      by (auto simp: insert_pending_def statement_def bnd_def call_run
          split: sum.splits if_splits prod.splits dest!: db_ensure_frame)
    then show ?thesis by (rule ledger_same)
  next
    case (2 b v)
    show ?thesis
    proof (cases b)
      case False
      then have "trades v = trades w"
        using 2(1) by (auto simp: insert_pending_def statement_def bnd_def call_run sql_insert_pending_def
            split: sum.splits if_splits prod.splits dest!: db_ensure_frame)
      moreover have "trades w' = trades v"
        using 2(2) False keepsD [OF same_duplicate] by (auto simp: same_rows_def)
      ultimately show ?thesis by (simp add: ledger_same)
    next
      case True
      obtain t where t: "trades v = trades w @ [t]" "tr_key t = o_key q" "o_key q \<notin> tr_key ` set (trades w)"
        "row_ok t" "tr_status t = ''pending''"
        using 2(1) True by (auto simp: insert_pending_def statement_def bnd_def call_run sql_insert_pending_def
            row_ok_def split: sum.splits if_splits prod.splits dest!: db_ensure_frame)
      have "settles (o_key q) v w'" using 2(2) True keepsD [OF settles_execute_order] by simp
      then obtain t' where "trades w' = trades w @ [t']" "tr_key t' = o_key q" "row_ok t'"
        unfolding settles_def t(1) using set_status_last [OF _ t(3,2,4,5)] t(2,4) by metis
      then show ?thesis
        unfolding ledger_def using t(3) by (intro exI [of _ "trades w"] exI [of _ "[t']"]) simp
    qed
  qed
qed

lemma ledger_execution: "keeps ledger (execution_handle ev cfg mid fs)"
  unfolding execution_handle_def execution_body_def
  by (intro led.keeps_with_correlation led.keeps_bnd keeps_option led.keeps_lift led.keeps_ret led.keeps_call
      insert_then_execute_ledger same_ledger [OF same_duplicate]) simp_all

lemma exec_step_ledger: "exec_step ev cfg rc w w' \<Longrightarrow> ledger w w'"
  by (elim exec_stepE) (blast intro: keepsD [OF ledger_execution] keepsD [OF ledger_reconcile]
      keepsD [OF ledger_close_route] keepsD [OF ledger_positions])+

lemma exec_run_ledger: "exec_run ev cfg rc w w' \<Longrightarrow> ledger w w'"
  by (induction rule: exec_run.induct) (auto intro: ledger_same exec_step_ledger ledger_trans)

subsection \<open>Properties\<close>

text \<open>
  C8. The life of a trade, over any interleaving of deliveries, sweeps, manual closes and listings,
  each of which may raise anywhere: keys stay unique and rows well formed (status pending, filled or
  rejected; a ticket only when filled; a profit exactly when closed; closed only when filled; a positive
  size); no row is lost, moved or altered, except that a filled, unclosed row with a ticket may be
  closed, once, which sets its closing time, profit and raw response only. In particular a row that a
  failed delivery left pending, and a rejected one, never changes again.
\<close>

theorem trade_lifetimes:
  fixes w :: "'x store_world_scheme"
  assumes "exec_run ev cfg rc w w'" "\<forall>t \<in> set (trades w). row_ok t" "distinct (map tr_key (trades w))"
  shows "(\<forall>t \<in> set (trades w'). row_ok t) \<and> distinct (map tr_key (trades w')) \<and>
    (\<exists>old new. trades w' = old @ new \<and> list_all2 (\<lambda>t t'. t' = t \<or>
       tr_status t = ''filled'' \<and> tr_ticket t \<noteq> None \<and> tr_closed t = None \<and>
       (\<exists>now p raw. t' = t\<lparr>tr_closed := Some now, tr_profit := Some p, tr_raw := raw\<rparr>)) (trades w) old)"
proof -
  obtain us vs where l: "trades w' = us @ vs" "list_all2 moved (trades w) us" "\<forall>v \<in> set vs. row_ok v"
    "distinct (map tr_key vs)" "set (map tr_key vs) \<inter> set (map tr_key (trades w)) = {}"
    using exec_run_ledger [OF assms(1)] unfolding ledger_def by blast
  have "\<forall>t \<in> set (trades w'). row_ok t" using l(1,3) moved_all_ok [OF l(2) assms(2)] by auto
  moreover have "distinct (map tr_key (trades w'))"
    unfolding l(1) using l(4,5) assms(3) moved_keys [OF l(2)] by (simp only: map_append distinct_append) blast
  moreover have "list_all2 (\<lambda>t t'. t' = t \<or>
       tr_status t = ''filled'' \<and> tr_ticket t \<noteq> None \<and> tr_closed t = None \<and>
       (\<exists>now p raw. t' = t\<lparr>tr_closed := Some now, tr_profit := Some p, tr_raw := raw\<rparr>)) (trades w) us"
    by (rule list.rel_mono_strong [OF l(2)]) (rule moved_settled, assumption, rule bspec [OF assms(2)])
  ultimately show ?thesis using l(1) by blast
qed

theorem trade_lifetimes_witness:
  "\<exists>w'. exec_run ghost_env demo_config demo_reconciler (empty_store\<lparr>trades := [demo_row]\<rparr>) w' \<and>
     (\<forall>t \<in> set (trades w'). tr_closed t \<noteq> None \<and> tr_status t = ''filled'') \<and> trades w' \<noteq> []"
proof -
  obtain w' where s: "reconcile_once ghost_env demo_reconciler (empty_store\<lparr>trades := [demo_row]\<rparr>) =
     (Inr (Swept 1 1), w')" "map tr_profit (trades w') = [Some (Fin 10)]"
    using demo_sweep by (elim exE conjE)
  have run: "exec_run ghost_env demo_config demo_reconciler (empty_store\<lparr>trades := [demo_row]\<rparr>) w'"
    by (rule Step [OF Swept_once [OF s(1)] Rest])
  have "\<forall>t \<in> set (trades (empty_store\<lparr>trades := [demo_row]\<rparr>)). row_ok t"
    "distinct (map tr_key (trades (empty_store\<lparr>trades := [demo_row]\<rparr>)))"
    by (simp_all add: row_ok_def demo_row_def zero_eq_Fin f64_eval)
  then have ok: "\<forall>t \<in> set (trades w'). row_ok t" using trade_lifetimes [OF run] by blast
  have "\<forall>t \<in> set (trades w'). tr_profit t = Some (Fin 10)"
    using s(2) by (auto simp: map_eq_Cons_conv)
  then show ?thesis using run ok s(2) by (intro exI [of _ w']) (auto simp: row_ok_def)
qed

end
