(* ===== verification/Logging.thy ===== *)
theory Logging
  imports Outcomes
begin

text \<open>
  \<open>vix_core/logging.py\<close>: the redaction of secrets in log events and texts, and the processor that
  adds correlation ids; \<open>vix_core/observability.py\<close>: the request metrics. Characters are those of
  Latin-1. The regular expression is written out as the scanner it denotes; the Prometheus
  exposition is a library. \<open>LogPipeline\<close> has the chains that the processors run in.
\<close>

subsection \<open>Sensitive keys\<close>

definition redacted :: string where "redacted = ''[REDACTED]''"

definition sensitive_keys :: "string list" where
  "sensitive_keys = [''mt5_login'', ''login'', ''account'', ''account_id'', ''balance'', ''equity'', ''password'',
     ''passwd'', ''pwd'', ''mt5_password'', ''token'', ''telegram_token'', ''deriv_api_token'', ''api_key'',
     ''secret'', ''jwt_secret'', ''authorization'']"

definition lower_char :: "char \<Rightarrow> char" where
  "lower_char c = (let n = (of_char c :: nat) in
     if (65 \<le> n \<and> n \<le> 90) \<or> (192 \<le> n \<and> n \<le> 222 \<and> n \<noteq> 215) then char_of (n + 32) else c)"

definition lower :: "string \<Rightarrow> string" where
  "lower s = map lower_char s"

definition is_sensitive :: "string \<Rightarrow> bool" where
  "is_sensitive k \<longleftrightarrow> lower k \<in> set sensitive_keys"

subsection \<open>Secrets in free text\<close>

definition is_space :: "char \<Rightarrow> bool" where
  \<comment> \<open>\<open>\s\<close>\<close>
  "is_space c = (let n = (of_char c :: nat) in (9 \<le> n \<and> n \<le> 13) \<or> (28 \<le> n \<and> n \<le> 32) \<or> n = 133 \<or> n = 160)"

definition is_word :: "char \<Rightarrow> bool" where
  \<comment> \<open>\<open>\w\<close>\<close>
  "is_word c = (let n = (of_char c :: nat) in (48 \<le> n \<and> n \<le> 57) \<or> (65 \<le> n \<and> n \<le> 90) \<or> n = 95 \<or> (97 \<le> n \<and> n \<le> 122) \<or>
     n \<in> {170, 178, 179, 181, 185, 186, 188, 189, 190} \<or> (192 \<le> n \<and> n \<noteq> 215 \<and> n \<noteq> 247))"

definition text_keys :: "string list" where
  "text_keys = [''mt5_login'', ''mt5_password'', ''login'', ''account_id'', ''account'', ''balance'', ''equity'', ''password'',
     ''passwd'', ''pwd'', ''token'', ''secret'', ''api_key'']"

definition separator :: "string \<Rightarrow> (string \<times> string) option" where
  \<comment> \<open>\<open>\s*[:=]\s*\<close> and what follows it\<close>
  "separator s = (case dropWhile is_space s of
      [] \<Rightarrow> None
    | c # t \<Rightarrow> if c = CHR '':'' \<or> c = CHR ''=''
        then Some (takeWhile is_space s @ c # takeWhile is_space t, dropWhile is_space t) else None)"

definition secret_at :: "string \<Rightarrow> (string \<times> string) option" where
  \<comment> \<open>a match at a word boundary: its groups 1 and 2, and the text after group 3\<close>
  "secret_at s =
     (if lower (takeWhile is_word s) \<notin> set text_keys then None
      else case separator (dropWhile is_word s) of
        None \<Rightarrow> None
      | Some (sep, v) \<Rightarrow> if v = [] then None
          else Some (takeWhile is_word s @ sep, dropWhile (\<lambda>c. \<not> is_space c) v))"

lemma separator_length: "separator s = Some (sep, v) \<Longrightarrow> length v < length s"
  using length_dropWhile_le [of is_space s] length_dropWhile_le [of is_space "tl (dropWhile is_space s)"]
  by (auto simp: separator_def split: list.splits if_splits)

lemma secret_at_length: "secret_at s = Some (p, t) \<Longrightarrow> length t < length s"
proof -
  assume "secret_at s = Some (p, t)"
  then obtain sep v where "separator (dropWhile is_word s) = Some (sep, v)" "t = dropWhile (\<lambda>c. \<not> is_space c) v"
    by (auto simp: secret_at_def split: option.splits if_splits)
  then show ?thesis
    using separator_length [of "dropWhile is_word s" sep v] length_dropWhile_le [of is_word s]
      length_dropWhile_le [of "\<lambda>c. \<not> is_space c" v] by simp
qed

function redact_from :: "bool \<Rightarrow> string \<Rightarrow> string" where
  \<comment> \<open>\<open>sub\<close>: the flag says whether the character before is a word character\<close>
  "redact_from w [] = []"
| "redact_from w (c # s) =
     (case (if w then None else secret_at (c # s)) of
        Some (p, t) \<Rightarrow> p @ redacted @ redact_from False t
      | None \<Rightarrow> c # redact_from (is_word c) s)"
  by pat_completeness auto
termination
  by (relation "measure (length \<circ> snd)") (auto dest!: secret_at_length split: if_splits)

definition redact_text :: "string \<Rightarrow> string" where
  "redact_text s = redact_from False s"

subsection \<open>Values\<close>

datatype log_key = KStr string | KOther int

datatype log_value =
    LNone
  | LBool bool
  | LInt int
  | LFloat f64
  | LStr string
  | LList "log_value list"
  | LTuple "log_value list"
  | LSet "log_value list"
  | LDict "(log_key \<times> log_value) list"

fun sensitive_key :: "log_key \<Rightarrow> bool" where
  "sensitive_key (KStr k) = is_sensitive k"
| "sensitive_key (KOther n) = False"

fun redact_value :: "log_value \<Rightarrow> log_value" where
  "redact_value (LDict d) = LDict (map (\<lambda>(k, v). (k, if sensitive_key k then LStr redacted else redact_value v)) d)"
| "redact_value (LList vs) = LList (map redact_value vs)"
| "redact_value (LTuple vs) = LTuple (map redact_value vs)"
| "redact_value (LSet vs) = LSet (remdups (map redact_value vs))"
| "redact_value (LStr s) = LStr (redact_text s)"
| "redact_value v = v"

type_synonym event = "(string \<times> log_value) list"

definition redact_event_dict :: "event \<Rightarrow> event" where
  "redact_event_dict ed =
     (let marked = map (\<lambda>(k, v). (k, if is_sensitive k then LStr redacted else v)) ed
      in map (\<lambda>(k, v). (k, if is_sensitive k then LStr redacted else redact_value v)) marked)"

record log_record =
  lr_msg :: string                      \<comment> \<open>\<open>str(record.msg)\<close>\<close>
  lr_args :: "log_value option"

definition filter_record :: "log_record \<Rightarrow> log_record" where
  \<comment> \<open>\<open>RedactingFilter.filter\<close>; empty arguments are left alone\<close>
  "filter_record r = r\<lparr>lr_msg := redact_text (lr_msg r),
     lr_args := (case lr_args r of None \<Rightarrow> None | Some a \<Rightarrow> Some (if a = LTuple [] \<or> a = LDict [] then a else redact_value a))\<rparr>"

fun log_truthy :: "log_value \<Rightarrow> bool" where
  "log_truthy LNone = False"
| "log_truthy (LBool b) = b"
| "log_truthy (LInt n) = (n \<noteq> 0)"
| "log_truthy (LFloat x) = (\<not> feq x 0)"
| "log_truthy (LStr s) = (s \<noteq> [])"
| "log_truthy (LList vs) = (vs \<noteq> [])"
| "log_truthy (LTuple vs) = (vs \<noteq> [])"
| "log_truthy (LSet vs) = (vs \<noteq> [])"
| "log_truthy (LDict d) = (d \<noteq> [])"

definition add_correlation_id :: "event \<Rightarrow> event" where
  "add_correlation_id ed =
     (if dhas ed ''correlation_id'' then ed
      else case find_first (\<lambda>v. log_truthy v)
             (map the (filter (\<lambda>v. v \<noteq> None) (map (dget ed) [''correlation_id'', ''x_correlation_id'', ''X-Correlation-Id'']))) of
        None \<Rightarrow> ed
      | Some v \<Rightarrow> dset ed ''correlation_id'' v)"

subsection \<open>Request metrics\<close>

record metrics_world = world +
  mw_requests :: "(string \<times> string \<times> string \<times> string) list"     \<comment> \<open>service, method, endpoint, status, per \<open>inc()\<close>\<close>
  mw_latencies :: "(string \<times> string \<times> string) list"

record measured_request =
  mr_method :: string
  mr_url_path :: string
  mr_route_path :: "string option"      \<comment> \<open>\<open>scope["route"].path\<close>\<close>

definition endpoint_template :: "measured_request \<Rightarrow> string" where
  "endpoint_template rq = (case mr_route_path rq of Some p \<Rightarrow> if p = [] then mr_url_path rq else p | None \<Rightarrow> mr_url_path rq)"

definition count_request :: "env \<Rightarrow> string \<Rightarrow> measured_request \<Rightarrow> string \<Rightarrow> ('x metrics_world_ext, unit) act" where
  "count_request ev service rq status =
     bnd (ask ev ReadClock) (\<lambda>_.
     update (\<lambda>w. w\<lparr>mw_requests := mw_requests w @ [(service, mr_method rq, endpoint_template rq, status)],
       mw_latencies := mw_latencies w @ [(service, mr_method rq, endpoint_template rq)]\<rparr>))"

definition prometheus_metrics ::
  "env \<Rightarrow> string \<Rightarrow> measured_request \<Rightarrow> ('x metrics_world_ext, int \<times> 'r) act \<Rightarrow> ('x metrics_world_ext, int \<times> 'r) act" where
  \<comment> \<open>the middleware around \<open>call_next\<close>, whose response has a status code\<close>
  "prometheus_metrics ev service rq call_next =
     bnd (ask ev ReadClock) (\<lambda>_.
     bnd (attempt (bnd call_next (\<lambda>rsp. ret rsp))
            (\<lambda>e. if is_exception e then bnd (count_request ev service rq ''500'') (\<lambda>_. throw e) else throw e)) (\<lambda>response.
     bnd (count_request ev service rq (int_str (fst response))) (\<lambda>_.
     ret response)))"

subsection \<open>What redaction hides\<close>

lemma text_keys_words: "lower k \<in> set text_keys \<Longrightarrow> k \<noteq> [] \<and> list_all is_word k"
proof -
  have low: "is_word (lower_char c) \<Longrightarrow> of_char (lower_char c) < (128 :: nat) \<Longrightarrow> is_word c" for c
    by (auto simp: lower_char_def is_word_def Let_def split: if_splits)
  have "\<forall>u \<in> set text_keys. u \<noteq> [] \<and> list_all (\<lambda>c. is_word c \<and> of_char c < (128 :: nat)) u" by code_simp
  moreover assume "lower k \<in> set text_keys"
  ultimately have "lower k \<noteq> [] \<and> list_all (\<lambda>c. is_word c \<and> of_char c < (128 :: nat)) (lower k)" by blast
  then show ?thesis using low by (auto simp: lower_def list_all_iff)
qed

lemma word_not_space: "is_word c \<Longrightarrow> \<not> is_space c \<and> c \<noteq> CHR '':'' \<and> c \<noteq> CHR ''=''"
  by (auto simp: is_word_def is_space_def Let_def)

definition separates :: "string \<Rightarrow> bool" where
  "separates sep \<longleftrightarrow> (\<exists>a c b. sep = a @ c # b \<and> list_all is_space a \<and> list_all is_space b \<and> (c = CHR '':'' \<or> c = CHR ''=''))"

definition one_token :: "string \<Rightarrow> bool" where
  "one_token s \<longleftrightarrow> s \<noteq> [] \<and> list_all (\<lambda>c. \<not> is_space c) s"

definition apart :: "string \<Rightarrow> bool" where
  "apart rest \<longleftrightarrow> rest = [] \<or> is_space (hd rest)"

definition dangling :: "string \<Rightarrow> bool" where
  \<comment> \<open>a separator with no value yet at the end\<close>
  "dangling pre \<longleftrightarrow> (\<exists>a c b. pre = a @ c # b \<and> list_all is_space b \<and> (c = CHR '':'' \<or> c = CHR ''=''))"

definition exposed :: "string \<Rightarrow> string \<Rightarrow> bool" where
  \<comment> \<open>a key after \<open>pre\<close> is at a word boundary and in no earlier value's token\<close>
  "exposed pre sep \<longleftrightarrow> (pre = [] \<or> \<not> is_word (last pre)) \<and>
     (list_all (\<lambda>c. \<not> is_space c) sep \<or> ((pre = [] \<or> is_space (last pre)) \<and> \<not> dangling pre))"

lemma dropWhile_all_append: "list_all P xs \<Longrightarrow> dropWhile P (xs @ ys) = dropWhile P ys"
  by (induction xs) auto

lemma takeWhile_all_append: "list_all P xs \<Longrightarrow> takeWhile P (xs @ ys) = xs @ takeWhile P ys"
  by (induction xs) auto

lemma separator_value:
  assumes "separates sep" "one_token s"
  shows "separator (sep @ s @ rest) = Some (sep, s @ rest)"
proof -
  obtain a c b where sep: "sep = a @ c # b" "list_all is_space a" "list_all is_space b" and c: "c = CHR '':'' \<or> c = CHR ''=''"
    using assms(1) by (auto simp: separates_def)
  have "\<not> is_space c" using c by (auto simp: is_space_def)
  moreover obtain x xs where s: "s = x # xs" "\<not> is_space x" using assms(2) by (cases s) (auto simp: one_token_def)
  ultimately show ?thesis
    using c by (simp add: separator_def sep dropWhile_all_append takeWhile_all_append)
qed

lemma separates_first:
  assumes "separates sep"
  obtains x xs where "sep = x # xs" "\<not> is_word x"
proof -
  obtain a c b where sep: "sep = a @ c # b" "list_all is_space a" and c: "c = CHR '':'' \<or> c = CHR ''=''"
    using assms by (auto simp: separates_def)
  show ?thesis
  proof (cases a)
    case Nil
    then show ?thesis using sep c that word_not_space by (metis append_Nil)
  next
    case (Cons y ys)
    then have "\<not> is_word y" using sep(2) word_not_space by auto
    then show ?thesis using that Cons sep(1) by simp
  qed
qed

lemma secret_found:
  assumes "lower k \<in> set text_keys" "separates sep" "one_token s" "apart rest"
  shows "secret_at (k @ sep @ s @ rest) = Some (k @ sep, rest)"
proof -
  obtain x xs where x: "sep = x # xs" "\<not> is_word x" by (rule separates_first [OF assms(2)])
  have k: "list_all is_word k" using text_keys_words [OF assms(1)] by simp
  have "takeWhile is_word (k @ sep @ s @ rest) = k" "dropWhile is_word (k @ sep @ s @ rest) = sep @ s @ rest"
    using k x by (simp_all add: takeWhile_all_append dropWhile_all_append)
  moreover have "dropWhile (\<lambda>c. \<not> is_space c) (s @ rest) = rest"
    using assms(3,4) by (cases rest) (simp_all add: one_token_def apart_def dropWhile_all_append, simp add: list_all_iff)
  moreover have "s @ rest \<noteq> []" using assms(3) by (simp add: one_token_def)
  ultimately show ?thesis using assms(1) separator_value [OF assms(2,3)] by (simp add: secret_at_def)
qed

lemma takeWhile_stops: "\<exists>x \<in> set xs. \<not> P x \<Longrightarrow> takeWhile P (xs @ ys) = takeWhile P xs \<and> dropWhile P (xs @ ys) = dropWhile P xs @ ys"
  by (induction xs) auto

lemma dropWhile_suffix: "\<exists>ys. xs = ys @ dropWhile P xs"
  by (metis takeWhile_dropWhile_id)

lemma exposed_suffix:
  assumes "exposed (a @ b) sep" "b \<noteq> []"
  shows "exposed b sep"
proof -
  have "dangling (a @ b)" if "dangling b"
    using that unfolding dangling_def by (metis append_assoc)
  then show ?thesis using assms by (auto simp: exposed_def)
qed

text \<open>A value that starts before the key or at it swallows the key, when nothing in between is a space.\<close>

lemma swallow_token:
  assumes "lower k \<in> set text_keys" "apart rest" "one_token s"
    and "list_all (\<lambda>c. \<not> is_space c) v" "list_all (\<lambda>c. \<not> is_space c) sep"
  shows "dropWhile (\<lambda>c. \<not> is_space c) (v @ k @ sep @ s @ rest) = rest"
proof -
  have "list_all (\<lambda>c. \<not> is_space c) k"
    using text_keys_words [OF assms(1)] word_not_space by (auto simp: list_all_iff)
  then have "list_all (\<lambda>c. \<not> is_space c) (v @ k @ sep @ s)" using assms(3-5) by (simp add: one_token_def)
  then have "dropWhile (\<lambda>c. \<not> is_space c) ((v @ k @ sep @ s) @ rest) = dropWhile (\<lambda>c. \<not> is_space c) rest"
    by (rule dropWhile_all_append)
  then show ?thesis using assms(2) by (cases rest) (simp_all add: apart_def)
qed

text \<open>A match that starts before the key at a sensitive word and finds its separator there.\<close>

lemma secret_at_earlier:
  assumes "lower k \<in> set text_keys" "list_all is_space sp" "c = CHR '':'' \<or> c = CHR ''=''"
    and "\<And>w. separator (sp @ c # e @ k @ y) = Some (w, dropWhile is_space e @ k @ y) \<Longrightarrow>
      secret_at (pre @ k @ y) = Some (u @ w, dropWhile (\<lambda>c. \<not> is_space c) (dropWhile is_space e @ k @ y))"
  shows "secret_at (pre @ k @ y) = Some (u @ sp @ c # takeWhile is_space e,
    dropWhile (\<lambda>c. \<not> is_space c) (dropWhile is_space e @ k @ y))"
proof -
  obtain k0 ks where k: "k = k0 # ks" "\<not> is_space k0"
    using text_keys_words [OF assms(1)] word_not_space by (cases k) auto
  have c: "\<not> is_space c" using assms(3) by (auto simp: is_space_def)
  have e: "takeWhile is_space (e @ k @ y) = takeWhile is_space e" "dropWhile is_space (e @ k @ y) = dropWhile is_space e @ k @ y"
    using k by (induction e) auto
  have "takeWhile is_space (sp @ c # z) = sp" "dropWhile is_space (sp @ c # z) = c # z" for z
    using assms(2) c by (induction sp) auto
  then have "separator (sp @ c # e @ k @ y) = Some (sp @ c # takeWhile is_space e, dropWhile is_space e @ k @ y)"
    using assms(3) e by (simp add: separator_def)
  then show ?thesis using assms(4) by simp
qed

lemma exposed_tight:
  assumes "exposed (a @ c # e) sep" "c = CHR '':'' \<or> c = CHR ''=''" "list_all (\<lambda>c. \<not> is_space c) (dropWhile is_space e)"
  shows "list_all (\<lambda>c. \<not> is_space c) sep"
proof (cases "dropWhile is_space e = []")
  case True
  then have "list_all is_space e" by (simp add: dropWhile_eq_Nil_conv list_all_iff)
  then have "dangling (a @ c # e)" unfolding dangling_def using assms(2) by blast
  then show ?thesis using assms(1) by (simp add: exposed_def)
next
  case False
  then have "last e = last (dropWhile is_space e)" by (metis takeWhile_dropWhile_id last_appendR)
  moreover have "e \<noteq> []" using False by auto
  ultimately have "\<not> is_space (last (a @ c # e))"
    using assms(3) last_in_set [OF False] by (auto simp: list_all_iff)
  then show ?thesis using assms(1) by (simp add: exposed_def)
qed

lemma secret_before_separator:
  assumes "lower k \<in> set text_keys" "apart rest" "exposed pre sep"
    and "pre = u @ sp @ c # e" "u \<noteq> []" "list_all is_space sp" "c = CHR '':'' \<or> c = CHR ''=''"
    and sec: "\<And>s w. separator (sp @ c # e @ k @ sep @ s @ rest) = Some (w, dropWhile is_space e @ k @ sep @ s @ rest) \<Longrightarrow>
      secret_at (pre @ k @ sep @ s @ rest) = Some (u @ w, dropWhile (\<lambda>c. \<not> is_space c) (dropWhile is_space e @ k @ sep @ s @ rest))"
  obtains q where "\<And>s. one_token s \<Longrightarrow> secret_at (pre @ k @ sep @ s @ rest) = Some (q, rest)"
  | q a b where "pre = a @ b" "a \<noteq> []" "b \<noteq> []"
      "\<And>s. one_token s \<Longrightarrow> secret_at (pre @ k @ sep @ s @ rest) = Some (q, b @ k @ sep @ s @ rest)"
proof -
  let ?x = "\<lambda>s. k @ sep @ s @ rest" and ?v = "dropWhile is_space e"
  note at = secret_at_earlier [OF assms(1,6,7) sec]
  show ?thesis
  proof (cases "list_all (\<lambda>c. \<not> is_space c) ?v")
    case True
    have "list_all (\<lambda>c. \<not> is_space c) sep"
      using exposed_tight [of "u @ sp" c e sep] assms(3,4,7) True by simp
    then have "dropWhile (\<lambda>c. \<not> is_space c) (?v @ ?x s) = rest" if "one_token s" for s
      using swallow_token [OF assms(1,2) that True] by simp
    then show ?thesis using that(1) at by simp
  next
    case False
    then have sv: "\<exists>x \<in> set ?v. \<not> \<not> is_space x" by (auto simp: list_all_iff)
    let ?b = "dropWhile (\<lambda>c. \<not> is_space c) ?v"
    have bne: "?b \<noteq> []" using sv by (metis dropWhile_eq_Nil_conv)
    have "dropWhile (\<lambda>c. \<not> is_space c) (?v @ ?x s) = ?b @ ?x s" for s
      using takeWhile_stops [OF sv] by simp
    moreover obtain a where "e = a @ ?b"
      using dropWhile_suffix [of e is_space] dropWhile_suffix [of ?v "\<lambda>c. \<not> is_space c"] by (metis append.assoc)
    ultimately show ?thesis using that(2) [of "u @ sp @ c # a" ?b] at assms(4,5) bne by simp
  qed
qed

lemma separator_blocked:
  assumes "lower k \<in> set text_keys" "\<forall>x \<in> set d. is_space x"
  shows "separator (d @ k @ y) = None"
proof -
  obtain k0 ks where k: "k = k0 # ks" "is_word k0" using text_keys_words [OF assms(1)] by (cases k) auto
  have "dropWhile is_space (d @ k @ y) = k @ y"
    using assms(2) k word_not_space [OF k(2)] by (simp add: dropWhile_all_append list_all_iff)
  then show ?thesis using k word_not_space [OF k(2)] by (simp add: separator_def)
qed

text \<open>A match that starts before the key leaves the key alone or swallows it with its value.\<close>

lemma secret_before:
  assumes "lower k \<in> set text_keys" "apart rest" "exposed pre sep" "pre \<noteq> []"
  obtains "\<And>s. one_token s \<Longrightarrow> secret_at (pre @ k @ sep @ s @ rest) = None"
  | q where "\<And>s. one_token s \<Longrightarrow> secret_at (pre @ k @ sep @ s @ rest) = Some (q, rest)"
  | q a b where "pre = a @ b" "a \<noteq> []" "b \<noteq> []"
      "\<And>s. one_token s \<Longrightarrow> secret_at (pre @ k @ sep @ s @ rest) = Some (q, b @ k @ sep @ s @ rest)"
proof -
  let ?x = "\<lambda>s. k @ sep @ s @ rest"
  have word: "\<exists>x \<in> set pre. \<not> is_word x" using assms(3,4) last_in_set by (auto simp: exposed_def)
  let ?u = "takeWhile is_word pre" and ?d = "dropWhile is_word pre"
  have u: "takeWhile is_word (pre @ ?x s) = ?u" "dropWhile is_word (pre @ ?x s) = ?d @ ?x s" for s
    using takeWhile_stops [OF word] by simp_all
  show ?thesis
  proof (cases "lower ?u \<in> set text_keys \<and> (\<exists>x \<in> set ?d. \<not> is_space x)")
    case False
    then show ?thesis using that(1) u separator_blocked [OF assms(1), of ?d] by (auto simp: secret_at_def)
  next
    case key: True
    then have une: "?u \<noteq> []" using text_keys_words by blast
    obtain c e where e: "dropWhile is_space ?d = c # e" using key by (metis dropWhile_eq_Nil_conv list.exhaust)
    have d: "?d = takeWhile is_space ?d @ c # e" using takeWhile_dropWhile_id [of is_space ?d] e by metis
    show ?thesis
    proof (cases "c = CHR '':'' \<or> c = CHR ''=''")
      case False
      have "dropWhile is_space (?d @ ?x s) = c # e @ ?x s" for s
        using takeWhile_stops [of ?d is_space] key e by simp
      then have "separator (?d @ ?x s) = None" for s using False by (simp add: separator_def)
      then show ?thesis using that(1) u by (simp add: secret_at_def)
    next
      case True
      have pre: "pre = ?u @ takeWhile is_space ?d @ c # e"
        using takeWhile_dropWhile_id [of is_word pre] d by metis
      have sec: "secret_at (pre @ ?x s) = Some (?u @ w, dropWhile (\<lambda>c. \<not> is_space c) (dropWhile is_space e @ ?x s))"
        if "separator (takeWhile is_space ?d @ c # e @ ?x s) = Some (w, dropWhile is_space e @ ?x s)" for s w
      proof -
        have "separator (?d @ ?x s) = Some (w, dropWhile is_space e @ ?x s)" using that by (subst d) simp
        moreover have "dropWhile is_space e @ ?x s \<noteq> []" using text_keys_words [OF assms(1)] by simp
        ultimately show ?thesis using u key by (simp add: secret_at_def)
      qed
      have "list_all is_space (takeWhile is_space ?d)" by (auto simp: list_all_iff dest: set_takeWhileD)
      then show ?thesis
        by (rule secret_before_separator [OF assms(1-3) pre une _ True sec that(2,3)])
    qed
  qed
qed

lemma redact_from_hides:
  assumes "lower k \<in> set text_keys" "separates sep" "apart rest" "one_token s" "one_token t"
  shows "exposed pre sep \<Longrightarrow> (pre = [] \<longrightarrow> \<not> w) \<Longrightarrow>
    redact_from w (pre @ k @ sep @ s @ rest) = redact_from w (pre @ k @ sep @ t @ rest)"
proof (induction "length pre" arbitrary: pre w rule: less_induct)
  case less
  let ?x = "\<lambda>s. k @ sep @ s @ rest"
  show ?case
  proof (cases pre)
    case Nil
    obtain k0 ks where k: "k = k0 # ks" using text_keys_words [OF assms(1)] by (cases k) auto
    have "redact_from False (?x u) = (k @ sep) @ redacted @ redact_from False rest" if "one_token u" for u
      using secret_found [OF assms(1,2) that assms(3)] k by simp
    then show ?thesis using Nil less.prems(2) assms(4,5) by simp
  next
    case (Cons c p)
    have step: "c # redact_from (is_word c) (p @ ?x s) = c # redact_from (is_word c) (p @ ?x t)"
    proof -
      have "exposed p sep \<or> p = []" using exposed_suffix [of "[c]" p sep] less.prems(1) Cons by auto
      moreover have "p = [] \<longrightarrow> \<not> is_word c" using less.prems(1) Cons by (auto simp: exposed_def)
      moreover have "exposed [] sep" by (simp add: exposed_def dangling_def)
      ultimately have "redact_from (is_word c) (p @ ?x s) = redact_from (is_word c) (p @ ?x t)"
        using less.hyps [of p "is_word c"] Cons by auto
      then show ?thesis by simp
    qed
    show ?thesis
    proof (cases w)
      case True
      then show ?thesis using step Cons by simp
    next
      case False
      have ne: "pre \<noteq> []" using Cons by simp
      from assms(1,3) less.prems(1) ne show ?thesis
      proof (cases rule: secret_before)
        case 1
        then show ?thesis using 1 [OF assms(4)] 1 [OF assms(5)] step Cons False by simp
      next
        case (2 q)
        then show ?thesis using 2 [OF assms(4)] 2 [OF assms(5)] Cons False by simp
      next
        case (3 q a b)
        have "exposed b sep" using exposed_suffix [of a b sep] less.prems(1) 3(1,3) by simp
        then have "redact_from False (b @ ?x s) = redact_from False (b @ ?x t)"
          using less.hyps [of b False] 3(1-3) by simp
        then show ?thesis using 3(4) [OF assms(4)] 3(4) [OF assms(5)] Cons False by simp
      qed
    qed
  qed
qed

text \<open>Values that differ only in what must not be logged.\<close>

inductive same_public :: "log_value \<Rightarrow> log_value \<Rightarrow> bool" where
  same_refl: "same_public v v"
| same_text: "lower k \<in> set text_keys \<Longrightarrow> separates sep \<Longrightarrow> apart rest \<Longrightarrow> exposed pre sep \<Longrightarrow> one_token s \<Longrightarrow> one_token t \<Longrightarrow>
    same_public (LStr (pre @ k @ sep @ s @ rest)) (LStr (pre @ k @ sep @ t @ rest))"
| same_list: "list_all2 same_public vs us \<Longrightarrow> same_public (LList vs) (LList us)"
| same_tuple: "list_all2 same_public vs us \<Longrightarrow> same_public (LTuple vs) (LTuple us)"
| same_set: "list_all2 same_public vs us \<Longrightarrow> same_public (LSet vs) (LSet us)"
| same_dict: "list_all2 (\<lambda>x y. fst x = fst y \<and> (sensitive_key (fst x) \<or> same_public (snd x) (snd y))) d e \<Longrightarrow>
    same_public (LDict d) (LDict e)"

lemma list_all2_map_eq: "list_all2 (\<lambda>v u. f v = f u) vs us \<Longrightarrow> map f vs = map f us"
  by (induction rule: list_all2_induct) auto

lemma redact_value_hides: "same_public v u \<Longrightarrow> redact_value v = redact_value u"
proof (induction rule: same_public.induct)
  case (same_text k sep rest pre s t)
  then show ?case
    using redact_from_hides [of k sep rest s t pre False] by (simp add: redact_text_def)
next
  case (same_list vs us)
  then have "list_all2 (\<lambda>v u. redact_value v = redact_value u) vs us" by (auto elim: list_all2_mono)
  then show ?case by (simp add: list_all2_map_eq)
next
  case (same_tuple vs us)
  then have "list_all2 (\<lambda>v u. redact_value v = redact_value u) vs us" by (auto elim: list_all2_mono)
  then show ?case by (simp add: list_all2_map_eq)
next
  case (same_set vs us)
  then have "list_all2 (\<lambda>v u. redact_value v = redact_value u) vs us" by (auto elim: list_all2_mono)
  then show ?case by (simp add: list_all2_map_eq)
next
  case (same_dict d e)
  have "list_all2 (\<lambda>x y. (case x of (k, v) \<Rightarrow> (k, if sensitive_key k then LStr redacted else redact_value v)) =
      (case y of (k, v) \<Rightarrow> (k, if sensitive_key k then LStr redacted else redact_value v))) d e"
    using same_dict by (rule list_all2_mono) auto
  then show ?case by (simp add: list_all2_map_eq)
qed simp

lemma redact_events_equal:
  assumes "list_all2 (\<lambda>(k, v) (l, u). k = l \<and> (is_sensitive k \<or> same_public v u)) d e"
  shows "redact_event_dict d = redact_event_dict e"
proof -
  have "list_all2 (\<lambda>x y. (case x of (k, v) \<Rightarrow> (k, if is_sensitive k then LStr redacted else redact_value v)) =
      (case y of (k, v) \<Rightarrow> (k, if is_sensitive k then LStr redacted else redact_value v))) d e"
    using assms by (rule list_all2_mono) (auto dest: redact_value_hides)
  then have "map (\<lambda>(k, v). (k, if is_sensitive k then LStr redacted else redact_value v)) d =
      map (\<lambda>(k, v). (k, if is_sensitive k then LStr redacted else redact_value v)) e"
    by (rule list_all2_map_eq)
  moreover have "redact_event_dict x = map (\<lambda>(k, v). (k, if is_sensitive k then LStr redacted else redact_value v)) x" for x
    by (simp add: redact_event_dict_def case_prod_beta)
  ultimately show ?thesis by simp
qed

text \<open>
  C39. The log does not depend on secrets: two events that differ only in values under sensitive keys
  (at any depth of dicts, lists, tuples and sets, letter case ignored) and in the values of
  \<open>key=value\<close> or \<open>key: value\<close> pairs inside their texts are redacted to the same event. A pair in a text
  counts when its key stands at a word boundary and, if spaces surround the separator, after a space
  and with no earlier separator waiting for its value.
\<close>

theorem redaction_hides_secrets:
  assumes "list_all2 (\<lambda>(k, v) (l, u). k = l \<and> (is_sensitive k \<or> same_public v u)) d e"
  shows "redact_event_dict d = redact_event_dict e"
  using assms by (rule redact_events_equal)

definition login_event :: "string \<Rightarrow> event" where
  "login_event s = [(''event'', LStr (''mt5 login failed password='' @ s @ '' retry'')), (''Token'', LStr s),
     (''context'', LDict [(KStr ''balance'', LStr s)])]"

theorem redaction_hides_secrets_witness:
  "redact_event_dict (login_event ''hunter2'') = redact_event_dict (login_event ''x'') \<and>
   redact_event_dict (login_event ''hunter2'') =
     [(''event'', LStr ''mt5 login failed password=[REDACTED] retry''), (''Token'', LStr ''[REDACTED]''),
      (''context'', LDict [(KStr ''balance'', LStr ''[REDACTED]'')])]"
proof -
  have t: "same_public (LStr (''mt5 login failed '' @ ''password'' @ ''='' @ ''hunter2'' @ '' retry''))
      (LStr (''mt5 login failed '' @ ''password'' @ ''='' @ ''x'' @ '' retry''))"
  proof (rule same_text)
    show "separates ''=''" unfolding separates_def by (intro exI [of _ "[]"] exI [of _ "CHR ''=''"]) simp
    show "exposed ''mt5 login failed '' ''=''" unfolding exposed_def by (simp add: is_word_def is_space_def Let_def)
  qed code_simp+
  have "list_all2 (\<lambda>(k, v) (l, u). k = l \<and> (is_sensitive k \<or> same_public v u)) (login_event ''hunter2'') (login_event ''x'')"
  proof -
    have "is_sensitive ''Token''" by code_simp
    moreover have "sensitive_key (KStr ''balance'')" by code_simp
    ultimately show ?thesis using t by (simp add: login_event_def same_dict)
  qed
  then have "redact_event_dict (login_event ''hunter2'') = redact_event_dict (login_event ''x'')"
    by (rule redaction_hides_secrets)
  moreover have "redact_event_dict (login_event ''hunter2'') =
     [(''event'', LStr ''mt5 login failed password=[REDACTED] retry''), (''Token'', LStr ''[REDACTED]''),
      (''context'', LDict [(KStr ''balance'', LStr ''[REDACTED]'')])]"
    by code_simp
  ultimately show ?thesis by blast
qed

text \<open>
  What the texts keep: a quoted JSON key, a prefixed key, a value after a spaced separator behind a
  dangling one; and the arguments of a record whose message names the key.
\<close>

lemma quoted_key_kept: "redact_text ''{\"password\": \"hunter2\"}'' = ''{\"password\": \"hunter2\"}''"
  by code_simp

lemma prefixed_key_kept: "redact_text ''telegram_token=abc'' = ''telegram_token=abc''"
  by code_simp

lemma dangling_value_kept: "redact_text ''login: password = hunter2'' = ''login: [REDACTED] = hunter2''"
  by code_simp

lemma argument_kept:
  "filter_record \<lparr>lr_msg = ''password=%s'', lr_args = Some (LTuple [LStr ''hunter2''])\<rparr> =
     \<lparr>lr_msg = ''password=[REDACTED]'', lr_args = Some (LTuple [LStr ''hunter2''])\<rparr>"
  by code_simp

text \<open>Every request that ends is counted once, the failing ones as 500.\<close>

lemma request_counted_once:
  fixes w :: "'x metrics_world_scheme"
  assumes "prometheus_metrics ev service rq call_next w = (r, w')" "r \<noteq> Inl CancelledError" "r \<noteq> Inl Diverged"
    "r \<noteq> Inl KeyboardInterrupt" and "\<And>u q v. call_next u = (q, v) \<Longrightarrow> mw_requests v = mw_requests u"
  shows "\<exists>status. mw_requests w' = mw_requests w @ [(service, mr_method rq, endpoint_template rq, status)]"
proof -
  let ?w = "w\<lparr>log := log w @ [ReadClock]\<rparr>"
  obtain q v where q: "call_next ?w = (q, v)" by (metis surj_pair)
  have c: "\<exists>u. count_request ev service rq st x = (Inr (), u) \<and>
      mw_requests u = mw_requests x @ [(service, mr_method rq, endpoint_template rq, st)]" for st and x :: "'x metrics_world_scheme"
    by (simp add: count_request_def bnd_def ask_def)
  have keep: "mw_requests v = mw_requests w" using assms(5) [OF q] by simp
  show ?thesis
  proof (cases q)
    case (Inl e)
    then have "e \<noteq> Diverged \<and> e \<noteq> CancelledError \<and> e \<noteq> KeyboardInterrupt"
      using assms(1-4) q by (auto simp: prometheus_metrics_def bnd_def ask_def attempt_def split: if_splits)
    then have "is_exception e" by (cases e) simp_all
    then show ?thesis
      using c [of "''500''" v] assms(1) q Inl keep \<open>e \<noteq> Diverged \<and> e \<noteq> CancelledError \<and> e \<noteq> KeyboardInterrupt\<close>
      by (auto simp: prometheus_metrics_def bnd_def ask_def attempt_def)
  next
    case (Inr rsp)
    then show ?thesis
      using c [of "int_str (fst rsp)" v] assms(1) q keep
      by (auto simp: prometheus_metrics_def bnd_def ask_def attempt_def)
  qed
qed

end
