(* ===== verification/LogPipeline.thy ===== *)
theory LogPipeline
  imports Logging
begin

text \<open>
  \<open>vix_core/logging.py\<close>, continued: \<open>configure_logging\<close>, the two chains it wires and what comes out of
  them. structlog's own processors and its renderers are parameters; what the chains rely on is that
  they do not turn a secret into something else (\<open>polite\<close>). The standard library's \<open>getMessage\<close> is a
  parameter too, and may fail.
\<close>

subsection \<open>Configuration\<close>

datatype log_processor =
    MergeContextvars
  | AddCorrelationId
  | AddLogLevel
  | TimeStamper
  | StackInfoRenderer
  | FormatExcInfo
  | RedactEventDict

datatype log_renderer = JSONRenderer | ConsoleRenderer

datatype log_method = LDebug | LInfo | LWarning | LError | LCritical | LException

fun method_level :: "log_method \<Rightarrow> int" where
  "method_level LDebug = 10"
| "method_level LInfo = 20"
| "method_level LWarning = 30"
| "method_level LError = 40"
| "method_level LCritical = 50"
| "method_level LException = 40"

definition level_names :: "int dict" where
  \<comment> \<open>\<open>logging.getLevelNamesMapping()\<close>\<close>
  "level_names = [(''CRITICAL'', 50), (''FATAL'', 50), (''ERROR'', 40), (''WARN'', 30), (''WARNING'', 30),
     (''INFO'', 20), (''DEBUG'', 10), (''NOTSET'', 0)]"

definition upper :: "string \<Rightarrow> string" where
  \<comment> \<open>\<open>str.upper\<close> on the letters of level names\<close>
  "upper s = map (\<lambda>c. let n = (of_char c :: nat) in if 97 \<le> n \<and> n \<le> 122 then char_of (n - 32) else c) s"

definition level_number :: "string \<Rightarrow> int" where
  \<comment> \<open>\<open>.get(level.upper(), logging.INFO)\<close>\<close>
  "level_number level = (case dget level_names (upper level) of Some n \<Rightarrow> n | None \<Rightarrow> 20)"

definition shared_processors :: "log_processor list" where
  "shared_processors = [MergeContextvars, AddCorrelationId, AddLogLevel, TimeStamper, StackInfoRenderer,
     FormatExcInfo, RedactEventDict]"

record logging_setup =
  ls_processors :: "log_processor list"
  ls_renderer :: log_renderer
  ls_level :: int
  ls_root_level :: int
  ls_foreign_chain :: "log_processor list"
  ls_handlers :: nat                       \<comment> \<open>of the root logger, each with the redacting filter\<close>

definition logging_setup_for :: "string \<Rightarrow> bool \<Rightarrow> logging_setup" where
  "logging_setup_for level json_output = \<lparr>ls_processors = shared_processors,
     ls_renderer = (if json_output then JSONRenderer else ConsoleRenderer),
     ls_level = level_number level, ls_root_level = level_number level,
     ls_foreign_chain = shared_processors, ls_handlers = 1\<rparr>"

subsection \<open>The chains\<close>

record log_library =
  lb_merge :: "event \<Rightarrow> event"
  lb_level :: "log_method \<Rightarrow> event \<Rightarrow> event"
  lb_stamp :: "event \<Rightarrow> event"
  lb_stack :: "event \<Rightarrow> event"
  lb_exc :: "event \<Rightarrow> event"
  lb_render :: "log_renderer \<Rightarrow> event \<Rightarrow> string"
  lb_message :: "log_record \<Rightarrow> string res"     \<comment> \<open>\<open>record.getMessage()\<close>: \<open>msg % args\<close>\<close>

fun run_processor :: "log_library \<Rightarrow> log_method \<Rightarrow> log_processor \<Rightarrow> event \<Rightarrow> event" where
  "run_processor lib m MergeContextvars ed = lb_merge lib ed"
| "run_processor lib m AddCorrelationId ed = add_correlation_id ed"
| "run_processor lib m AddLogLevel ed = lb_level lib m ed"
| "run_processor lib m TimeStamper ed = lb_stamp lib ed"
| "run_processor lib m StackInfoRenderer ed = lb_stack lib ed"
| "run_processor lib m FormatExcInfo ed = lb_exc lib ed"
| "run_processor lib m RedactEventDict ed = redact_event_dict ed"

fun run_chain :: "log_library \<Rightarrow> log_method \<Rightarrow> log_processor list \<Rightarrow> event \<Rightarrow> event" where
  "run_chain lib m [] ed = ed"
| "run_chain lib m (p # ps) ed = run_chain lib m ps (run_processor lib m p ed)"

definition native_line :: "logging_setup \<Rightarrow> log_library \<Rightarrow> log_method \<Rightarrow> event \<Rightarrow> string option" where
  \<comment> \<open>what a structlog call prints\<close>
  "native_line st lib m ed =
     (if method_level m < ls_level st then None
      else Some (lb_render lib (ls_renderer st) (run_chain lib m (ls_processors st) ed)))"

definition foreign_line :: "logging_setup \<Rightarrow> log_library \<Rightarrow> log_method \<Rightarrow> log_record \<Rightarrow> string option res" where
  \<comment> \<open>what a record of the standard library prints: level, filter, format\<close>
  "foreign_line st lib m r =
     (if method_level m < ls_root_level st then Inr None
      else res_bind (lb_message lib (filter_record r)) (\<lambda>text.
        Inr (Some (lb_render lib (ls_renderer st) (run_chain lib m (ls_foreign_chain st) [(''event'', LStr text)])))))"

definition configure_logging ::
  "log_library \<Rightarrow> string \<Rightarrow> string \<Rightarrow> bool \<Rightarrow> logging_setup \<times> string option" where
  \<comment> \<open>the setup, and the line that it logs itself\<close>
  "configure_logging lib service level json_output =
     (let st = logging_setup_for level json_output in
      (st, native_line st lib LInfo [(''service'', LStr service), (''event'', LStr ''logging configured'')]))"

subsection \<open>Levels\<close>

text \<open>An unknown level name means \<open>INFO\<close>; known names work in either case.\<close>

lemma level_number_examples:
  "level_number ''info'' = 20" "level_number ''Warning'' = 30" "level_number ''verbose'' = 20"
  by code_simp+

lemma startup_line_filtered:
  "snd (configure_logging lib service level json_output) = None \<longleftrightarrow> 20 < level_number level"
  by (simp add: configure_logging_def native_line_def logging_setup_for_def Let_def)

subsection \<open>No sink depends on a secret\<close>

definition same_public_event :: "event \<Rightarrow> event \<Rightarrow> bool" where
  "same_public_event d e \<longleftrightarrow> list_all2 (\<lambda>(k, v) (l, u). k = l \<and> (is_sensitive k \<or> same_public v u)) d e"

definition discreet :: "(event \<Rightarrow> event) \<Rightarrow> bool" where
  "discreet f \<longleftrightarrow> (\<forall>d e. same_public_event d e \<longrightarrow> same_public_event (f d) (f e))"

definition polite :: "log_library \<Rightarrow> bool" where
  "polite lib \<longleftrightarrow> discreet (lb_merge lib) \<and> (\<forall>m. discreet (lb_level lib m)) \<and> discreet (lb_stamp lib) \<and>
     discreet (lb_stack lib) \<and> discreet (lb_exc lib)"

lemma discreetD: "discreet f \<Longrightarrow> same_public_event d e \<Longrightarrow> same_public_event (f d) (f e)"
  by (simp add: discreet_def)

lemma same_public_event_refl: "same_public_event d d"
  unfolding same_public_event_def by (rule list_all2_refl) (auto intro: same_refl)

text \<open>Writing a key the same way into both events keeps them apart in secrets only.\<close>

lemma same_public_dset:
  assumes "same_public_event d e" "is_sensitive k \<or> same_public v u"
  shows "same_public_event (dset d k v) (dset e k u)"
  using assms(1) unfolding same_public_event_def
proof (induction rule: list_all2_induct)
  case Nil
  then show ?case using assms(2) by (simp add: dset_def)
next
  case (Cons x xs y ys)
  then show ?case using assms(2) by (cases x; cases y) (auto simp: dset_def)
qed

lemma dset_discreet: "discreet (\<lambda>ed. dset ed k v)"
  unfolding discreet_def using same_public_dset same_refl by blast

lemma same_public_get:
  assumes "same_public_event d e" "\<not> is_sensitive k"
  shows "rel_option same_public (dget d k) (dget e k)"
  using assms(1) unfolding same_public_event_def
  by (induction rule: list_all2_induct) (use assms(2) in \<open>auto simp: dget_def\<close>)

lemma same_public_truthy: "same_public v u \<Longrightarrow> log_truthy v = log_truthy u"
proof (induction rule: same_public.induct)
  case (same_text k sep rest pre s t)
  then show ?case by (simp add: one_token_def)
qed (auto dest: list_all2_lengthD)

text \<open>The processor of the repository that runs before the redaction.\<close>

lemma correlation_discreet: "discreet add_correlation_id"
  unfolding discreet_def
proof (intro allI impI)
  fix d e
  assume de: "same_public_event d e"
  let ?c = "''correlation_id''" and ?x = "''x_correlation_id''" and ?h = "''X-Correlation-Id''"
  have "\<not> is_sensitive ?c" "\<not> is_sensitive ?x" "\<not> is_sensitive ?h" by code_simp+
  note get = this [THEN same_public_get [OF de]]
  let ?cand = "\<lambda>a b. find_first (\<lambda>v. log_truthy v) (map the (filter (\<lambda>v. v \<noteq> None) [None, a, b]))"
  have cand: "rel_option same_public (?cand a b) (?cand a' b')"
    if "rel_option same_public a a'" "rel_option same_public b b'" for a a' b b'
    using that by (cases a; cases a'; cases b; cases b') (simp_all add: same_public_truthy)
  have run: "add_correlation_id f = (if dget f ?c \<noteq> None then f
      else case ?cand (dget f ?x) (dget f ?h) of None \<Rightarrow> f | Some v \<Rightarrow> dset f ?c v)" for f
    by (simp add: add_correlation_id_def dhas_dget)
  show "same_public_event (add_correlation_id d) (add_correlation_id e)"
  proof (cases "dget d ?c = None")
    case True
    then have "dget e ?c = None" using get(1) by simp
    then have absent: "(dget d ?c \<noteq> None) = False" "(dget e ?c \<noteq> None) = False" using True by simp_all
    from cand [OF get(2,3)] show ?thesis
    proof (cases rule: option.rel_cases)
      case None
      show ?thesis unfolding run absent if_False None option.case by (rule de)
    next
      case (Some v u)
      show ?thesis unfolding run absent if_False Some(1,2) option.case
        by (rule same_public_dset [OF de disjI2 [OF Some(3)]])
    qed
  next
    case False
    then have "dget e ?c \<noteq> None" using get(1) by (cases "dget e ?c") auto
    then show ?thesis using False de unfolding run by simp
  qed
qed

lemma run_processor_discreet: "polite lib \<Longrightarrow> discreet (run_processor lib m p)"
proof (cases p)
  case RedactEventDict
  have "same_public_event (redact_event_dict d) (redact_event_dict e)" if "same_public_event d e" for d e
    using redact_events_equal that same_public_event_refl by (simp add: same_public_event_def)
  then show ?thesis by (simp add: RedactEventDict discreet_def)
qed (use correlation_discreet in \<open>auto simp: polite_def discreet_def\<close>)

lemma run_chain_discreet: "polite lib \<Longrightarrow> discreet (run_chain lib m ps)"
proof (induction ps)
  case Nil
  then show ?case by (simp add: discreet_def)
next
  case (Cons p ps)
  then show ?case using run_processor_discreet [of lib m p] by (simp add: discreet_def)
qed

lemma run_chain_append: "run_chain lib m (ps @ qs) ed = run_chain lib m qs (run_chain lib m ps ed)"
  by (induction ps arbitrary: ed) simp_all

text \<open>
  The redaction is the last processor of both chains, so whatever ran before it, two events that
  differ in secrets only come out equal, and are rendered to the same text.
\<close>

lemma shared_chain_hides:
  assumes "polite lib" "same_public_event d e"
  shows "run_chain lib m shared_processors d = run_chain lib m shared_processors e"
proof -
  have split: "shared_processors = butlast shared_processors @ [RedactEventDict]"
    by (simp add: shared_processors_def)
  have "same_public_event (run_chain lib m (butlast shared_processors) d) (run_chain lib m (butlast shared_processors) e)"
    by (rule discreetD [OF run_chain_discreet [OF assms(1)] assms(2)])
  then have "redact_event_dict (run_chain lib m (butlast shared_processors) d) =
      redact_event_dict (run_chain lib m (butlast shared_processors) e)"
    unfolding same_public_event_def by (rule redact_events_equal)
  then show ?thesis by (subst (1 2) split) (simp add: run_chain_append)
qed

lemma native_line_hides:
  assumes "polite lib" "same_public_event d e"
  shows "native_line (logging_setup_for level json_output) lib m d = native_line (logging_setup_for level json_output) lib m e"
  using shared_chain_hides [OF assms] by (simp add: native_line_def logging_setup_for_def)

text \<open>Records of the standard library: the filter makes them equal before they are formatted.\<close>

inductive_simps same_tuple_iff: "same_public (LTuple vs) u"
inductive_simps same_dict_iff: "same_public (LDict d) u"

lemma same_empty_args:
  assumes "same_public a b"
  shows "(a = LTuple [] \<or> a = LDict []) = (b = LTuple [] \<or> b = LDict [])"
  using assms by (cases rule: same_public.cases) auto

lemma filter_record_hides:
  assumes "same_public (LStr (lr_msg r)) (LStr (lr_msg q))" "rel_option same_public (lr_args r) (lr_args q)"
  shows "filter_record r = filter_record q"
proof -
  have "redact_text (lr_msg r) = redact_text (lr_msg q)" using redact_value_hides [OF assms(1)] by simp
  moreover have "(if a = LTuple [] \<or> a = LDict [] then a else redact_value a) =
      (if b = LTuple [] \<or> b = LDict [] then b else redact_value b)" if "same_public a b" for a b
    using same_empty_args [OF that] redact_value_hides [OF that] that
    by (auto simp: same_tuple_iff same_dict_iff)
  ultimately show ?thesis
    using assms(2) by (cases "lr_args r"; cases "lr_args q") (simp_all add: filter_record_def)
qed

lemma foreign_line_hides:
  assumes "same_public (LStr (lr_msg r)) (LStr (lr_msg q))" "rel_option same_public (lr_args r) (lr_args q)"
  shows "foreign_line st lib m r = foreign_line st lib m q"
  by (simp add: foreign_line_def filter_record_hides [OF assms])

text \<open>
  The filter runs first, so a message whose placeholder it replaced can no longer be formatted:
  \<open>getMessage\<close> fails and nothing is printed for the record.
\<close>

lemma swallowed_placeholder_fails:
  assumes "20 \<ge> ls_root_level st"
    and "lb_message lib \<lparr>lr_msg = ''password=[REDACTED]'', lr_args = Some (LTuple [LStr ''hunter2''])\<rparr> =
      Inl (TypeError ''not all arguments converted during string formatting'')"
  shows "foreign_line st lib LInfo \<lparr>lr_msg = ''password=%s'', lr_args = Some (LTuple [LStr ''hunter2''])\<rparr> =
    Inl (TypeError ''not all arguments converted during string formatting'')"
  using assms argument_kept by (simp add: foreign_line_def)

end
