(* ===== verification/Spec2Isabelle.thy ===== *)
theory Spec2Isabelle
  imports Pipeline Commands Lifecycle Lifetimes LogPipeline
begin

text \<open>
  \<^bold>\<open>VIX75 platform: a model of its services and what they guarantee.\<close>

  The platform trades one synthetic index with a set of small services that talk through Redis
  streams and a TimescaleDB database. The data service polls MetaTrader 5 for closed bars and
  announces them on \<open>ohlcv.closed\<close>; the feature service turns each announcement into a row of
  indicators, zones and swings and announces it on \<open>feature.computed\<close>; the ML service refreshes the
  cached regime and meta-label; the signal service runs the confluence engine and announces signals on
  \<open>signal.generated\<close>; the risk service sizes them against the account and the open exposure and asks
  for an order on \<open>order.request\<close>, or rejects; the execution service places each order once, records it
  and reconciles its rows with the broker; the notify service writes the audit trail and sends Telegram
  texts; the gateway authenticates, limits and proxies HTTP; the visualization service draws charts.
  All paths below are under \<open>src/\<close>.

  \<^bold>\<open>How effects are modelled.\<close> A service is state passing over a record that extends \<open>world\<close> (\<open>Bus\<close>):
  the log of the outside calls made so far, the bound correlation id, whether its database object holds
  a connection, and the fields of its own objects.
  A program of type \<open>('x, 'a) act\<close> maps a state to an exception or a value, and a state (\<open>bnd\<close>, \<open>attempt\<close>,
  \<open>finally_do\<close>, \<open>each\<close> are sequencing, \<open>try\<close>/\<open>except\<close>, \<open>finally\<close> and \<open>for\<close>). Redis, PostgreSQL, MetaTrader 5,
  HTTP, the clock and fresh ids are calls that an arbitrary environment \<open>env\<close> answers, as a function of the
  log, so an answer may be a value, an absence, an exception or nonsense (\<open>BadAnswer\<close>). Exceptions are
  values of \<open>exn\<close>; pure code that can raise returns \<open>'a res\<close>. Text that only gets formatted is kept as its
  parts (\<open>pytext\<close>). Floats are \<open>f64\<close> (\<open>Float64\<close>): NaN, infinities and reals rounded to 53 bits by \<open>mk\<close>, with
  Python's comparisons, division, \<open>round\<close> and \<open>floor\<close>; Python's integers are \<open>int\<close>; times are microseconds.

  \<^bold>\<open>Theories.\<close>
  \<^item> \<open>Prelude\<close>, \<open>Float64\<close>, \<open>Schemas\<close>, \<open>Bus\<close>, \<open>Connection\<close>, \<open>Rows\<close>, \<open>Outcomes\<close>: exceptions, dictionaries, floats, the schemas and
    settings of \<open>packages/vix_core\<close> (\<open>schemas.py\<close>, \<open>config.py\<close>, \<open>correlation.py\<close>), the shared consumer loop,
    the lazily opened database connection of every \<open>db.py\<close>, database rows, the failure predicates, and the locales \<open>run_relation\<close> and \<open>call_relation\<close> (relations
    between states that every call of a kind keeps, with one interpretation per invariant). Two more
    locales are interfaces: \<open>keyed_store\<close> (\<open>TradeStore\<close>) and \<open>sorted_set\<close> (\<open>RateLimit\<close>).
  \<^item> \<open>Sizing\<close> (\<open>risk.py\<close>), \<open>Scoring\<close> (\<open>scoring.py\<close>), \<open>SignalEngine\<close> (\<open>signal-service/app/engine.py\<close>), \<open>Indicators\<close>, \<open>Zones\<close>
    (\<open>zones.py\<close>, \<open>swings.py\<close>), \<open>Artifacts\<close>, \<open>MetaLabel\<close> (\<open>ml-service/app/hmm.py\<close>, \<open>meta_label.py\<close>): the pure core.
  \<^item> \<open>Terminal\<close>, \<open>DataService\<close>: \<open>mt5_client.py\<close> and \<open>services/data-service\<close>. \<open>Features\<close>: \<open>services/feature-service\<close>.
    \<open>MlService\<close>: storage, worker and routes of \<open>services/ml-service\<close>. \<open>SignalService\<close>: \<open>services/signal-service\<close>.
    \<open>Exposure\<close>, \<open>RiskService\<close>: \<open>services/risk-service\<close>. \<open>Executor\<close>, \<open>TradeStore\<close>, \<open>Execution\<close>, \<open>Reconciliation\<close>:
    \<open>services/execution-service\<close>. \<open>RateLimit\<close>, \<open>Gateway\<close>: \<open>services/api-gateway\<close>. \<open>Notify\<close>: \<open>services/notify-service\<close>.
    \<open>Visualization\<close>: \<open>services/visualization-service\<close>. \<open>Logging\<close>, \<open>LogPipeline\<close>:
    \<open>logging.py\<close> and \<open>observability.py\<close>.
  \<^item> \<open>Commands\<close>: \<open>scripts/start_system.py\<close>. \<open>Lifecycle\<close>: the \<open>lifespan\<close> of every \<open>main.py\<close> and the one-shot
    \<open>consumer_once.py\<close>. \<open>Lifetimes\<close>: a step relation over all writers of the trade table. \<open>Pipeline\<close>: the
    services joined by their streams.

  \<^bold>\<open>What is shown.\<close>
  \<^item> Orders: at most one result and three broker requests per key over any deliveries (C1), the run of a
    fresh order (C2), the classification of return codes (C3), dry run never sends (C4), a sweep closes
    only what the broker no longer holds (C13), and the life of a row over any interleaving (C8).
  \<^item> Sizing: risk, margin and stop bounds, termination of the margin loop (C5 to C7).
  \<^item> Signals: every hard gate, the order of the levels, the score and its weights (C9 to C12), the zone
    state machine and detection (C14, C15), swings (C16), RSI bounds and causality of the indicators
    (C17, C18), publication only behind the gates (C23).
  \<^item> Risk: the cap on positions over any deliveries, the gates before an order request, one answer per
    signal, the tracker as a refinement of a registry in Redis (C19 to C22).
  \<^item> Learning: saved artifacts load as they were and fail closed (C24, C25), the vectorised triple-barrier
    scan equals the direct definition (C26), regime prediction (C27), the worker acknowledges every
    message (C28).
  \<^item> Gateway: the sorted-set limiter refines a log of requests and bounds every window (C29, C30), nothing
    goes upstream without a token and admission (C31), tokens round-trip (C32), responses carry one
    correlation id (C33).
  \<^item> Notify: a batch is drained whatever the database and Telegram do (C34). Features: typed rows and
    acknowledgement after publication (C35, C36). Data: each bar announced once in order (C37), a
    backfill ends and leaves no gap (C38). Logging: a redacted event hides its secrets (C39).
  \<^item> The pipeline: the order that the execution service reads is the order of an emitted signal with its
    accepted size (C40).
  \<open>Connection\<close> shows that a database object reuses a live connection, opens one when it has none and
  answers its ping, and \<open>LogPipeline\<close> carries C39 to the lines that structlog and the standard library
  print (\<open>native_line_hides\<close>, \<open>foreign_line_hides\<close>).
  The lemmas beside them record where the code departs from its comments, for instance
  \<open>MlService.cached_label_unresolved\<close>, \<open>Pipeline.generated_signal_ends_notify\<close>,
  \<open>Lifecycle.crashed_task_skips_close\<close>, \<open>DataService.failed_upsert_loses_bars\<close> and \<open>Logging.argument_kept\<close>.

  \<^bold>\<open>Bounds.\<close> \<open>shrink_lots\<close> is a \<open>partial_function (option)\<close>, and C7 shows that it returns on a sane volume
  grid. The \<open>while True\<close> loops of the workers are their first \<open>n\<close> rounds, for every \<open>n\<close>. Paging through
  history and the wait for a port take a bound on their turns and raise \<open>Diverged\<close>, which no handler
  catches, when it runs out; C38 shows that enough pages always suffice. The broker loop runs over its
  three attempts.

  \<^bold>\<open>Parameters.\<close> numpy's reductions, scipy's \<open>find_peaks\<close>, the Gaussian HMM, LightGBM, sha256 and joblib,
  PyJWT, httpx, pydantic's \<open>model_validate\<close> and \<open>urlparse\<close> are arguments (\<open>numlib\<close>, \<open>codec\<close>, \<open>jwt_lib\<close> and others);
  where a property relies on them, their documented law is a named hypothesis and its witness uses a
  concrete function. The sorted sets of Redis are an interface whose laws the repository's own
  \<open>FakeRedis\<close> satisfies.

  \<^bold>\<open>Not modelled.\<close> Log lines and metrics, except where evaluating one may raise; FastAPI's routing and
  dependency wiring; Plotly's styling; the interleaving of the tasks inside one
  process (each worker is one sequence of steps, and environments answer arbitrarily between them); SQL
  beyond the statements named, which are functions on lists of rows where a property depends on them
  (trades) and calls elsewhere; argument parsing beyond defaults and choices; deployment files and tests.
\<close>

end
